(* ===== verification/Prelude.thy ===== *)
theory Prelude
  imports Main "HOL-Library.Word" "HOL-Library.Monad_Syntax"
begin

text \<open>
  Shared vocabulary of the development: the C integer types, the result type of a C
  function, reads and writes of byte arrays, and the generic lemmas and automation that
  the component theories share.

  A C function that can be undefined is a function into \<open>'a option\<close>. \<open>None\<close> stands
  for an execution without a defined result: a read or write outside an object, a null or
  dangling pointer, a double free, signed overflow, a failed \<open>assert\<close>, or a call that
  never returns. The error codes of the library are ordinary values of the result.
\<close>

unbundle bit_operations_syntax

type_synonym u8 = "8 word"
type_synonym u16 = "16 word"
type_synonym u32 = "32 word"

text \<open>Addresses of objects; \<open>0\<close> is the null pointer.\<close>

type_synonym addr = nat

named_theorems monad_simps "when the defined result of a model function is Some"
named_theorems c_defs "the C primitives of this theory, to be unfolded"

section \<open>C primitives\<close>

text \<open>\<open>assert(P)\<close>: the program aborts when \<open>P\<close> is false.\<close>

definition c_assert :: "bool \<Rightarrow> unit option" where
  "c_assert P = (if P then Some () else None)"

text \<open>The range of \<open>int\<close>; a signed operation that leaves it is undefined.\<close>

definition INT_MAX :: int where "INT_MAX = 2147483647"

definition INT_MIN :: int where "INT_MIN = - 2147483648"

definition c_int :: "int \<Rightarrow> int option" where
  "c_int x = (if INT_MIN \<le> x \<and> x \<le> INT_MAX then Some x else None)"

text \<open>Reading and writing one cell of an array object.\<close>

definition rd :: "'a list \<Rightarrow> nat \<Rightarrow> 'a option" where
  "rd xs i = (if i < length xs then Some (xs ! i) else None)"

definition wr :: "'a list \<Rightarrow> nat \<Rightarrow> 'a \<Rightarrow> 'a list option" where
  "wr xs i v = (if i < length xs then Some (xs[i := v]) else None)"

text \<open>\<open>memcpy(dst + off, src, n)\<close> with \<open>n = length src\<close>.\<close>

definition wr_block :: "'a list \<Rightarrow> nat \<Rightarrow> 'a list \<Rightarrow> 'a list option" where
  "wr_block xs off ys =
     (if off + length ys \<le> length xs
      then Some (take off xs @ ys @ drop (off + length ys) xs) else None)"

text \<open>\<open>n\<close> bytes from offset \<open>off\<close> on.\<close>

definition rd_block :: "'a list \<Rightarrow> nat \<Rightarrow> nat \<Rightarrow> 'a list option" where
  "rd_block xs off n = (if off + n \<le> length xs then Some (take n (drop off xs)) else None)"

lemmas c_prims [c_defs] = c_assert_def c_int_def INT_MAX_def INT_MIN_def rd_def wr_def
  wr_block_def rd_block_def

section \<open>When a computation is defined\<close>

lemma c_assert_bind [monad_simps]:
  "(c_assert P \<bind> f = Some y) \<longleftrightarrow> P \<and> f () = Some y"
  by (simp add: c_assert_def)

lemma c_assert_True [simp]: "c_assert True = Some ()"
  by (simp add: c_assert_def)

lemma c_assert_False [simp]: "c_assert False = None"
  by (simp add: c_assert_def)

lemma c_assert_Some [monad_simps]: "(c_assert P = Some u) \<longleftrightarrow> P"
  by (simp add: c_assert_def)

lemma rd_Some [monad_simps]: "(rd xs i = Some v) \<longleftrightarrow> i < length xs \<and> v = xs ! i"
  by (auto simp: rd_def)

lemma wr_Some [monad_simps]: "(wr xs i v = Some ys) \<longleftrightarrow> i < length xs \<and> ys = xs[i := v]"
  by (auto simp: wr_def)

lemma wr_block_Some [monad_simps]:
  "(wr_block xs off ys = Some zs) \<longleftrightarrow>
     off + length ys \<le> length xs \<and> zs = take off xs @ ys @ drop (off + length ys) xs"
  by (auto simp: wr_block_def)

lemma rd_block_Some [monad_simps]:
  "(rd_block xs off n = Some zs) \<longleftrightarrow> off + n \<le> length xs \<and> zs = take n (drop off xs)"
  by (auto simp: rd_block_def)

lemma c_int_Some [monad_simps]:
  "(c_int x = Some y) \<longleftrightarrow> INT_MIN \<le> x \<and> x \<le> INT_MAX \<and> y = x"
  by (auto simp: c_int_def)

lemmas bind_Some_conv [monad_simps] = Option.bind_eq_Some_conv

lemma rd_in [simp]: "i < length xs \<Longrightarrow> rd xs i = Some (xs ! i)"
  by (simp add: rd_def)

lemma wr_in [simp]: "i < length xs \<Longrightarrow> wr xs i v = Some (xs[i := v])"
  by (simp add: wr_def)

lemma rd_out [simp]: "length xs \<le> i \<Longrightarrow> rd xs i = None"
  by (simp add: rd_def)

lemma wr_out [simp]: "length xs \<le> i \<Longrightarrow> wr xs i v = None"
  by (simp add: wr_def)

section \<open>Bytes and 16-bit little-endian fields\<close>

text \<open>\<open>lo | (hi << 8)\<close>, the way the sources read a 16-bit field.\<close>

definition le16 :: "u8 \<Rightarrow> u8 \<Rightarrow> u16" where
  "le16 lo hi = ucast lo OR push_bit 8 (ucast hi)"

text \<open>\<open>(uint8_t)x\<close> and \<open>(uint8_t)(x >> 8)\<close>.\<close>

definition lo8 :: "u16 \<Rightarrow> u8" where
  "lo8 x = ucast x"

definition hi8 :: "u16 \<Rightarrow> u8" where
  "hi8 x = ucast (drop_bit 8 x)"

lemma le16_split [simp]: "le16 (lo8 x) (hi8 x) = x"
  unfolding le16_def lo8_def hi8_def
  by (rule bit_word_eqI) (auto simp: bit_simps)

lemma lo8_le16 [simp]: "lo8 (le16 a b) = a"
  unfolding le16_def lo8_def
  by (rule bit_word_eqI) (auto simp: bit_simps)

lemma hi8_le16 [simp]: "hi8 (le16 a b) = b"
  unfolding le16_def hi8_def
  by (rule bit_word_eqI) (auto simp: bit_simps dest: bit_imp_le_length)

lemma unat_u8_less: "unat (a :: u8) < 256"
  using unsigned_less [of a, where ?'a = nat] by simp

lemma unat_u16_less: "unat (a :: u16) < 65536"
  using unsigned_less [of a, where ?'a = nat] by simp

lemma unat_of_nat_u16: "n < 65536 \<Longrightarrow> unat (of_nat n :: u16) = n"
  by (simp add: unat_of_nat)

lemma unat_le16: "unat (le16 a b) = unat a + 256 * unat b"
proof -
  have "(ucast a :: u16) AND push_bit 8 (ucast b) = 0"
    by (rule bit_word_eqI) (auto simp: bit_simps dest: bit_imp_le_length)
  then have "le16 a b = (ucast a :: u16) + push_bit 8 (ucast b)"
    by (simp add: le16_def disjunctive_add_eq_or)
  also have "\<dots> = of_nat (unat a + 256 * unat b)"
    by (simp add: push_bit_eq_mult mult.commute)
  finally have "le16 a b = of_nat (unat a + 256 * unat b)" .
  moreover have "unat a + 256 * unat b < 65536"
    using unat_u8_less [of a] unat_u8_less [of b] by linarith
  ultimately show ?thesis
    by (simp only: unat_of_nat_u16)
qed

section \<open>Lists\<close>

lemma take_update_snoc:
  "i < length xs \<Longrightarrow> take (Suc i) (xs[i := v]) = take i xs @ [v]"
  by (simp add: take_Suc_conv_app_nth)

lemma drop_update_Suc: "drop (Suc i) (xs[i := v]) = drop (Suc i) xs"
  by simp

end
