(* ===== verification/Usb_Types.thy ===== *)
theory Usb_Types
  imports Prelude
begin

text \<open>
  The data of the public header \<^verbatim>\<open>src/libusby.h\<close>: the error codes and transfer
  enumerations with the integers the compiler gives them, and the USB descriptors with
  the byte layout that the sources rely on when they \<open>memcpy\<close> raw descriptors into them
  (a little-endian host, as the sources assume: \<^verbatim>\<open>FIXME: endianity\<close>).
\<close>

section \<open>Error codes\<close>

datatype libusby_error =
    LIBUSBY_SUCCESS
  | LIBUSBY_ERROR_IO
  | LIBUSBY_ERROR_INVALID_PARAM
  | LIBUSBY_ERROR_ACCESS
  | LIBUSBY_ERROR_NO_DEVICE
  | LIBUSBY_ERROR_NOT_FOUND
  | LIBUSBY_ERROR_BUSY
  | LIBUSBY_ERROR_TIMEOUT
  | LIBUSBY_ERROR_OVERFLOW
  | LIBUSBY_ERROR_PIPE
  | LIBUSBY_ERROR_INTERRUPTED
  | LIBUSBY_ERROR_NO_MEM
  | LIBUSBY_ERROR_NOT_SUPPORTED
  | LIBUSBY_ERROR_OTHER

fun err :: "libusby_error \<Rightarrow> int" where
  "err LIBUSBY_SUCCESS = 0"
| "err LIBUSBY_ERROR_IO = -1"
| "err LIBUSBY_ERROR_INVALID_PARAM = -2"
| "err LIBUSBY_ERROR_ACCESS = -3"
| "err LIBUSBY_ERROR_NO_DEVICE = -4"
| "err LIBUSBY_ERROR_NOT_FOUND = -5"
| "err LIBUSBY_ERROR_BUSY = -6"
| "err LIBUSBY_ERROR_TIMEOUT = -7"
| "err LIBUSBY_ERROR_OVERFLOW = -8"
| "err LIBUSBY_ERROR_PIPE = -9"
| "err LIBUSBY_ERROR_INTERRUPTED = -10"
| "err LIBUSBY_ERROR_NO_MEM = -11"
| "err LIBUSBY_ERROR_NOT_SUPPORTED = -12"
| "err LIBUSBY_ERROR_OTHER = -99"

lemma err_inj [simp]: "err a = err b \<longleftrightarrow> a = b"
  by (cases a; cases b; simp)

lemma err_neg_iff [simp]: "err e < 0 \<longleftrightarrow> e \<noteq> LIBUSBY_SUCCESS"
  by (cases e) simp_all

lemma err_nonneg_iff [simp]: "0 \<le> err e \<longleftrightarrow> e = LIBUSBY_SUCCESS"
  by (cases e) simp_all

text \<open>The codes are ordered as the integers they are, so \<open>r < 0\<close> is an order test.\<close>

instantiation libusby_error :: linorder
begin

definition less_eq_libusby_error :: "libusby_error \<Rightarrow> libusby_error \<Rightarrow> bool" where
  "less_eq_libusby_error a b \<longleftrightarrow> err a \<le> err b"

definition less_libusby_error :: "libusby_error \<Rightarrow> libusby_error \<Rightarrow> bool" where
  "less_libusby_error a b \<longleftrightarrow> err a < err b"

instance
  by standard (auto simp: less_eq_libusby_error_def less_libusby_error_def
    intro: err_inj [THEN iffD1] order_antisym)

end

lemma error_below_success: "e < LIBUSBY_SUCCESS \<longleftrightarrow> e \<noteq> LIBUSBY_SUCCESS"
  by (simp add: less_libusby_error_def)

section \<open>Transfers\<close>

datatype libusby_transfer_status =
    LIBUSBY_TRANSFER_COMPLETED
  | LIBUSBY_TRANSFER_ERROR
  | LIBUSBY_TRANSFER_TIMED_OUT
  | LIBUSBY_TRANSFER_CANCELLED
  | LIBUSBY_TRANSFER_STALL
  | LIBUSBY_TRANSFER_NO_DEVICE
  | LIBUSBY_TRANSFER_OVERFLOW

text \<open>The \<open>status\<close> field is an \<open>int\<close> in memory; the sources also store an error code there.\<close>

fun status_code :: "libusby_transfer_status \<Rightarrow> int" where
  "status_code LIBUSBY_TRANSFER_COMPLETED = 0"
| "status_code LIBUSBY_TRANSFER_ERROR = 1"
| "status_code LIBUSBY_TRANSFER_TIMED_OUT = 2"
| "status_code LIBUSBY_TRANSFER_CANCELLED = 3"
| "status_code LIBUSBY_TRANSFER_STALL = 4"
| "status_code LIBUSBY_TRANSFER_NO_DEVICE = 5"
| "status_code LIBUSBY_TRANSFER_OVERFLOW = 6"

lemma status_code_inj [simp]: "status_code a = status_code b \<longleftrightarrow> a = b"
  by (cases a; cases b; simp)

lemma status_code_nonneg [simp]: "0 \<le> status_code s"
  by (cases s) simp_all

datatype libusby_transfer_type =
    LIBUSBY_TRANSFER_TYPE_CONTROL
  | LIBUSBY_TRANSFER_TYPE_ISOCHRONOUS
  | LIBUSBY_TRANSFER_TYPE_BULK
  | LIBUSBY_TRANSFER_TYPE_INTERRUPT

fun type_code :: "libusby_transfer_type \<Rightarrow> u8" where
  "type_code LIBUSBY_TRANSFER_TYPE_CONTROL = 0"
| "type_code LIBUSBY_TRANSFER_TYPE_ISOCHRONOUS = 1"
| "type_code LIBUSBY_TRANSFER_TYPE_BULK = 2"
| "type_code LIBUSBY_TRANSFER_TYPE_INTERRUPT = 3"

lemma type_code_inj [simp]: "type_code a = type_code b \<longleftrightarrow> a = b"
  by (cases a; cases b; simp)

section \<open>The device descriptor\<close>

record libusby_device_descriptor =
  dd_bLength :: u8
  dd_bDescriptorType :: u8
  dd_bcdUSB :: u16
  dd_bDeviceClass :: u8
  dd_bDeviceSubClass :: u8
  dd_bDeviceProtocol :: u8
  dd_bMaxPacketSize0 :: u8
  dd_idVendor :: u16
  dd_idProduct :: u16
  dd_bcdDevice :: u16
  dd_iManufacturer :: u8
  dd_iProduct :: u8
  dd_iSerialNumber :: u8
  dd_bNumConfigurations :: u8

abbreviation sizeof_device_descriptor :: nat where
  "sizeof_device_descriptor \<equiv> 18"

text \<open>The structure as \<open>memcpy\<close> from its 18 bytes leaves it, and its bytes.\<close>

definition device_desc_of_bytes :: "u8 list \<Rightarrow> libusby_device_descriptor" where
  "device_desc_of_bytes b = \<lparr>
     dd_bLength = b ! 0, dd_bDescriptorType = b ! 1,
     dd_bcdUSB = le16 (b ! 2) (b ! 3),
     dd_bDeviceClass = b ! 4, dd_bDeviceSubClass = b ! 5, dd_bDeviceProtocol = b ! 6,
     dd_bMaxPacketSize0 = b ! 7,
     dd_idVendor = le16 (b ! 8) (b ! 9), dd_idProduct = le16 (b ! 10) (b ! 11),
     dd_bcdDevice = le16 (b ! 12) (b ! 13),
     dd_iManufacturer = b ! 14, dd_iProduct = b ! 15, dd_iSerialNumber = b ! 16,
     dd_bNumConfigurations = b ! 17 \<rparr>"

definition bytes_of_device_desc :: "libusby_device_descriptor \<Rightarrow> u8 list" where
  "bytes_of_device_desc d =
     [dd_bLength d, dd_bDescriptorType d, lo8 (dd_bcdUSB d), hi8 (dd_bcdUSB d),
      dd_bDeviceClass d, dd_bDeviceSubClass d, dd_bDeviceProtocol d, dd_bMaxPacketSize0 d,
      lo8 (dd_idVendor d), hi8 (dd_idVendor d), lo8 (dd_idProduct d), hi8 (dd_idProduct d),
      lo8 (dd_bcdDevice d), hi8 (dd_bcdDevice d),
      dd_iManufacturer d, dd_iProduct d, dd_iSerialNumber d, dd_bNumConfigurations d]"

definition zero_device_desc :: libusby_device_descriptor where
  "zero_device_desc = device_desc_of_bytes (replicate 18 0)"

lemma length_bytes_of_device_desc [simp]: "length (bytes_of_device_desc d) = 18"
  by (simp add: bytes_of_device_desc_def)

lemma device_desc_of_bytes_inverse [simp]: "device_desc_of_bytes (bytes_of_device_desc d) = d"
  by (simp add: device_desc_of_bytes_def bytes_of_device_desc_def eval_nat_numeral)

section \<open>Configuration, interface and endpoint descriptors\<close>

text \<open>
  The last member of the configuration and interface descriptors is a pointer, here an
  address into the heap of the theory \<open>Config_Desc\<close>; the raw descriptor covers the
  members before it (9, 9 and 7 bytes).
\<close>

record libusby_endpoint_descriptor =
  ed_bLength :: u8
  ed_bDescriptorType :: u8
  ed_bEndpointAddress :: u8
  ed_bmAttributes :: u8
  ed_wMaxPacketSize :: u16
  ed_bInterval :: u8
  ed_bRefresh :: u8
  ed_bSynchAddress :: u8

record libusby_interface_descriptor =
  id_bLength :: u8
  id_bDescriptorType :: u8
  id_bInterfaceNumber :: u8
  id_bAlternateSetting :: u8
  id_bNumEndpoints :: u8
  id_bInterfaceClass :: u8
  id_bInterfaceSubClass :: u8
  id_bInterfaceProtocol :: u8
  id_iInterface :: u8
  id_endpoint :: addr

record libusby_interface =
  if_altsetting :: addr
  if_num_altsetting :: int

record libusby_config_descriptor =
  cd_bLength :: u8
  cd_bDescriptorType :: u8
  cd_wTotalLength :: u16
  cd_bNumInterfaces :: u8
  cd_bConfigurationValue :: u8
  cd_iConfiguration :: u8
  cd_bmAttributes :: u8
  cd_MaxPower :: u8
  cd_interface :: addr

definition zero_endpoint_desc :: libusby_endpoint_descriptor where
  "zero_endpoint_desc = \<lparr> ed_bLength = 0, ed_bDescriptorType = 0, ed_bEndpointAddress = 0,
     ed_bmAttributes = 0, ed_wMaxPacketSize = 0, ed_bInterval = 0, ed_bRefresh = 0,
     ed_bSynchAddress = 0 \<rparr>"

definition zero_interface :: libusby_interface where
  "zero_interface = \<lparr> if_altsetting = 0, if_num_altsetting = 0 \<rparr>"

text \<open>\<open>memcpy(&endpoint[i], raw, 7)\<close> into a zeroed element keeps the last two members zero.\<close>

definition endpoint_desc_of_bytes :: "libusby_endpoint_descriptor \<Rightarrow> u8 list \<Rightarrow> libusby_endpoint_descriptor" where
  "endpoint_desc_of_bytes e b = e\<lparr> ed_bLength := b ! 0, ed_bDescriptorType := b ! 1,
     ed_bEndpointAddress := b ! 2, ed_bmAttributes := b ! 3,
     ed_wMaxPacketSize := le16 (b ! 4) (b ! 5), ed_bInterval := b ! 6 \<rparr>"

text \<open>\<open>memcpy(intf_desc, raw, 9)\<close>: the pointer member keeps its value \<open>p\<close>.\<close>

definition interface_desc_of_bytes :: "addr \<Rightarrow> u8 list \<Rightarrow> libusby_interface_descriptor" where
  "interface_desc_of_bytes p b = \<lparr> id_bLength = b ! 0, id_bDescriptorType = b ! 1,
     id_bInterfaceNumber = b ! 2, id_bAlternateSetting = b ! 3, id_bNumEndpoints = b ! 4,
     id_bInterfaceClass = b ! 5, id_bInterfaceSubClass = b ! 6,
     id_bInterfaceProtocol = b ! 7, id_iInterface = b ! 8, id_endpoint = p \<rparr>"

definition config_desc_of_bytes :: "addr \<Rightarrow> u8 list \<Rightarrow> libusby_config_descriptor" where
  "config_desc_of_bytes p b = \<lparr> cd_bLength = b ! 0, cd_bDescriptorType = b ! 1,
     cd_wTotalLength = le16 (b ! 2) (b ! 3), cd_bNumInterfaces = b ! 4,
     cd_bConfigurationValue = b ! 5, cd_iConfiguration = b ! 6, cd_bmAttributes = b ! 7,
     cd_MaxPower = b ! 8, cd_interface = p \<rparr>"

definition bytes_of_endpoint_desc :: "libusby_endpoint_descriptor \<Rightarrow> u8 list" where
  "bytes_of_endpoint_desc e = [ed_bLength e, ed_bDescriptorType e, ed_bEndpointAddress e,
     ed_bmAttributes e, lo8 (ed_wMaxPacketSize e), hi8 (ed_wMaxPacketSize e), ed_bInterval e]"

definition bytes_of_interface_desc :: "libusby_interface_descriptor \<Rightarrow> u8 list" where
  "bytes_of_interface_desc d = [id_bLength d, id_bDescriptorType d, id_bInterfaceNumber d,
     id_bAlternateSetting d, id_bNumEndpoints d, id_bInterfaceClass d, id_bInterfaceSubClass d,
     id_bInterfaceProtocol d, id_iInterface d]"

definition bytes_of_config_desc :: "libusby_config_descriptor \<Rightarrow> u8 list" where
  "bytes_of_config_desc c = [cd_bLength c, cd_bDescriptorType c, lo8 (cd_wTotalLength c),
     hi8 (cd_wTotalLength c), cd_bNumInterfaces c, cd_bConfigurationValue c,
     cd_iConfiguration c, cd_bmAttributes c, cd_MaxPower c]"

lemmas raw_desc_defs = endpoint_desc_of_bytes_def interface_desc_of_bytes_def
  config_desc_of_bytes_def bytes_of_endpoint_desc_def bytes_of_interface_desc_def
  bytes_of_config_desc_def

lemma length_raw_descs [simp]:
  "length (bytes_of_endpoint_desc e) = 7"
  "length (bytes_of_interface_desc d) = 9"
  "length (bytes_of_config_desc c) = 9"
  by (simp_all add: raw_desc_defs)

lemma config_desc_roundtrip [simp]:
  "config_desc_of_bytes p (bytes_of_config_desc c @ rest) = c\<lparr>cd_interface := p\<rparr>"
  by (simp add: raw_desc_defs eval_nat_numeral)

lemma interface_desc_roundtrip [simp]:
  "interface_desc_of_bytes p (bytes_of_interface_desc d @ rest) = d\<lparr>id_endpoint := p\<rparr>"
  by (simp add: raw_desc_defs eval_nat_numeral)

lemma endpoint_desc_roundtrip [simp]:
  "ed_bRefresh e = ed_bRefresh e' \<Longrightarrow> ed_bSynchAddress e = ed_bSynchAddress e' \<Longrightarrow>
     endpoint_desc_of_bytes e' (bytes_of_endpoint_desc e @ rest) = e"
  by (simp add: raw_desc_defs eval_nat_numeral)

end
