(* ===== verification/Utf8.thy ===== *)
theory Utf8
  imports Usb_Types
begin

text \<open>
  String descriptors: \<^verbatim>\<open>encode_utf8\<close> and the UTF-16LE to UTF-8 loop of
  \<^verbatim>\<open>libusby_get_string_descriptor_utf8\<close> (\<^verbatim>\<open>src/libusby.c\<close>). The output
  buffer \<open>data\<close> is the list of the caller's bytes and a store outside it is undefined. The
  lemmas give the bytes the encoder writes, compare them with the UTF-8 of the standard
  (\<open>utf8_std\<close>, defined by arithmetic), and lift this to the whole conversion.
\<close>

section \<open>The model\<close>

text \<open>\<open>data[res++] = b\<close> on the buffer that starts at offset \<open>off\<close>.\<close>

definition emit :: "nat \<Rightarrow> u8 \<Rightarrow> int \<times> u8 list \<Rightarrow> (int \<times> u8 list) option" where
  "emit off b s = (case s of (res, data) \<Rightarrow> do {
     data' \<leftarrow> wr data (off + nat res) b;
     Some (res + 1, data') })"

text \<open>\<open>if (res < length) data[res++] = b\<close>\<close>

definition emit_if_room :: "nat \<Rightarrow> int \<Rightarrow> u8 \<Rightarrow> int \<times> u8 list \<Rightarrow> (int \<times> u8 list) option" where
  "emit_if_room off len b s = (if fst s < len then emit off b s else Some s)"

definition encode_utf8 :: "u8 list \<Rightarrow> nat \<Rightarrow> int \<Rightarrow> u32 \<Rightarrow> (int \<times> u8 list) option" where
  "encode_utf8 data off len cp = do {
     c_assert (0 < len);
     c_assert (cp < 0x110000);
     if cp < 0x7f then
       emit off (ucast cp) (0, data)
     else if cp < 0x7ff then do {
       s \<leftarrow> emit off (ucast (0xC0 OR drop_bit 6 cp)) (0, data);
       emit_if_room off len (ucast (0x80 OR (cp AND 0x3f))) s }
     else if cp < 0xffff then do {
       s \<leftarrow> emit off (ucast (0xe0 OR drop_bit 12 cp)) (0, data);
       s \<leftarrow> emit_if_room off len (ucast (0x80 OR (drop_bit 6 cp AND 0x3f))) s;
       emit_if_room off len (ucast (0x80 OR (cp AND 0x3f))) s }
     else do {
       s \<leftarrow> emit off (ucast (0xf0 OR drop_bit 18 cp)) (0, data);
       s \<leftarrow> emit_if_room off len (ucast (0x80 OR (drop_bit 12 cp AND 0x3f))) s;
       s \<leftarrow> emit_if_room off len (ucast (0x80 OR (drop_bit 6 cp AND 0x3f))) s;
       emit_if_room off len (ucast (0x80 OR (cp AND 0x3f))) s } }"

record utf_state =
  us_data :: "u8 list"
  us_data_len :: int
  us_encoded_len :: int
  us_high_surrogate :: u16

text \<open>Encode \<open>cp\<close> at \<open>data + data_len\<close>, with \<open>length - data_len\<close> bytes of room.\<close>

definition encode_at :: "int \<Rightarrow> u32 \<Rightarrow> utf_state \<Rightarrow> utf_state option" where
  "encode_at len cp st = do {
     (n, data) \<leftarrow> encode_utf8 (us_data st) (nat (us_data_len st)) (len - us_data_len st) cp;
     Some (st\<lparr>us_data := data, us_encoded_len := n\<rparr>) }"

text \<open>
  The body of the loop for one code unit \<open>cu\<close>: \<open>Inl (r, data)\<close> is a \<open>return r\<close>,
  \<open>Inr\<close> goes on with the next unit.
\<close>

definition utf16_body :: "int \<Rightarrow> u16 \<Rightarrow> utf_state \<Rightarrow> ((int \<times> u8 list) + utf_state) option" where
  "utf16_body len cu st =
     (if cu \<ge> 0xDC00 \<and> cu < 0xE000 then
        if us_high_surrogate st = 0 then Some (Inl (err LIBUSBY_ERROR_IO, us_data st))
        else do {
          st' \<leftarrow> encode_at len (push_bit 10 (ucast (us_high_surrogate st - 0xD800))
                                OR ucast (cu - 0xDC00)) st;
          Some (Inr (st'\<lparr>us_high_surrogate := 0\<rparr>)) }
      else if cu \<ge> 0xD800 \<and> cu < 0xDC00 then
        if us_high_surrogate st \<noteq> 0 then Some (Inl (err LIBUSBY_ERROR_IO, us_data st))
        else Some (Inr (st\<lparr>us_high_surrogate := cu\<rparr>))
      else
        if us_high_surrogate st \<noteq> 0 then Some (Inl (err LIBUSBY_ERROR_IO, us_data st))
        else do {
          st' \<leftarrow> encode_at len (ucast cu) st;
          Some (Inr st') })"

text \<open>The end of the body: \<open>if (encoded_len < 0) return; data_len += encoded_len\<close>.\<close>

definition utf16_step :: "int \<Rightarrow> u16 \<Rightarrow> utf_state \<Rightarrow> ((int \<times> u8 list) + utf_state) option" where
  "utf16_step len cu st = do {
     b \<leftarrow> utf16_body len cu st;
     case b of
       Inl r \<Rightarrow> Some (Inl r)
     | Inr st' \<Rightarrow>
         if us_encoded_len st' < 0 then Some (Inl (us_encoded_len st', us_data st'))
         else do {
           n \<leftarrow> c_int (us_data_len st' + us_encoded_len st');
           Some (Inr (st'\<lparr>us_data_len := n\<rparr>)) } }"

text \<open>
  \<open>for (i = 2; encoded_len < length && i < r; i += 2)\<close> and the code after it. \<open>r\<close> is not
  negative here; the code units are read from the raw bytes, low byte first.
\<close>

function utf16_loop :: "u8 list \<Rightarrow> nat \<Rightarrow> int \<Rightarrow> nat \<Rightarrow> utf_state \<Rightarrow> (int \<times> u8 list) option" where
  "utf16_loop buf r len i st =
     (if us_encoded_len st < len \<and> i < r then do {
        lo \<leftarrow> rd buf i;
        hi \<leftarrow> rd buf (i + 1);
        x \<leftarrow> utf16_step len (le16 lo hi) st;
        case x of
          Inl ret \<Rightarrow> Some ret
        | Inr st' \<Rightarrow> utf16_loop buf r len (i + 2) st' }
      else if i = r \<and> us_high_surrogate st \<noteq> 0
      then Some (err LIBUSBY_ERROR_IO, us_data st)
      else Some (us_data_len st, us_data st))"
  by pat_completeness auto
termination
  by (relation "measure (\<lambda>(buf, r, len, i, st). r - i)") auto

declare utf16_loop.simps [simp del]

text \<open>
  \<^verbatim>\<open>libusby_get_string_descriptor_utf8\<close> once the raw descriptor is in
  \<open>utf16_buf\<close> and \<open>r \<ge> 0\<close> bytes of it were received.
\<close>

definition string_desc_to_utf8 :: "int \<Rightarrow> u8 list \<Rightarrow> u8 list \<Rightarrow> int \<Rightarrow> (int \<times> u8 list) option" where
  "string_desc_to_utf8 r buf data len =
     (if r < 2 then Some (err LIBUSBY_ERROR_IO, data) else do {
        b1 \<leftarrow> rd buf 1;
        if b1 \<noteq> 3 then Some (err LIBUSBY_ERROR_IO, data) else do {
          b0 \<leftarrow> rd buf 0;
          let r' = (if r > uint b0 then uint b0 else r);
          if r' mod 2 \<noteq> 0 then Some (err LIBUSBY_ERROR_IO, data)
          else utf16_loop buf (nat r') len 2
            \<lparr> us_data = data, us_data_len = 0, us_encoded_len = 0, us_high_surrogate = 0 \<rparr> } })"

section \<open>What the encoder writes\<close>

text \<open>The bytes of the four branches, without the room test.\<close>

definition encode_bytes :: "u32 \<Rightarrow> u8 list" where
  "encode_bytes cp =
     (if cp < 0x7f then [ucast cp]
      else if cp < 0x7ff then
        [ucast (0xC0 OR drop_bit 6 cp), ucast (0x80 OR (cp AND 0x3f))]
      else if cp < 0xffff then
        [ucast (0xe0 OR drop_bit 12 cp), ucast (0x80 OR (drop_bit 6 cp AND 0x3f)),
         ucast (0x80 OR (cp AND 0x3f))]
      else
        [ucast (0xf0 OR drop_bit 18 cp), ucast (0x80 OR (drop_bit 12 cp AND 0x3f)),
         ucast (0x80 OR (drop_bit 6 cp AND 0x3f)), ucast (0x80 OR (cp AND 0x3f))])"

fun emit_seq :: "nat \<Rightarrow> int \<Rightarrow> u8 list \<Rightarrow> int \<times> u8 list \<Rightarrow> (int \<times> u8 list) option" where
  "emit_seq off len [] s = Some s"
| "emit_seq off len (b # bs) s = do { s' \<leftarrow> emit_if_room off len b s; emit_seq off len bs s' }"

lemma emit_seq_eqs:
  "emit_seq off len [] = Some"
  "emit_seq off len (b # bs) = (\<lambda>s. emit_if_room off len b s \<bind> emit_seq off len bs)"
  by (rule ext, simp)+

lemma emit_first: "0 < len \<Longrightarrow> emit off b (0, data) = emit_if_room off len b (0, data)"
  by (simp add: emit_if_room_def)

lemma emit_seq_full: "len \<le> fst s \<Longrightarrow> emit_seq off len bs s = Some s"
  by (induction bs) (simp_all add: emit_if_room_def)

lemma length_encode_bytes: "1 \<le> length (encode_bytes cp)" "length (encode_bytes cp) \<le> 4"
  by (simp_all add: encode_bytes_def)

lemma encode_bytes_nonempty [simp]: "encode_bytes cp \<noteq> []"
  by (simp add: encode_bytes_def)

lemma encode_utf8_seq:
  "encode_utf8 data off len cp =
     (if 0 < len \<and> cp < 0x110000 then emit_seq off len (encode_bytes cp) (0, data) else None)"
  by (cases "0 < len"; cases "cp < 0x110000")
    (simp_all add: encode_utf8_def encode_bytes_def emit_first emit_seq_eqs)

lemma take_write_shift:
  assumes "i < length xs"
  shows "take (Suc i) (xs[i := b]) @ ys @ drop (Suc i + n) (xs[i := b])
    = take i xs @ (b # ys) @ drop (Suc i + n) xs"
  using assms by (simp add: take_update_snoc)

lemma emit_seq_writes:
  assumes "0 \<le> r" "r \<le> len"
    and "k = min (nat (len - r)) (length bs)"
    and "off + nat r + k \<le> length data"
  shows "emit_seq off len bs (r, data)
    = Some (r + int k, take (off + nat r) data @ take k bs @ drop (off + nat r + k) data)"
  using assms
proof (induction bs arbitrary: r data k)
  case Nil
  then show ?case by simp
next
  case (Cons b bs)
  show ?case
  proof (cases "r < len")
    case False
    with Cons.prems show ?thesis
      by (simp add: emit_if_room_def emit_seq_full)
  next
    case True
    define k' where "k' = min (nat (len - (r + 1))) (length bs)"
    have k: "k = Suc k'" using True Cons.prems(3) by (auto simp: k'_def)
    have i: "off + nat r < length data" using Cons.prems(4) k by simp
    have n: "off + nat (r + 1) = Suc (off + nat r)" using Cons.prems(1) by simp
    have "emit_seq off len bs (r + 1, data[off + nat r := b])
      = Some (r + 1 + int k', take (off + nat (r + 1)) (data[off + nat r := b]) @ take k' bs
          @ drop (off + nat (r + 1) + k') (data[off + nat r := b]))"
      using Cons.prems True k by (intro Cons.IH) (auto simp: k'_def n)
    with True i k show ?thesis
      by (simp add: emit_if_room_def emit_def n take_write_shift take_update_snoc)
  qed
qed

lemma encode_utf8_writes:
  assumes "0 < len" "cp < 0x110000"
    and n: "n = min (nat len) (length (encode_bytes cp))"
    and "off + n \<le> length data"
  shows "encode_utf8 data off len cp
    = Some (int n, take off data @ take n (encode_bytes cp) @ drop (off + n) data)"
  using assms emit_seq_writes [of 0 len n "encode_bytes cp" off data]
  by (simp add: encode_utf8_seq)

section \<open>The UTF-8 of the standard\<close>

text \<open>Code points to bytes by division and remainder, as in RFC 3629.\<close>

definition utf8_std :: "nat \<Rightarrow> nat list" where
  "utf8_std n =
     (if n < 0x80 then [n]
      else if n < 0x800 then [192 + n div 64, 128 + n mod 64]
      else if n < 0x10000 then [224 + n div 4096, 128 + n div 64 mod 64, 128 + n mod 64]
      else [240 + n div 262144, 128 + n div 4096 mod 64, 128 + n div 64 mod 64, 128 + n mod 64])"

lemma or_add_nat: "x < 2 ^ k \<Longrightarrow> push_bit k m OR x = push_bit k m + (x :: nat)"
proof -
  assume "x < 2 ^ k"
  then have x: "take_bit k x = x" by (simp add: take_bit_nat_eq_self_iff)
  have "push_bit k m AND take_bit k x = 0"
    by (rule bit_eqI) (auto simp: bit_simps)
  then show ?thesis
    by (simp add: disjunctive_add_eq_or x)
qed

lemma unat_and63: "unat ((x :: u32) AND 0x3f) = unat x mod 64"
proof -
  have "x AND 0x3f = take_bit 6 x"
    by (simp add: take_bit_eq_mask mask_eq_exp_minus_1)
  then have "unat (x AND 0x3f) = take_bit 6 (unat x)"
    by (simp only: unsigned_take_bit_eq)
  then show ?thesis by (simp add: take_bit_eq_mod)
qed

lemma unat_or_tag:
  fixes y :: u32
  assumes "unat y < 2 ^ k" "unat t = push_bit k m" "push_bit k m + unat y < 256"
  shows "unat (ucast (t OR y) :: u8) = unat t + unat y"
proof -
  have "unat (t OR y) = unat t + unat y"
    using assms(1,2) or_add_nat [of "unat y" k m] by (simp add: unsigned_or_eq)
  moreover have "unat (ucast (t OR y) :: u8) = take_bit 8 (unat (t OR y))"
    by (simp only: unsigned_ucast_eq) simp
  ultimately show ?thesis
    using assms(2,3) by (simp add: take_bit_nat_eq_self_iff)
qed

lemma unat_tag_bytes:
  fixes x :: u32
  shows "unat (ucast (0x80 OR (x AND 0x3f)) :: u8) = 128 + unat x mod 64"
    and "unat x < 0x800 \<Longrightarrow> unat (ucast (0xC0 OR drop_bit 6 x) :: u8) = 192 + unat x div 64"
    and "unat x < 0x10000 \<Longrightarrow> unat (ucast (0xe0 OR drop_bit 12 x) :: u8) = 224 + unat x div 4096"
    and "unat x < 0x200000 \<Longrightarrow> unat (ucast (0xf0 OR drop_bit 18 x) :: u8) = 240 + unat x div 262144"
  using unat_or_tag [where y = "x AND 0x3f" and k = 6 and t = "0x80" and m = 2] unat_or_tag [where y = "drop_bit 6 x" and k = 5 and t = "0xC0" and m = 6]
    unat_or_tag [where y = "drop_bit 12 x" and k = 4 and t = "0xe0" and m = 14] unat_or_tag [where y = "drop_bit 18 x" and k = 3 and t = "0xf0" and m = 30]
  by (simp_all add: unat_and63 unat_div drop_bit_eq_div push_bit_eq_mult)

lemma unat_ucast_u8: "unat (x :: u32) < 256 \<Longrightarrow> unat (ucast x :: u8) = unat x"
  by (simp add: unsigned_ucast_eq take_bit_nat_eq_self_iff)

lemma unat_drop_bit_div: "unat (drop_bit k (x :: u32)) = unat x div 2 ^ k"
  by (simp only: unat_drop_bit_eq) (simp add: drop_bit_eq_div)

lemma encode_bytes_std:
  assumes "cp < 0x110000"
  shows "map unat (encode_bytes cp) = utf8_std (unat cp) \<longleftrightarrow> cp \<notin> {0x7f, 0x7ff, 0xffff}"
proof -
  have "unat cp < 0x110000"
    using assms by (simp add: word_less_nat_alt)
  then show ?thesis
    by (auto simp: encode_bytes_def utf8_std_def word_less_nat_alt word_unat_eq_iff unat_tag_bytes
      unat_ucast_u8 unat_drop_bit_div)
qed

section \<open>The loop over code units\<close>

text \<open>
  The loop over the raw bytes, seen as a loop over the list of code units they hold: the
  refinement that the properties below rest on.
\<close>

definition unit_bytes :: "u16 list \<Rightarrow> u8 list" where
  "unit_bytes us = concat (map (\<lambda>u. [lo8 u, hi8 u]) us)"

definition string_desc :: "u16 list \<Rightarrow> u8 list \<Rightarrow> u8 list" where
  "string_desc us rest = [of_nat (2 + 2 * length us), 3] @ unit_bytes us @ rest"

fun units_loop :: "int \<Rightarrow> u16 list \<Rightarrow> utf_state \<Rightarrow> (int \<times> u8 list) option" where
  "units_loop len [] st =
     Some (if us_high_surrogate st \<noteq> 0 then err LIBUSBY_ERROR_IO else us_data_len st, us_data st)"
| "units_loop len (u # us) st =
     (if us_encoded_len st < len then do {
        x \<leftarrow> utf16_step len u st;
        case x of Inl ret \<Rightarrow> Some ret | Inr st' \<Rightarrow> units_loop len us st' }
      else Some (us_data_len st, us_data st))"

lemma unit_bytes_simps [simp]:
  "unit_bytes [] = []"
  "unit_bytes (u # us) = lo8 u # hi8 u # unit_bytes us"
  by (simp_all add: unit_bytes_def)

lemma length_unit_bytes [simp]: "length (unit_bytes us) = 2 * length us"
  by (induction us) simp_all

lemma units_loop_step:
  "utf16_step len u st = Some (Inr st') \<Longrightarrow> us_encoded_len st < len \<Longrightarrow>
     units_loop len (u # us) st = units_loop len us st'"
  by simp

lemma utf16_loop_units:
  "utf16_loop (pre @ unit_bytes us @ rest) (length pre + 2 * length us) len (length pre) st
     = units_loop len us st"
proof (induction us arbitrary: pre st)
  case Nil
  then show ?case by (simp add: utf16_loop.simps)
next
  case (Cons u us)
  have IH: "utf16_loop (pre @ lo8 u # hi8 u # unit_bytes us @ rest)
      (Suc (Suc (length pre + 2 * length us))) len (Suc (Suc (length pre))) = units_loop len us"
    using Cons.IH [of "pre @ [lo8 u, hi8 u]"] by (intro ext) simp
  show ?case
    by (subst utf16_loop.simps) (simp add: nth_append IH split: sum.split)
qed

lemma string_desc_units:
  assumes "length us \<le> 126" "int (2 + 2 * length us) \<le> r"
  shows "string_desc_to_utf8 r (string_desc us rest) data len
    = units_loop len us
        \<lparr> us_data = data, us_data_len = 0, us_encoded_len = 0, us_high_surrogate = 0 \<rparr>"
proof -
  define n where "n = 2 + 2 * length us"
  define b0 :: u8 where "b0 = of_nat n"
  have n: "n < 256" "2 \<le> n" "n mod 2 = 0" "int n \<le> r"
    using assms by (simp_all add: n_def)
  have b0: "uint b0 = int n"
    using n(1) by (simp add: b0_def uint_nat unat_of_nat)
  have desc: "string_desc us rest = [b0, 3] @ unit_bytes us @ rest"
    by (simp add: string_desc_def b0_def n_def)
  have "string_desc_to_utf8 r ([b0, 3] @ unit_bytes us @ rest) data len
    = utf16_loop ([b0, 3] @ unit_bytes us @ rest) n len 2
        \<lparr> us_data = data, us_data_len = 0, us_encoded_len = 0, us_high_surrogate = 0 \<rparr>"
    using n by (auto simp: string_desc_to_utf8_def b0 Let_def zmod_int [symmetric])
  then show ?thesis
    using utf16_loop_units [of "[b0, 3]" us rest len] by (simp add: desc n_def numeral_2_eq_2)
qed

section \<open>Strings of the basic multilingual plane\<close>

definition is_bmp :: "u16 \<Rightarrow> bool" where
  "is_bmp u \<longleftrightarrow> u < 0xD800 \<or> 0xE000 \<le> u"

definition utf8_out :: "u16 list \<Rightarrow> u8 list" where
  "utf8_out us = concat (map (\<lambda>u. encode_bytes (ucast u)) us)"

lemma utf8_out_simps [simp]:
  "utf8_out [] = []"
  "utf8_out (u # us) = encode_bytes (ucast u) @ utf8_out us"
  by (simp_all add: utf8_out_def)

lemma ucast_u16_bound: "(ucast (u :: u16) :: u32) < 0x110000"
  using unat_u16_less [of u]
  by (simp add: word_less_nat_alt unsigned_ucast_eq take_bit_nat_eq_self)

lemma encode_at_writes:
  assumes "us_data_len st = int D" "D < L" "L \<le> length (us_data st)" "cp < 0x110000"
    and n: "n = min (L - D) (length (encode_bytes cp))"
  shows "encode_at (int L) cp st = Some (st\<lparr>us_encoded_len := int n,
      us_data := take D (us_data st) @ take n (encode_bytes cp) @ drop (D + n) (us_data st)\<rparr>)"
  using assms encode_utf8_writes [of "int L - int D" cp n D "us_data st"]
  by (simp add: encode_at_def nat_diff_distrib)

lemma encode_at_full:
  "us_data_len st = int D \<Longrightarrow> L \<le> D \<Longrightarrow> encode_at (int L) cp st = None"
  by (simp add: encode_at_def encode_utf8_def)

lemma utf16_body_bmp:
  assumes "is_bmp u" "us_high_surrogate st = 0"
  shows "utf16_body len u st = encode_at len (ucast u) st \<bind> (\<lambda>st'. Some (Inr st'))"
proof (cases "u < 0xD800")
  case True
  then have "\<not> 0xDC00 \<le> u" "\<not> 0xD800 \<le> u" by (auto simp: word_less_nat_alt word_le_nat_alt)
  with assms(2) show ?thesis by (simp add: utf16_body_def)
next
  case False
  with assms(1) have "\<not> u < 0xE000" "\<not> u < 0xDC00"
    by (auto simp: is_bmp_def word_less_nat_alt word_le_nat_alt)
  with assms(2) show ?thesis by (simp add: utf16_body_def)
qed

lemma utf16_step_bmp:
  assumes "is_bmp u" "us_high_surrogate st = 0"
    and "us_data_len st = int D" "D < L" "L \<le> length (us_data st)" "int L \<le> INT_MAX"
    and n: "n = min (L - D) (length (encode_bytes (ucast u)))"
  shows "utf16_step (int L) u st = Some (Inr (st\<lparr>us_data_len := int (D + n),
      us_encoded_len := int n,
      us_data := take D (us_data st) @ take n (encode_bytes (ucast u)) @ drop (D + n) (us_data st)\<rparr>))"
proof -
  have "c_int (int D + int n) = Some (int D + int n)"
    using assms(4,6) n by (simp add: c_int_def INT_MIN_def)
  with encode_at_writes [OF assms(3,4,5) ucast_u16_bound n] show ?thesis
    using assms(3) by (simp add: utf16_step_def utf16_body_bmp [OF assms(1,2)])
qed

lemma utf16_step_bmp_full:
  assumes "is_bmp u" "us_high_surrogate st = 0" "us_data_len st = int D" "L \<le> D"
  shows "utf16_step (int L) u st = None"
  using encode_at_full [OF assms(3,4)] by (simp add: utf16_step_def utf16_body_bmp [OF assms(1,2)])

lemma encode_bytes_bmp_length: "length (encode_bytes (ucast (u :: u16))) \<le> 4"
  by (rule length_encode_bytes)

lemma units_loop_bmp:
  assumes "list_all is_bmp us" "5 \<le> L" "int L \<le> INT_MAX" "L \<le> length (us_data st)"
    and "us_high_surrogate st = 0" "us_data_len st = int D" "D \<le> L" "us_encoded_len st < int L"
  shows "units_loop (int L) us st =
    (if us = [] then Some (int D, us_data st)
     else if D + length (utf8_out (butlast us)) < L then
       Some (int (min L (D + length (utf8_out us))),
         take D (us_data st) @ take (L - D) (utf8_out us)
           @ drop (min L (D + length (utf8_out us))) (us_data st))
     else None)"
  using assms
proof (induction us arbitrary: st D)
  case Nil
  then show ?case by simp
next
  case (Cons u us)
  show ?case
  proof (cases "D < L")
    case False
    with Cons.prems utf16_step_bmp_full [of u st D L] show ?thesis by simp
  next
    case True
    define e where "e = encode_bytes (ucast u)"
    define n where "n = min (L - D) (length e)"
    define st' where "st' = st\<lparr>us_data_len := int (D + n), us_encoded_len := int n,
      us_data := take D (us_data st) @ take n e @ drop (D + n) (us_data st)\<rparr>"
    have len: "length (us_data st') = length (us_data st)" "D + n \<le> L" "n \<le> 4"
      using True Cons.prems(4) length_encode_bytes [of "ucast u"] by (auto simp: st'_def n_def e_def)
    have step: "utf16_step (int L) u st = Some (Inr st')"
      using utf16_step_bmp [of u st D L] Cons.prems True by (simp add: st'_def n_def e_def)
    have IH: "units_loop (int L) us st' =
      (if us = [] then Some (int (D + n), us_data st')
       else if D + n + length (utf8_out (butlast us)) < L then
         Some (int (min L (D + n + length (utf8_out us))),
           take (D + n) (us_data st') @ take (L - (D + n)) (utf8_out us)
             @ drop (min L (D + n + length (utf8_out us))) (us_data st'))
       else None)"
      using Cons.prems len by (intro Cons.IH) (auto simp: st'_def)
    have out: "utf8_out (u # us) = e @ utf8_out us" by (simp add: e_def)
    show ?thesis
    proof (cases "us = []")
      case True
      have "D + n = min L (D + length e)" "take n e = take (L - D) e"
        using \<open>D < L\<close> by (auto simp: n_def min_def)
      moreover have "us_data st' = take D (us_data st) @ take n e @ drop (D + n) (us_data st)"
        by (simp add: st'_def)
      ultimately show ?thesis
        using True IH step Cons.prems(8) \<open>D < L\<close> by (simp add: e_def [symmetric])
    next
      case False
      have tk: "take (D + n) (us_data st') = take D (us_data st) @ take n e"
        using True Cons.prems(4) by (simp add: st'_def n_def)
      have dr: "drop k (us_data st') = drop k (us_data st)" if "D + n \<le> k" for k
        using that True Cons.prems(4) by (simp add: st'_def n_def drop_drop)
      show ?thesis
      proof (cases "length e < L - D")
        case True
        then have n: "n = length e" by (simp add: n_def)
        have tk': "take (D + length e) (us_data st') = take D (us_data st) @ e"
          using tk n by simp
        show ?thesis
          using n False IH step Cons.prems True
          by (auto simp: e_def [symmetric] tk' dr min_def add.assoc)
      next
        case False
        then have "D + n = L" using True by (simp add: n_def)
        with \<open>us \<noteq> []\<close> False IH step Cons.prems show ?thesis
          by (simp add: e_def [symmetric])
      qed
    qed
  qed
qed

section \<open>Surrogate pairs\<close>

definition is_high :: "u16 \<Rightarrow> bool" where
  "is_high u \<longleftrightarrow> 0xD800 \<le> u \<and> u < 0xDC00"

definition is_low :: "u16 \<Rightarrow> bool" where
  "is_low u \<longleftrightarrow> 0xDC00 \<le> u \<and> u < 0xE000"

text \<open>The value the code computes from a pair, and the code point the pair stands for.\<close>

definition pair_value :: "u16 \<Rightarrow> u16 \<Rightarrow> u32" where
  "pair_value hi lo = push_bit 10 (ucast (hi - 0xD800)) OR ucast (lo - 0xDC00)"

definition pair_code_point :: "u16 \<Rightarrow> u16 \<Rightarrow> nat" where
  "pair_code_point hi lo = 0x10000 + (unat hi - 0xD800) * 0x400 + (unat lo - 0xDC00)"

lemma pair_value_unat:
  assumes "is_high hi" "is_low lo"
  shows "unat (pair_value hi lo) + 0x10000 = pair_code_point hi lo"
proof -
  have hi: "unat (hi - 0xD800) = unat hi - 0xD800" "unat (hi - 0xD800) < 1024"
    using assms(1) by (auto simp: is_high_def unat_sub word_less_nat_alt word_le_nat_alt)
  have lo: "unat (lo - 0xDC00) = unat lo - 0xDC00" "unat (lo - 0xDC00) < 2 ^ 10"
    using assms(2) by (auto simp: is_low_def unat_sub word_less_nat_alt word_le_nat_alt)
  have up: "unat (ucast w :: u32) = unat w" for w :: u16
    using unat_u16_less [of w] by (simp add: unsigned_ucast_eq take_bit_nat_eq_self)
  have "unat (push_bit 10 (ucast (hi - 0xD800) :: u32)) = push_bit 10 (unat (hi - 0xD800))"
    using hi(2) by (simp only: unsigned_push_bit_eq up) (simp add: take_bit_nat_eq_self push_bit_eq_mult)
  then have "unat (pair_value hi lo) = push_bit 10 (unat (hi - 0xD800)) + unat (lo - 0xDC00)"
    using or_add_nat [OF lo(2), of "unat (hi - 0xD800)"]
    by (simp only: pair_value_def unsigned_or_eq up)
  then show ?thesis
    by (simp add: pair_code_point_def hi lo push_bit_eq_mult)
qed

lemma pair_code_point_bounds:
  assumes "is_high hi" "is_low lo"
  shows "0x10000 \<le> pair_code_point hi lo" "pair_code_point hi lo < 0x110000"
  using assms by (auto simp: pair_code_point_def is_high_def is_low_def word_less_nat_alt word_le_nat_alt)

lemma pair_value_less: "is_high hi \<Longrightarrow> is_low lo \<Longrightarrow> pair_value hi lo < 0x110000"
  using pair_value_unat [of hi lo] pair_code_point_bounds [of hi lo]
  by (simp add: word_less_nat_alt)

text \<open>A code point beyond the plane has four bytes; 0x10000 less of it has another second byte.\<close>

lemma mod64_shift: "(q :: nat) mod 64 \<noteq> (q + 16) mod 64"
proof -
  define r where "r = q mod 64"
  have "r < 64" by (simp add: r_def)
  then have "(r + 16) mod 64 \<noteq> r"
    by (cases "r < 48") (auto simp: mod_if)
  then show ?thesis by (metis mod_add_left_eq r_def)
qed

lemma utf8_std_shift: "utf8_std n \<noteq> utf8_std (n + 0x10000)"
proof
  assume eq: "utf8_std n = utf8_std (n + 0x10000)"
  have long: "utf8_std (n + 0x10000) ! 1 = 128 + (n + 0x10000) div 4096 mod 64"
    "length (utf8_std (n + 0x10000)) = 4"
    by (simp_all add: utf8_std_def)
  have "\<not> n < 0x10000"
    using arg_cong [OF eq, of length] long(2) by (auto simp: utf8_std_def split: if_splits)
  then have "utf8_std n ! 1 = 128 + n div 4096 mod 64"
    by (simp add: utf8_std_def)
  then have "n div 4096 mod 64 = (n + 0x10000) div 4096 mod 64"
    using eq long(1) by simp
  moreover have "(n + 0x10000) div 4096 = n div 4096 + 16" by simp
  ultimately show False
    using mod64_shift [of "n div 4096"] by metis
qed
lemma encode_bytes_shift:
  assumes "cp < 0x110000"
  shows "map unat (encode_bytes cp) \<noteq> utf8_std (unat cp + 0x10000)"
proof (cases "cp \<in> {0x7f, 0x7ff, 0xffff}")
  case True
  then show ?thesis
    by (auto simp: encode_bytes_def utf8_std_def)
next
  case False
  then have "map unat (encode_bytes cp) = utf8_std (unat cp)"
    using encode_bytes_std [OF assms] by blast
  then show ?thesis using utf8_std_shift [of "unat cp"] by simp
qed

lemma utf16_step_high:
  assumes "is_high u" "us_high_surrogate st = 0" "us_data_len st = int D" "us_encoded_len st = int n"
    and "int (D + n) \<le> INT_MAX"
  shows "utf16_step len u st = Some (Inr (st\<lparr>us_high_surrogate := u, us_data_len := int (D + n)\<rparr>))"
proof -
  have "\<not> 0xDC00 \<le> u" using assms(1) by (auto simp: is_high_def word_less_nat_alt word_le_nat_alt)
  with assms show ?thesis
    by (simp add: utf16_step_def utf16_body_def is_high_def c_int_def INT_MIN_def)
qed

lemma utf16_step_low:
  assumes "is_low u" "is_high (us_high_surrogate st)" "us_data_len st = int D"
    and "D < L" "L \<le> length (us_data st)" "int L \<le> INT_MAX"
    and n: "n = min (L - D) (length (encode_bytes (pair_value (us_high_surrogate st) u)))"
  shows "utf16_step (int L) u st = Some (Inr (st\<lparr>us_high_surrogate := 0,
      us_data_len := int (D + n), us_encoded_len := int n,
      us_data := take D (us_data st) @ take n (encode_bytes (pair_value (us_high_surrogate st) u))
        @ drop (D + n) (us_data st)\<rparr>))"
proof -
  have "us_high_surrogate st \<noteq> 0"
    using assms(2) by (auto simp: is_high_def word_le_nat_alt)
  moreover have "c_int (int D + int n) = Some (int D + int n)"
    using assms(4,6) n by (simp add: c_int_def INT_MIN_def)
  ultimately show ?thesis
    using encode_at_writes [OF assms(3,4,5) pair_value_less [OF assms(2,1)] n] assms(1,3)
    by (simp add: utf16_step_def utf16_body_def is_low_def pair_value_def)
qed

section \<open>Properties\<close>

text \<open>
  C28: the encoder never writes outside the room it is given. With at least one byte of room
  and a code point of Unicode it stores between one and four bytes, at most the room, returns
  their number, and leaves every byte before and behind them alone.
\<close>

theorem encode_utf8_in_bounds:
  assumes "0 < len" "cp < 0x110000" "off + nat len \<le> length data"
  shows "\<exists>n data'. encode_utf8 data off len cp = Some (int n, data') \<and>
    1 \<le> n \<and> n \<le> 4 \<and> int n \<le> len \<and> length data' = length data \<and>
    take off data' = take off data \<and> drop (off + n) data' = drop (off + n) data"
proof -
  define n where "n = min (nat len) (length (encode_bytes cp))"
  have n: "1 \<le> n" "n \<le> 4" "int n \<le> len" "off + n \<le> length data"
    using assms length_encode_bytes [of cp] by (auto simp: n_def)
  let ?d = "take off data @ take n (encode_bytes cp) @ drop (off + n) data"
  have "encode_utf8 data off len cp = Some (int n, ?d)"
    by (rule encode_utf8_writes [OF assms(1,2) n_def n(4)])
  moreover have "length (take n (encode_bytes cp)) = n" by (simp add: n_def)
  ultimately show ?thesis
    using n by (intro exI [of _ n] exI [of _ ?d]) (simp add: min_def)
qed

theorem encode_utf8_in_bounds_witness:
  "\<exists>n data'. encode_utf8 [1, 2, 3, 4, 5] 1 3 0x20AC = Some (int n, data') \<and>
    1 \<le> n \<and> n \<le> 4 \<and> int n \<le> 3 \<and> length data' = length [1, 2, 3, 4, 5 :: u8] \<and>
    take 1 data' = take 1 [1, 2, 3, 4, 5] \<and> drop (1 + n) data' = drop (1 + n) [1, 2, 3, 4, 5]"
  by (rule encode_utf8_in_bounds) simp_all

text \<open>
  C27: with four bytes of room the encoder produces exactly the UTF-8 of the standard, for every
  code point but U+007F, U+07FF and U+FFFF: the strict comparisons of the code give those
  three, and only those, one byte too many.
\<close>

theorem encode_utf8_standard:
  assumes "cp < 0x110000" "4 \<le> length data"
  shows "\<exists>n data'. encode_utf8 data 0 4 cp = Some (int n, data') \<and>
    (map unat (take n data') = utf8_std (unat cp) \<longleftrightarrow> cp \<notin> {0x7f, 0x7ff, 0xffff})"
proof -
  define n where "n = min (nat 4) (length (encode_bytes cp))"
  have n: "n = length (encode_bytes cp)"
    using length_encode_bytes(2) [of cp] by (simp add: n_def)
  then have "0 + n \<le> length data"
    using assms(2) length_encode_bytes(2) [of cp] by linarith
  from encode_utf8_writes [OF _ assms(1) n_def this]
  have "encode_utf8 data 0 4 cp = Some (int n, encode_bytes cp @ drop n data)"
    by (simp add: n)
  moreover have "take n (encode_bytes cp @ drop n data) = encode_bytes cp"
    by (simp add: n)
  ultimately show ?thesis
    using encode_bytes_std [OF assms(1)] by (metis (no_types))
qed

theorem encode_utf8_standard_witness:
  "\<exists>n data'. encode_utf8 [0, 0, 0, 0] 0 4 0x20AC = Some (int n, data') \<and>
    (map unat (take n data') = utf8_std (unat (0x20AC :: u32))
      \<longleftrightarrow> (0x20AC :: u32) \<notin> {0x7f, 0x7ff, 0xffff})"
  by (rule encode_utf8_standard) simp_all

text \<open>
  C26: the exact result for a string descriptor whose code units are all in the basic
  multilingual plane, on a buffer of at least five bytes. If the buffer has room before the last
  character is written, the call returns the number of bytes stored, which are what
  \<open>encode_utf8\<close> makes of the characters, cut to the buffer: standard UTF-8 but for the three
  code points at which the encoder is overlong. Otherwise the assertion of the encoder fails.
\<close>

theorem string_desc_bmp_exact:
  assumes "list_all is_bmp us" "us \<noteq> []" "length us \<le> 126" "int (2 + 2 * length us) \<le> r"
    and "5 \<le> L" "int L \<le> INT_MAX" "L \<le> length data"
  shows "string_desc_to_utf8 r (string_desc us rest) data (int L) =
    (if length (utf8_out (butlast us)) < L
     then Some (int (min L (length (utf8_out us))),
       take L (utf8_out us) @ drop (min L (length (utf8_out us))) data)
     else None)"
  using assms units_loop_bmp [of us L "\<lparr> us_data = data, us_data_len = 0, us_encoded_len = 0,
      us_high_surrogate = 0 \<rparr>" 0]
  by (simp add: string_desc_units)

theorem string_desc_bmp_exact_witness:
  "string_desc_to_utf8 6 (string_desc [0x48, 0x69] []) [0, 0, 0, 0, 0] (int 5) =
    (if length (utf8_out (butlast [0x48, 0x69])) < 5
     then Some (int (min 5 (length (utf8_out [0x48, 0x69]))),
       take 5 (utf8_out [0x48, 0x69]) @ drop (min 5 (length (utf8_out [0x48, 0x69]))) [0, 0, 0, 0, 0])
     else None)"
  by (rule string_desc_bmp_exact) (simp_all add: is_bmp_def INT_MAX_def)

text \<open>
  C32: a surrogate pair is never decoded to its code point. A descriptor that holds one pair is
  accepted, and what is stored is the encoding of a value 0x10000 too small: the code leaves out
  the offset of the supplementary planes.
\<close>

theorem surrogate_pair_wrong:
  assumes "is_high hi" "is_low lo" "5 \<le> L" "int L \<le> INT_MAX" "L \<le> length data"
  shows "\<exists>n data'. string_desc_to_utf8 6 (string_desc [hi, lo] rest) data (int L) = Some (int n, data')
    \<and> map unat (take n data') \<noteq> utf8_std (pair_code_point hi lo)
    \<and> take n data' = encode_bytes (pair_value hi lo)"
proof -
  let ?e = "encode_bytes (pair_value hi lo)"
  let ?st = "\<lparr> us_data = data, us_data_len = 0, us_encoded_len = 0, us_high_surrogate = 0 \<rparr>"
  let ?st1 = "\<lparr> us_data = data, us_data_len = 0, us_encoded_len = 0, us_high_surrogate = hi \<rparr>"
  have 1: "utf16_step (int L) hi ?st = Some (Inr ?st1)"
    using utf16_step_high [of hi ?st 0 0] assms(1) by (simp add: INT_MAX_def)
  have "length ?e \<le> L" using length_encode_bytes(2) [of "pair_value hi lo"] assms(3) by linarith
  then have 2: "utf16_step (int L) lo ?st1 = Some (Inr \<lparr> us_data = ?e @ drop (length ?e) data,
      us_data_len = int (length ?e), us_encoded_len = int (length ?e), us_high_surrogate = 0 \<rparr>)"
    using utf16_step_low [of lo ?st1 0 L] assms by (simp add: min_def)
  have "string_desc_to_utf8 6 (string_desc [hi, lo] rest) data (int L)
    = Some (int (length ?e), ?e @ drop (length ?e) data)"
    using assms(3) by (simp add: string_desc_units 1 2)
  moreover have "map unat ?e \<noteq> utf8_std (pair_code_point hi lo)"
    using encode_bytes_shift [OF pair_value_less [OF assms(1,2)]] pair_value_unat [OF assms(1,2)]
    by simp
  ultimately show ?thesis by (intro exI conjI) auto
qed

theorem surrogate_pair_wrong_witness:
  "\<exists>n data'. string_desc_to_utf8 6 (string_desc [0xD83D, 0xDE00] []) (replicate 8 0) (int 8)
      = Some (int n, data')
    \<and> map unat (take n data') \<noteq> utf8_std (pair_code_point 0xD83D 0xDE00)
    \<and> take n data' = encode_bytes (pair_value 0xD83D 0xDE00)"
  by (rule surrogate_pair_wrong) (simp_all add: is_high_def is_low_def INT_MAX_def)

text \<open>
  C33: a pair behind another character leaves a hole. The high surrogate encodes nothing, but the
  number of bytes of the character before it is added to the length once more, so that many bytes
  of the result are the old contents of the caller's buffer.
\<close>

theorem surrogate_leaves_hole:
  assumes "is_bmp c" "is_high hi" "is_low lo" "12 \<le> L" "int L \<le> INT_MAX" "L \<le> length data"
    and n: "n = length (encode_bytes (ucast c))" and m: "m = length (encode_bytes (pair_value hi lo))"
  shows "\<exists>data'. string_desc_to_utf8 8 (string_desc [c, hi, lo] rest) data (int L)
      = Some (int (n + n + m), data')
    \<and> take n (drop n data') = take n (drop n data)"
proof -
  let ?c = "encode_bytes (ucast c)" let ?e = "encode_bytes (pair_value hi lo)"
  let ?d1 = "?c @ drop n data"
  let ?d2 = "take (n + n) ?d1 @ ?e @ drop (n + n + m) ?d1"
  let ?s0 = "\<lparr> us_data = data, us_data_len = 0, us_encoded_len = 0, us_high_surrogate = 0 \<rparr>"
  let ?s1 = "\<lparr> us_data = ?d1, us_data_len = int n, us_encoded_len = int n, us_high_surrogate = 0 \<rparr>"
  let ?s2 = "\<lparr> us_data = ?d1, us_data_len = int (n + n), us_encoded_len = int n,
    us_high_surrogate = hi \<rparr>"
  let ?s3 = "\<lparr> us_data = ?d2, us_data_len = int (n + n + m), us_encoded_len = int m,
    us_high_surrogate = 0 \<rparr>"
  have nm: "1 \<le> n" "n \<le> 4" "m \<le> 4" using length_encode_bytes by (simp_all add: n m)
  have 1: "utf16_step (int L) c ?s0 = Some (Inr ?s1)"
    using utf16_step_bmp [of c ?s0 0 L n] assms nm by simp
  have 2: "utf16_step (int L) hi ?s1 = Some (Inr ?s2)"
    using utf16_step_high [of hi ?s1 n n "int L"] assms(2,4,5) nm by simp
  have 3: "utf16_step (int L) lo ?s2 = Some (Inr ?s3)"
    using utf16_step_low [of lo ?s2 "n + n" L m] assms nm by simp
  have "string_desc_to_utf8 8 (string_desc [c, hi, lo] rest) data (int L)
      = units_loop (int L) [c, hi, lo] ?s0"
    by (rule string_desc_units) simp_all
  also have "\<dots> = units_loop (int L) [hi, lo] ?s1"
    by (rule units_loop_step [OF 1]) (use assms(4) in simp)
  also have "\<dots> = units_loop (int L) [lo] ?s2"
    by (rule units_loop_step [OF 2]) (use assms(4) nm in simp)
  also have "\<dots> = units_loop (int L) [] ?s3"
    by (rule units_loop_step [OF 3]) (use assms(4) nm in simp)
  also have "\<dots> = Some (int (n + n + m), ?d2)"
    by simp
  finally have "string_desc_to_utf8 8 (string_desc [c, hi, lo] rest) data (int L)
    = Some (int (n + n + m), ?d2)" .
  moreover have "take n (drop n ?d2) = take n (drop n data)"
    using nm assms(4,6) by (simp add: n drop_take)
  ultimately show ?thesis by (intro exI conjI)
qed

theorem surrogate_leaves_hole_witness:
  "\<exists>data'. string_desc_to_utf8 8 (string_desc [0x41, 0xD83D, 0xDE00] []) (replicate 12 7) (int 12)
      = Some (int (1 + 1 + 3), data')
    \<and> take 1 (drop 1 data') = take 1 (drop 1 (replicate 12 7))"
  by (rule surrogate_leaves_hole)
    (simp_all add: is_bmp_def is_high_def is_low_def INT_MAX_def encode_bytes_def pair_value_def)

end
