(* ===== verification/Memory.thy ===== *)
theory Memory
  imports Usb_Types
begin

text \<open>
  The allocator of the C library and the heap of configuration descriptors. Every heap of the
  development extends the record \<open>allocator\<close>; each kind of object lives in a map of its own
  from the address of its block to its contents, so that a free block is one outside the
  domain and a use after free or a double free is undefined. An address is never handed out
  twice. Whether the \<open>n\<close>-th call of \<open>malloc\<close> fails is given by \<open>out_of_memory\<close>,
  over which every theorem is quantified; \<open>malloc(0)\<close> returns a fresh block.
\<close>

record allocator =
  next_addr :: addr
  n_mallocs :: nat
  out_of_memory :: "nat \<Rightarrow> bool"

definition malloc :: "nat \<Rightarrow> 'x allocator_scheme \<Rightarrow> addr \<times> 'x allocator_scheme" where
  "malloc nbytes h =
     (let h' = h\<lparr>n_mallocs := Suc (n_mallocs h)\<rparr> in
      if out_of_memory h (n_mallocs h) then (0, h')
      else (next_addr h, h'\<lparr>next_addr := next_addr h + max 1 nbytes\<rparr>))"

text \<open>\<open>free(p)\<close> in the map of one kind of block; \<open>free(NULL)\<close> does nothing.\<close>

definition free_block :: "(addr \<rightharpoonup> 'a) \<Rightarrow> addr \<Rightarrow> (addr \<rightharpoonup> 'a) option" where
  "free_block m p = (if p = 0 then Some m else if p \<in> dom m then Some (m(p := None)) else None)"

text \<open>No allocation fails from here on.\<close>

definition plenty :: "'x allocator_scheme \<Rightarrow> bool" where
  "plenty h \<longleftrightarrow> (\<forall>n \<ge> n_mallocs h. \<not> out_of_memory h n)"

lemma malloc_cases:
  obtains (fail) "malloc n h = (0, h\<lparr>n_mallocs := Suc (n_mallocs h)\<rparr>)" "out_of_memory h (n_mallocs h)"
  | (ok) "malloc n h = (next_addr h,
      h\<lparr>n_mallocs := Suc (n_mallocs h), next_addr := next_addr h + max 1 n\<rparr>)"
      "\<not> out_of_memory h (n_mallocs h)"
  by (auto simp: malloc_def Let_def split: if_splits)

section \<open>The heap of configuration descriptors\<close>

record cfg_heap = allocator +
  cfgs :: "addr \<rightharpoonup> libusby_config_descriptor"
  intfs :: "addr \<rightharpoonup> libusby_interface list"
  alts :: "addr \<rightharpoonup> libusby_interface_descriptor list"
  endps :: "addr \<rightharpoonup> libusby_endpoint_descriptor list"

text \<open>\<open>malloc\<close> of one block with given contents; the contents are what the code stores next.\<close>

definition new_cfg :: "libusby_config_descriptor \<Rightarrow> 'x cfg_heap_scheme \<Rightarrow> addr \<times> 'x cfg_heap_scheme" where
  "new_cfg c h = (case malloc 24 h of (p, h') \<Rightarrow>
     (p, if p = 0 then h' else h'\<lparr>cfgs := (cfgs h')(p \<mapsto> c)\<rparr>))"

definition new_intfs :: "libusby_interface list \<Rightarrow> 'x cfg_heap_scheme \<Rightarrow> addr \<times> 'x cfg_heap_scheme" where
  "new_intfs is h = (case malloc (16 * length is) h of (p, h') \<Rightarrow>
     (p, if p = 0 then h' else h'\<lparr>intfs := (intfs h')(p \<mapsto> is)\<rparr>))"

definition new_endps :: "libusby_endpoint_descriptor list \<Rightarrow> 'x cfg_heap_scheme \<Rightarrow> addr \<times> 'x cfg_heap_scheme" where
  "new_endps es h = (case malloc (10 * length es) h of (p, h') \<Rightarrow>
     (p, if p = 0 then h' else h'\<lparr>endps := (endps h')(p \<mapsto> es)\<rparr>))"

text \<open>
  \<open>realloc\<close> of an array of interface descriptors to \<open>n\<close> elements. It keeps the old
  elements; the new ones are indeterminate, and the code stores every member of them before
  it reads one, so any value may stand for them. On failure the old block stays.
\<close>

definition indeterminate_interface_desc :: libusby_interface_descriptor where
  "indeterminate_interface_desc = interface_desc_of_bytes 0 (replicate 9 0)"

definition realloc_alts :: "addr \<Rightarrow> nat \<Rightarrow> 'x cfg_heap_scheme \<Rightarrow> (addr \<times> 'x cfg_heap_scheme) option" where
  "realloc_alts old n h = do {
     ds \<leftarrow> (if old = 0 then Some [] else alts h old);
     let (p, h') = malloc (24 * n) h;
     if p = 0 then Some (0, h')
     else Some (p, h'\<lparr>alts := (alts h')(old := None,
       p \<mapsto> take n (ds @ replicate (n - length ds) indeterminate_interface_desc))\<rparr>) }"

text \<open>Every live block lies below the next address, and address 0 is not one.\<close>

definition live :: "'x cfg_heap_scheme \<Rightarrow> addr \<Rightarrow> bool" where
  "live h a \<longleftrightarrow> cfgs h a \<noteq> None \<or> intfs h a \<noteq> None \<or> alts h a \<noteq> None \<or> endps h a \<noteq> None"

definition fresh_heap :: "'x cfg_heap_scheme \<Rightarrow> bool" where
  "fresh_heap h \<longleftrightarrow> 0 < next_addr h \<and> (\<forall>a. live h a \<longrightarrow> 0 < a \<and> a < next_addr h)"

lemma fresh_heapD:
  assumes "fresh_heap h"
  shows "0 < next_addr h" "cfgs h (next_addr h) = None" "intfs h (next_addr h) = None"
    "alts h (next_addr h) = None" "endps h (next_addr h) = None"
    "cfgs h 0 = None" "intfs h 0 = None" "alts h 0 = None" "endps h 0 = None"
  using assms unfolding fresh_heap_def live_def by (metis less_irrefl)+

lemma fresh_heap_grow:
  assumes "fresh_heap h" "next_addr h \<le> next_addr h'"
    and "\<And>a. live h' a \<Longrightarrow> live h a \<or> next_addr h \<le> a \<and> a < next_addr h'"
  shows "fresh_heap h'"
  using assms unfolding fresh_heap_def by (meson less_le_trans)

text \<open>Two heaps with the same live configuration blocks.\<close>

definition same_blocks :: "'x cfg_heap_scheme \<Rightarrow> 'x cfg_heap_scheme \<Rightarrow> bool" where
  "same_blocks h h' \<longleftrightarrow> cfgs h = cfgs h' \<and> intfs h = intfs h' \<and> alts h = alts h' \<and> endps h = endps h'"

text \<open>A heap without blocks, on which the allocations in \<open>fails\<close> fail.\<close>

definition empty_heap :: "(nat \<Rightarrow> bool) \<Rightarrow> cfg_heap" where
  "empty_heap fails = \<lparr> next_addr = 1, n_mallocs = 0, out_of_memory = fails,
     cfgs = (\<lambda>_. None), intfs = (\<lambda>_. None), alts = (\<lambda>_. None), endps = (\<lambda>_. None) \<rparr>"

lemma fresh_empty_heap [simp]: "fresh_heap (empty_heap fails)"
  by (simp add: fresh_heap_def live_def empty_heap_def)

lemma plenty_empty_heap [simp]: "plenty (empty_heap (\<lambda>_. False))"
  by (simp add: plenty_def empty_heap_def)

end
