(* ===== verification/Config_Desc.thy ===== *)
theory Config_Desc
  imports Memory
begin

text \<open>
  Configuration descriptors: \<^verbatim>\<open>usbyi_sanitize_config_descriptor\<close> and
  \<^verbatim>\<open>libusby_free_config_descriptor\<close> (\<^verbatim>\<open>src/libusby.c\<close>). The parser walks
  the raw descriptor and builds blocks on the heap of the theory \<open>Memory\<close>.
\<close>

section \<open>Freeing a configuration\<close>

text \<open>The inner loop over \<open>j\<close>: free the endpoint array of every alternate setting.\<close>

fun free_alt_endpoints :: "libusby_interface_descriptor list \<Rightarrow> (addr \<rightharpoonup> libusby_endpoint_descriptor list)
    \<Rightarrow> (addr \<rightharpoonup> libusby_endpoint_descriptor list) option" where
  "free_alt_endpoints [] m = Some m"
| "free_alt_endpoints (d # ds) m = do {
     m' \<leftarrow> (if id_endpoint d \<noteq> 0 then free_block m (id_endpoint d) else Some m);
     free_alt_endpoints ds m' }"

text \<open>The loop over \<open>i\<close>. An index at or past the end of a block is undefined.\<close>

fun free_interfaces :: "libusby_interface list \<Rightarrow> 'x cfg_heap_scheme \<Rightarrow> 'x cfg_heap_scheme option" where
  "free_interfaces [] h = Some h"
| "free_interfaces (i # is) h = do {
     h' \<leftarrow> (if if_altsetting i \<noteq> 0 then do {
              ds \<leftarrow> alts h (if_altsetting i);
              c_assert (if_num_altsetting i \<le> int (length ds));
              es \<leftarrow> free_alt_endpoints (take (nat (if_num_altsetting i)) ds) (endps h);
              as \<leftarrow> free_block (alts h) (if_altsetting i);
              Some (h\<lparr>endps := es, alts := as\<rparr>) }
            else Some h);
     free_interfaces is h' }"

definition libusby_free_config_descriptor :: "addr \<Rightarrow> 'x cfg_heap_scheme \<Rightarrow> 'x cfg_heap_scheme option" where
  "libusby_free_config_descriptor config h = do {
     c \<leftarrow> cfgs h config;
     h \<leftarrow> (if cd_interface c \<noteq> 0 then do {
             is \<leftarrow> intfs h (cd_interface c);
             c_assert (unat (cd_bNumInterfaces c) \<le> length is);
             h \<leftarrow> free_interfaces (take (unat (cd_bNumInterfaces c)) is) h;
             m \<leftarrow> free_block (intfs h) (cd_interface c);
             Some (h\<lparr>intfs := m\<rparr>) }
           else Some h);
     m \<leftarrow> free_block (cfgs h) config;
     Some (h\<lparr>cfgs := m\<rparr>) }"

section \<open>Parsing\<close>

text \<open>
  The locals of the loop: \<open>intf_desc\<close>, a pointer to an element of an array of interface
  descriptors (its block and index) or null, and \<open>endp_desc_index\<close>.
\<close>

record parse_state =
  ps_intf_desc :: "(addr \<times> nat) option"
  ps_endp_index :: nat

text \<open>\<open>intf_desc && endp_desc_index != intf_desc->bNumEndpoints\<close>, negated.\<close>

definition endpoints_complete :: "parse_state \<Rightarrow> 'x cfg_heap_scheme \<Rightarrow> bool option" where
  "endpoints_complete st h = (case ps_intf_desc st of
     None \<Rightarrow> Some True
   | Some (a, j) \<Rightarrow> do {
       ds \<leftarrow> alts h a;
       d \<leftarrow> rd ds j;
       Some (ps_endp_index st = unat (id_bNumEndpoints d)) })"

text \<open>
  The second half of the branch for an interface descriptor at offset \<open>off\<close>: the array of
  the interface grows by one element, which gets the raw descriptor and an array of endpoints.
  \<open>ip\<close> is \<open>res->interface\<close> and \<open>is\<close> the array there. The state of the result is
  \<open>None\<close> where the code jumps to \<open>error\<close>.
\<close>

definition add_altsetting :: "u8 list \<Rightarrow> nat \<Rightarrow> addr \<Rightarrow> libusby_interface list \<Rightarrow> u8 \<Rightarrow> u8
    \<Rightarrow> 'x cfg_heap_scheme \<Rightarrow> (parse_state option \<times> 'x cfg_heap_scheme) option" where
  "add_altsetting raw off ip is bInterfaceNumber bAlternateSettings h = do {
     intf \<leftarrow> rd is (unat bInterfaceNumber);
     if uint bAlternateSettings \<noteq> if_num_altsetting intf then Some (None, h) else do {
     (altsetting, h) \<leftarrow> realloc_alts (if_altsetting intf) (unat bAlternateSettings + 1) h;
     if altsetting = 0 then Some (None, h) else do {
     ds \<leftarrow> alts h altsetting;
     old \<leftarrow> rd ds (unat bAlternateSettings);
     body \<leftarrow> rd_block raw off 9;
     num \<leftarrow> c_int (if_num_altsetting intf + 1);
     is \<leftarrow> wr is (unat bInterfaceNumber) (intf\<lparr>if_altsetting := altsetting, if_num_altsetting := num\<rparr>);
     let d = interface_desc_of_bytes (id_endpoint old) body;
     let (endpoint, h) = new_endps (replicate (unat (id_bNumEndpoints d)) zero_endpoint_desc) h;
     ds \<leftarrow> wr ds (unat bAlternateSettings) (d\<lparr>id_endpoint := endpoint\<rparr>);
     let h = h\<lparr>intfs := (intfs h)(ip \<mapsto> is), alts := (alts h)(altsetting \<mapsto> ds)\<rparr>;
     if endpoint = 0 then Some (None, h)
     else Some (Some \<lparr>ps_intf_desc = Some (altsetting, unat bAlternateSettings),
       ps_endp_index = 0\<rparr>, h) } } }"

definition sanitize_interface :: "u8 list \<Rightarrow> nat \<Rightarrow> addr \<Rightarrow> parse_state \<Rightarrow> 'x cfg_heap_scheme
    \<Rightarrow> (parse_state option \<times> 'x cfg_heap_scheme) option" where
  "sanitize_interface raw off res st h = do {
     complete \<leftarrow> endpoints_complete st h;
     if \<not> complete then Some (None, h) else do {
     len \<leftarrow> rd raw off;
     if len \<noteq> 9 then Some (None, h) else do {
     bInterfaceNumber \<leftarrow> rd raw (off + 2);
     bAlternateSettings \<leftarrow> rd raw (off + 3);
     c \<leftarrow> cfgs h res;
     if bInterfaceNumber \<ge> cd_bNumInterfaces c then Some (None, h) else do {
     is \<leftarrow> intfs h (cd_interface c);
     add_altsetting raw off (cd_interface c) is bInterfaceNumber bAlternateSettings h } } } }"

text \<open>The branch for an endpoint descriptor; \<open>intf_desc\<close> is dereferenced unchecked.\<close>

definition sanitize_endpoint :: "u8 list \<Rightarrow> nat \<Rightarrow> parse_state \<Rightarrow> 'x cfg_heap_scheme
    \<Rightarrow> (parse_state option \<times> 'x cfg_heap_scheme) option" where
  "sanitize_endpoint raw off st h = do {
     len \<leftarrow> rd raw off;
     if len \<noteq> 7 then Some (None, h) else do {
     (a, j) \<leftarrow> ps_intf_desc st;
     ds \<leftarrow> alts h a;
     d \<leftarrow> rd ds j;
     es \<leftarrow> endps h (id_endpoint d);
     e \<leftarrow> rd es (ps_endp_index st);
     body \<leftarrow> rd_block raw off 7;
     es \<leftarrow> wr es (ps_endp_index st) (endpoint_desc_of_bytes e body);
     Some (Some (st\<lparr>ps_endp_index := Suc (ps_endp_index st)\<rparr>),
       h\<lparr>endps := (endps h)(id_endpoint d \<mapsto> es)\<rparr>) } }"

text \<open>The body of the loop once the length \<open>desclen\<close> has been checked.\<close>

definition sanitize_desc :: "u8 list \<Rightarrow> nat \<Rightarrow> addr \<Rightarrow> parse_state \<Rightarrow> 'x cfg_heap_scheme
    \<Rightarrow> (parse_state option \<times> 'x cfg_heap_scheme) option" where
  "sanitize_desc raw off res st h = do {
     ty \<leftarrow> rd raw (off + 1);
     (r, h) \<leftarrow> (if ty = 4 then sanitize_interface raw off res st h else Some (Some st, h));
     case r of None \<Rightarrow> Some (None, h)
     | Some st \<Rightarrow> if ty = 5 then sanitize_endpoint raw off st h else Some (Some st, h) }"

text \<open>
  \<open>while (wTotalLength != 0)\<close>; \<open>remaining\<close> is the value of the \<open>uint16_t\<close>, from which at
  most itself is subtracted.
\<close>

function sanitize_loop :: "u8 list \<Rightarrow> nat \<Rightarrow> nat \<Rightarrow> addr \<Rightarrow> parse_state \<Rightarrow> 'x cfg_heap_scheme
    \<Rightarrow> (parse_state option \<times> 'x cfg_heap_scheme) option" where
  "sanitize_loop raw off remaining res st h =
     (if remaining = 0 then Some (Some st, h) else do {
        desclen \<leftarrow> rd raw off;
        if unat desclen > remaining \<or> unat desclen < 2 then Some (None, h) else do {
        (r, h) \<leftarrow> sanitize_desc raw off res st h;
        case r of None \<Rightarrow> Some (None, h)
        | Some st \<Rightarrow> sanitize_loop raw (off + unat desclen) (remaining - unat desclen) res st h } })"
  by pat_completeness auto
termination
  by (relation "measure (\<lambda>(raw, off, remaining, res, st, h). remaining)") auto

declare sanitize_loop.simps [simp del]

text \<open>
  The checks after the loop: the last interface descriptor has all its endpoints, and every
  interface has an alternate setting.
\<close>

definition sanitize_verdict :: "addr \<Rightarrow> parse_state option \<Rightarrow> 'x cfg_heap_scheme
    \<Rightarrow> (bool \<times> 'x cfg_heap_scheme) option" where
  "sanitize_verdict res r h = (case r of
     None \<Rightarrow> Some (False, h)
   | Some st \<Rightarrow> do {
       complete \<leftarrow> endpoints_complete st h;
       if \<not> complete then Some (False, h) else do {
       c \<leftarrow> cfgs h res;
       is \<leftarrow> intfs h (cd_interface c);
       c_assert (unat (cd_bNumInterfaces c) \<le> length is);
       Some (list_all (\<lambda>i. if_num_altsetting i \<noteq> 0) (take (unat (cd_bNumInterfaces c)) is), h) } })"

text \<open>
  The whole function: the result code, the value stored in \<open>*config\<close> (on success only)
  and the heap.
\<close>

definition usbyi_sanitize_config_descriptor :: "u8 list \<Rightarrow> u16 \<Rightarrow> 'x cfg_heap_scheme
    \<Rightarrow> (int \<times> addr option \<times> 'x cfg_heap_scheme) option" where
  "usbyi_sanitize_config_descriptor raw wTotalLength h =
     (if wTotalLength < 9 then Some (err LIBUSBY_ERROR_IO, None, h) else do {
      ty \<leftarrow> rd raw 1;
      if ty \<noteq> 2 then Some (err LIBUSBY_ERROR_IO, None, h) else do {
      len \<leftarrow> rd raw 0;
      if len \<noteq> 9 then Some (err LIBUSBY_ERROR_IO, None, h) else do {
      body \<leftarrow> rd_block raw 0 9;
      let c = config_desc_of_bytes 0 body;
      let (res, h) = new_cfg c h;
      if res = 0 then Some (err LIBUSBY_ERROR_NO_MEM, None, h) else do {
      let (ip, h) = new_intfs (replicate (unat (cd_bNumInterfaces c)) zero_interface) h;
      let h = h\<lparr>cfgs := (cfgs h)(res \<mapsto> c\<lparr>cd_interface := ip\<rparr>)\<rparr>;
      ok_h \<leftarrow> (if ip = 0 then Some (False, h) else do {
        (r, h) \<leftarrow> sanitize_loop raw 9 (unat wTotalLength - 9) res
          \<lparr>ps_intf_desc = None, ps_endp_index = 0\<rparr> h;
        sanitize_verdict res r h });
      let (ok, h) = ok_h;
      if ok then Some (err LIBUSBY_SUCCESS, Some res, h)
      else do {
        h \<leftarrow> libusby_free_config_descriptor res h;
        Some (err LIBUSBY_ERROR_IO, None, h) } } } } })"

end
