(* ===== verification/Config_Leak.thy ===== *)
theory Config_Leak
  imports Config_Desc
begin

text \<open>
  Ownership of the blocks of a configuration: which arrays a list of interfaces owns, that
  \<^verbatim>\<open>libusby_free_config_descriptor\<close> frees exactly those, and that every step of the
  parser keeps the ownership. A heap is compared with the heap \<open>h0\<close> at the start of the
  parse.
\<close>

section \<open>Owned blocks\<close>

definition alt_ptrs :: "libusby_interface list \<Rightarrow> addr list" where
  "alt_ptrs is = filter (\<lambda>p. p \<noteq> 0) (map if_altsetting is)"

definition endp_ptrs :: "libusby_interface_descriptor list \<Rightarrow> addr list" where
  "endp_ptrs ds = filter (\<lambda>p. p \<noteq> 0) (map id_endpoint ds)"

definition alt_array :: "(addr \<rightharpoonup> libusby_interface_descriptor list) \<Rightarrow> libusby_interface
    \<Rightarrow> libusby_interface_descriptor list" where
  "alt_array m i = (if if_altsetting i = 0 then [] else the (m (if_altsetting i)))"

definition all_endps :: "(addr \<rightharpoonup> libusby_interface_descriptor list) \<Rightarrow> libusby_interface list
    \<Rightarrow> addr list" where
  "all_endps m is = concat (map (\<lambda>i. endp_ptrs (alt_array m i)) is)"

lemma ptrs_simps [simp]:
  "alt_ptrs [] = []"
  "alt_ptrs (i # is) = (if if_altsetting i = 0 then [] else [if_altsetting i]) @ alt_ptrs is"
  "alt_ptrs (is @ is') = alt_ptrs is @ alt_ptrs is'"
  "endp_ptrs [] = []"
  "endp_ptrs (d # ds) = (if id_endpoint d = 0 then [] else [id_endpoint d]) @ endp_ptrs ds"
  "endp_ptrs (ds @ ds') = endp_ptrs ds @ endp_ptrs ds'"
  "all_endps m [] = []"
  "all_endps m (i # is) = endp_ptrs (alt_array m i) @ all_endps m is"
  "all_endps m (is @ is') = all_endps m is @ all_endps m is'"
  by (simp_all add: alt_ptrs_def endp_ptrs_def all_endps_def)

lemma zero_not_ptr [simp]: "0 \<notin> set (alt_ptrs is)" "0 \<notin> set (endp_ptrs ds)" "0 \<notin> set (all_endps m is)"
  by (auto simp: alt_ptrs_def endp_ptrs_def all_endps_def)

lemma alt_array_other:
  "if_altsetting i \<noteq> p \<Longrightarrow> alt_array (m(p := v)) i = alt_array m i"
  by (simp add: alt_array_def)

lemma alt_ptrs_mem: "i \<in> set is \<Longrightarrow> if_altsetting i \<noteq> 0 \<Longrightarrow> if_altsetting i \<in> set (alt_ptrs is)"
  by (simp add: alt_ptrs_def)

lemma alt_array_outside:
  assumes "i \<in> set is" "p \<notin> set (alt_ptrs is)"
  shows "alt_array (m(p := v)) i = alt_array m i"
  using assms alt_ptrs_mem [OF assms(1)] by (auto simp: alt_array_def)

lemma all_endps_other: "p \<notin> set (alt_ptrs is) \<Longrightarrow> p \<noteq> 0 \<Longrightarrow> all_endps (m(p := v)) is = all_endps m is"
  by (induction "is") (auto simp: alt_array_def split: if_splits)

definition owned :: "'x cfg_heap_scheme \<Rightarrow> 'x cfg_heap_scheme \<Rightarrow> libusby_interface list \<Rightarrow> bool" where
  "owned h0 h is \<longleftrightarrow>
     distinct (alt_ptrs is) \<and> set (alt_ptrs is) \<subseteq> dom (alts h) \<and>
     alts h |` (- set (alt_ptrs is)) = alts h0 \<and>
     distinct (all_endps (alts h) is) \<and> set (all_endps (alts h) is) \<subseteq> dom (endps h) \<and>
     endps h |` (- set (all_endps (alts h) is)) = endps h0 \<and>
     (\<forall>i \<in> set is. if_num_altsetting i = int (length (alt_array (alts h) i)))"

lemma owned_num: "owned h0 h is \<Longrightarrow> i \<in> set is \<Longrightarrow> if_num_altsetting i = int (length (alt_array (alts h) i))"
  unfolding owned_def by blast

lemma owned_array:
  assumes "owned h0 h is" "i \<in> set is" "if_altsetting i \<noteq> 0"
  shows "alts h (if_altsetting i) = Some (alt_array (alts h) i)"
proof -
  have "if_altsetting i \<in> set (alt_ptrs is)" using assms(2,3) by (simp add: alt_ptrs_def)
  then have "if_altsetting i \<in> dom (alts h)" using assms(1) unfolding owned_def by blast
  then show ?thesis using assms(3) by (auto simp: alt_array_def)
qed

section \<open>Freeing frees what is owned\<close>

lemma restrict_restrict_compl: "(m |` (- A)) |` (- B) = m |` (- (A \<union> B))"
  by (simp add: restrict_restrict Int_commute)

lemma free_block_ok: "p \<in> dom m \<Longrightarrow> p \<noteq> 0 \<Longrightarrow> free_block m p = Some (m(p := None))"
  by (simp add: free_block_def)

lemma free_alt_endpoints_ok:
  "distinct (endp_ptrs ds) \<Longrightarrow> set (endp_ptrs ds) \<subseteq> dom m \<Longrightarrow>
     free_alt_endpoints ds m = Some (m |` (- set (endp_ptrs ds)))"
proof (induction ds arbitrary: m)
  case Nil
  then show ?case by simp
next
  case (Cons d ds)
  show ?case
  proof (cases "id_endpoint d = 0")
    case True
    with Cons show ?thesis by simp
  next
    case False
    with Cons.prems have "set (endp_ptrs ds) \<subseteq> dom (m(id_endpoint d := None))" by auto
    with False Cons show ?thesis by (simp add: free_block_ok Compl_insert)
  qed
qed

lemma free_interfaces_ok:
  assumes "distinct (alt_ptrs is)" "set (alt_ptrs is) \<subseteq> dom (alts h)"
    and "distinct (all_endps (alts h) is)" "set (all_endps (alts h) is) \<subseteq> dom (endps h)"
    and "\<forall>i \<in> set is. if_num_altsetting i = int (length (alt_array (alts h) i))"
  shows "free_interfaces is h = Some (h\<lparr>endps := endps h |` (- set (all_endps (alts h) is)),
      alts := alts h |` (- set (alt_ptrs is))\<rparr>)"
  using assms
proof (induction "is" arbitrary: h)
  case Nil
  then show ?case by simp
next
  case (Cons i "is")
  show ?case
  proof (cases "if_altsetting i = 0")
    case True
    with Cons show ?thesis by (simp add: alt_array_def)
  next
    case False
    then obtain ds where ds: "alts h (if_altsetting i) = Some ds"
      using Cons.prems(2) by auto
    have arr: "alt_array (alts h) i = ds" using False ds by (simp add: alt_array_def)
    let ?h = "h\<lparr>endps := endps h |` (- set (endp_ptrs ds)),
      alts := (alts h)(if_altsetting i := None)\<rparr>"
    have notin: "if_altsetting i \<notin> set (alt_ptrs is)" using Cons.prems(1) False by simp
    have others: "all_endps (alts ?h) is = all_endps (alts h) is"
      using all_endps_other [OF notin False] by simp
    have len: "if_num_altsetting i = int (length ds)" using Cons.prems(5) arr by simp
    have arrs: "alt_array (alts ?h) j = alt_array (alts h) j" if "j \<in> set is" for j
      using alt_array_outside [OF that notin] by simp
    have "free_interfaces is ?h = Some (?h\<lparr>endps := endps ?h |` (- set (all_endps (alts ?h) is)),
        alts := alts ?h |` (- set (alt_ptrs is))\<rparr>)"
    proof (rule Cons.IH)
      show "set (alt_ptrs is) \<subseteq> dom (alts ?h)"
        using Cons.prems(2) notin False by auto
      show "set (all_endps (alts ?h) is) \<subseteq> dom (endps ?h)"
        using Cons.prems(3,4) arr unfolding others by auto
      show "\<forall>j \<in> set is. if_num_altsetting j = int (length (alt_array (alts ?h) j))"
        using Cons.prems(5) arrs by simp
      show "distinct (all_endps (alts ?h) is)"
        using Cons.prems(3) unfolding others by simp
      show "distinct (alt_ptrs is)" using Cons.prems(1) by simp
    qed
    moreover have "free_alt_endpoints ds (endps h) = Some (endps h |` (- set (endp_ptrs ds)))"
      using Cons.prems arr by (intro free_alt_endpoints_ok) auto
    ultimately show ?thesis
      using False ds len arr others
      by (simp add: free_block_ok domI Compl_insert restrict_restrict_compl)
  qed
qed

text \<open>The configuration \<open>res\<close> with header \<open>c\<close> and interfaces \<open>is\<close>, on top of \<open>h0\<close>.\<close>

definition cfg_inv :: "'x cfg_heap_scheme \<Rightarrow> addr \<Rightarrow> libusby_config_descriptor \<Rightarrow>
    libusby_interface list \<Rightarrow> 'x cfg_heap_scheme \<Rightarrow> bool" where
  "cfg_inv h0 res c is h \<longleftrightarrow> fresh_heap h0 \<and> fresh_heap h \<and>
     res \<noteq> 0 \<and> cfgs h0 res = None \<and> cfgs h = (cfgs h0)(res \<mapsto> c) \<and>
     cd_interface c \<noteq> 0 \<and> intfs h0 (cd_interface c) = None \<and>
     intfs h = (intfs h0)(cd_interface c \<mapsto> is) \<and>
     length is = unat (cd_bNumInterfaces c) \<and> owned h0 h is"

lemma free_config_inv:
  assumes "cfg_inv h0 res c is h"
  shows "\<exists>h'. libusby_free_config_descriptor res h = Some h' \<and> same_blocks h' h0"
proof -
  have "free_interfaces is h = Some (h\<lparr>endps := endps h0, alts := alts h0\<rparr>)"
    using assms free_interfaces_ok [of "is" h] by (simp add: cfg_inv_def owned_def)
  with assms show ?thesis
    by (simp add: libusby_free_config_descriptor_def cfg_inv_def same_blocks_def free_block_ok)
      (simp add: fun_upd_idem)
qed

section \<open>Every step keeps the ownership\<close>

text \<open>
  The effect of an interface descriptor on the maps: the array of interface \<open>i\<close> moves from
  its old block to the fresh block \<open>p\<close> and gets one more element \<open>d\<close>, whose endpoint array
  is null or a fresh block.
\<close>

lemma owned_extend:
  assumes own: "owned h0 h (xs @ i # ys)"
    and fresh: "alts h 0 = None" "alts h p = None" "p \<noteq> 0" "endps h (id_endpoint d) = None"
    and alts': "alts h' = (alts h)(if_altsetting i := None, p \<mapsto> alt_array (alts h) i @ [d])"
    and endps': "endps h' = (if id_endpoint d = 0 then endps h else (endps h)(id_endpoint d \<mapsto> es))"
  shows "owned h0 h' (xs @ i\<lparr>if_altsetting := p, if_num_altsetting := if_num_altsetting i + 1\<rparr> # ys)"
proof -
  let ?i' = "i\<lparr>if_altsetting := p, if_num_altsetting := if_num_altsetting i + 1\<rparr>"
  let ?A = "set (alt_ptrs xs) \<union> set (alt_ptrs ys)"
  have o: "distinct (alt_ptrs (xs @ i # ys))" "set (alt_ptrs (xs @ i # ys)) \<subseteq> dom (alts h)"
    "alts h |` (- set (alt_ptrs (xs @ i # ys))) = alts h0"
    "distinct (all_endps (alts h) (xs @ i # ys))"
    "set (all_endps (alts h) (xs @ i # ys)) \<subseteq> dom (endps h)"
    "endps h |` (- set (all_endps (alts h) (xs @ i # ys))) = endps h0"
    "\<forall>j \<in> set (xs @ i # ys). if_num_altsetting j = int (length (alt_array (alts h) j))"
    using own unfolding owned_def by blast+
  have pA: "p \<notin> ?A" "if_altsetting i \<notin> ?A"
    using o(1,2) fresh(2) by (cases "if_altsetting i = 0"; auto)+
  have arr: "alt_array (alts h') j = alt_array (alts h) j" if "j \<in> set xs \<union> set ys" for j
    using that pA alt_ptrs_mem [of j xs] alt_ptrs_mem [of j ys]
    by (auto simp: alts' alt_array_def)
  have ends: "all_endps (alts h') zs = all_endps (alts h) zs" if "set zs \<subseteq> set xs \<union> set ys" for zs
    using that by (induction zs) (auto simp: arr)
  have arr_i: "alt_array (alts h') ?i' = alt_array (alts h) i @ [d]"
    using fresh(3) by (simp add: alts' alt_array_def)
  have endps_new: "set (all_endps (alts h') (xs @ ?i' # ys))
      = set (all_endps (alts h) (xs @ i # ys)) \<union> (if id_endpoint d = 0 then {} else {id_endpoint d})"
    by (auto simp: ends arr_i)
  have d_new: "id_endpoint d \<notin> set (all_endps (alts h) (xs @ i # ys))"
    using o(5) fresh(4) by auto
  have "distinct (alt_ptrs (xs @ ?i' # ys))"
    using o(1) pA fresh(3) by (auto split: if_splits)
  moreover have "set (alt_ptrs (xs @ ?i' # ys)) \<subseteq> dom (alts h')"
    using o(1,2) pA fresh(3) by (auto simp: alts' split: if_splits)
  moreover have "alts h' |` (- set (alt_ptrs (xs @ ?i' # ys))) = alts h0"
  proof
    fix a
    show "(alts h' |` (- set (alt_ptrs (xs @ ?i' # ys)))) a = alts h0 a"
      using fun_cong [OF o(3), of a] fresh(1-3) pA
      by (auto simp: alts' restrict_map_def split: if_splits)
  qed
  moreover have "distinct (all_endps (alts h') (xs @ ?i' # ys))"
    using o(4) d_new by (auto simp: ends arr_i)
  moreover have "set (all_endps (alts h') (xs @ ?i' # ys)) \<subseteq> dom (endps h')"
    using o(5) unfolding endps_new endps' by auto
  moreover have "endps h' |` (- set (all_endps (alts h') (xs @ ?i' # ys))) = endps h0"
    using o(6) fresh(4) unfolding endps_new endps' by (auto simp: restrict_map_def fun_eq_iff split: if_splits)
  moreover have "\<forall>j \<in> set (xs @ ?i' # ys). if_num_altsetting j = int (length (alt_array (alts h') j))"
    using o(7) arr arr_i by auto
  ultimately show ?thesis
    unfolding owned_def by blast
qed

lemma fresh_heap_n_mallocs [simp]: "fresh_heap (h\<lparr>n_mallocs := k\<rparr>) = fresh_heap h"
  by (simp add: fresh_heap_def live_def)

lemma cfg_inv_n_mallocs: "cfg_inv h0 res c is h \<Longrightarrow> cfg_inv h0 res c is (h\<lparr>n_mallocs := k\<rparr>)"
  by (simp add: cfg_inv_def owned_def)

text \<open>All outcomes of growing an array of alternate settings.\<close>

lemma add_altsetting_cases:
  fixes h :: "'x cfg_heap_scheme"
  assumes inv: "cfg_inv h0 res c (xs @ i # ys) h"
    and nr: "unat nr = length xs" and alt: "uint alt = if_num_altsetting i"
    and raw: "off + 9 \<le> length raw"
  defines "d \<equiv> interface_desc_of_bytes 0 (take 9 (drop off raw))"
    and "i' p \<equiv> i\<lparr>if_altsetting := p, if_num_altsetting := if_num_altsetting i + 1\<rparr>"
  obtains
    (alloc_failed) h' "is'" where
      "add_altsetting raw off (cd_interface c) (xs @ i # ys) nr alt h = Some (None, h')"
      "\<not> plenty h" "cfg_inv h0 res c is' h'"
  | (grown) h' p e where
      "add_altsetting raw off (cd_interface c) (xs @ i # ys) nr alt h =
         Some (Some \<lparr>ps_intf_desc = Some (p, unat alt), ps_endp_index = 0\<rparr>, h')"
      "cfg_inv h0 res c (xs @ i' p # ys) h'" "p \<noteq> 0" "e \<noteq> 0" "alts h p = None" "endps h e = None"
      "alts h' = (alts h)(if_altsetting i := None,
         p \<mapsto> alt_array (alts h) i @ [d\<lparr>id_endpoint := e\<rparr>])"
      "endps h' = (endps h)(e \<mapsto> replicate (unat (id_bNumEndpoints d)) zero_endpoint_desc)"
      "plenty h \<Longrightarrow> plenty h'"
proof -
  have own: "owned h0 h (xs @ i # ys)" and fr: "fresh_heap h"
    using inv by (simp_all add: cfg_inv_def)
  note fh = fresh_heapD [OF fr]
  let ?arr = "alt_array (alts h) i" and ?n = "unat alt + 1"
  let ?d = "\<lambda>e. d\<lparr>id_endpoint := e\<rparr>"
  let ?es = "replicate (unat (id_bNumEndpoints d)) zero_endpoint_desc"
  have "if_num_altsetting i = int (length ?arr)"
    by (rule owned_num [OF own]) simp
  then have len: "unat alt = length ?arr"
    using alt by (metis of_nat_eq_iff uint_nat)
  have arr: "(if if_altsetting i = 0 then Some [] else alts h (if_altsetting i)) = Some ?arr"
    using owned_array [OF own, of i] by (simp add: alt_array_def)
  have num: "c_int (if_num_altsetting i + 1) = Some (if_num_altsetting i + 1)"
    using alt uint_lt2p [of alt] uint_ge_0 [of alt] by (simp add: c_int_def INT_MIN_def INT_MAX_def)
  have body: "rd_block raw off 9 = Some (take 9 (drop off raw))"
    using raw by (simp add: rd_block_def)
  have indet: "id_endpoint indeterminate_interface_desc = 0"
    by (simp add: indeterminate_interface_desc_def interface_desc_of_bytes_def)
  note add_def = add_altsetting_def [of raw off "cd_interface c" "xs @ i # ys" nr alt h]
  show ?thesis
  proof (cases rule: malloc_cases [of "24 + 24 * length ?arr" h])
    case fail
    then have "realloc_alts (if_altsetting i) ?n h = Some (0, h\<lparr>n_mallocs := Suc (n_mallocs h)\<rparr>)"
      by (simp add: realloc_alts_def arr len)
    then have "add_altsetting raw off (cd_interface c) (xs @ i # ys) nr alt h
        = Some (None, h\<lparr>n_mallocs := Suc (n_mallocs h)\<rparr>)"
      using alt by (simp add: add_def nr)
    moreover have "\<not> plenty h" using fail(2) by (auto simp: plenty_def)
    ultimately show ?thesis using cfg_inv_n_mallocs [OF inv] alloc_failed by blast
  next
    case ok
    define p where "p = next_addr h"
    define h1 where "h1 = h\<lparr>n_mallocs := Suc (n_mallocs h), next_addr := next_addr h + (24 + 24 * length ?arr),
      alts := (alts h)(if_altsetting i := None, p \<mapsto> ?arr @ [indeterminate_interface_desc])\<rparr>"
    have re: "realloc_alts (if_altsetting i) (Suc (length ?arr)) h = Some (p, h1)"
      using fh(1) by (simp add: realloc_alts_def arr ok len h1_def p_def)
    define fin where "fin = (\<lambda>e h2. h2\<lparr>intfs := (intfs h2)(cd_interface c \<mapsto> xs @ i' p # ys),
      alts := (alts h2)(p \<mapsto> ?arr @ [?d e])\<rparr> :: 'x cfg_heap_scheme)"
    have add: "add_altsetting raw off (cd_interface c) (xs @ i # ys) nr alt h =
      (case new_endps ?es h1 of (e, h2) \<Rightarrow>
         if e = 0 then Some (None, fin e h2)
         else Some (Some \<lparr>ps_intf_desc = Some (p, unat alt), ps_endp_index = 0\<rparr>, fin e h2))"
      using fh(1) alt
      by (simp add: add_def nr re num body indet len h1_def p_def d_def i'_def fin_def
        split: prod.splits)
    have pfresh: "alts h p = None" "p \<noteq> 0" using fh by (simp_all add: p_def)
    have ext: "owned h0 (fin e h2) (xs @ i' p # ys)"
      if "alts h2 = alts h1" "endps h2 = (if e = 0 then endps h else (endps h)(e \<mapsto> ?es))"
        "endps h e = None" for e h2
      unfolding i'_def
      by (rule owned_extend [OF own, where d = "?d e" and es = ?es])
        (use that pfresh fh in \<open>simp_all add: fin_def h1_def\<close>)
    have keep: "cfg_inv h0 res c (xs @ i' p # ys) (fin e h2)"
      if "owned h0 (fin e h2) (xs @ i' p # ys)" "fresh_heap (fin e h2)"
        "cfgs h2 = cfgs h" "intfs h2 = intfs h" for e h2
      using that inv by (simp add: cfg_inv_def fin_def)
    have fr1: "fresh_heap h1"
      by (rule fresh_heap_grow [OF fr]) (auto simp: h1_def p_def live_def split: if_splits)
    have ip: "intfs h (cd_interface c) = Some (xs @ i # ys)" using inv by (simp add: cfg_inv_def)
    show ?thesis
    proof (cases rule: malloc_cases [of "10 * length ?es" h1])
      case fail
      let ?h2 = "h1\<lparr>n_mallocs := Suc (n_mallocs h1)\<rparr>"
      have new: "new_endps ?es h1 = (0, ?h2)" using fail by (simp add: new_endps_def)
      have "fresh_heap (fin 0 ?h2)"
        by (rule fresh_heap_grow [OF fr1]) (use ip in \<open>auto simp: fin_def h1_def live_def split: if_splits\<close>)
      moreover have "owned h0 (fin 0 ?h2) (xs @ i' p # ys)"
        using fh by (intro ext) (simp_all add: h1_def)
      ultimately have "cfg_inv h0 res c (xs @ i' p # ys) (fin 0 ?h2)"
        by (intro keep) (simp_all add: h1_def)
      moreover have "\<not> plenty h"
        using fail(2) by (auto simp: plenty_def h1_def intro: exI [of _ "Suc (n_mallocs h)"])
      ultimately show ?thesis using alloc_failed add new by simp
    next
      case ok
      let ?e = "next_addr h1"
      let ?h2 = "h1\<lparr>n_mallocs := Suc (n_mallocs h1), next_addr := next_addr h1 + max 1 (10 * length ?es),
        endps := (endps h1)(?e \<mapsto> ?es)\<rparr>"
      have e: "?e \<noteq> 0" "endps h ?e = None"
        using fresh_heapD [OF fr1] by (simp_all add: h1_def)
      have new: "new_endps ?es h1 = (?e, ?h2)" using ok e(1) by (simp add: new_endps_def)
      have "fresh_heap (fin ?e ?h2)"
        by (rule fresh_heap_grow [OF fr1]) (use ip in \<open>auto simp: fin_def h1_def live_def split: if_splits\<close>)
      moreover have "owned h0 (fin ?e ?h2) (xs @ i' p # ys)"
        using e by (intro ext) (simp_all add: h1_def)
      ultimately have "cfg_inv h0 res c (xs @ i' p # ys) (fin ?e ?h2)"
        by (intro keep) (simp_all add: h1_def)
      moreover have "plenty (fin ?e ?h2)" if "plenty h"
        using that by (simp add: plenty_def fin_def h1_def)
      moreover have "alts (fin ?e ?h2) = (alts h)(if_altsetting i := None, p \<mapsto> ?arr @ [?d ?e])"
        "endps (fin ?e ?h2) = (endps h)(?e \<mapsto> ?es)"
        by (simp_all add: fin_def h1_def)
      moreover have "add_altsetting raw off (cd_interface c) (xs @ i # ys) nr alt h
          = Some (Some \<lparr>ps_intf_desc = Some (p, unat alt), ps_endp_index = 0\<rparr>, fin ?e ?h2)"
        using add new e(1) by simp
      ultimately show ?thesis
        using e pfresh by (intro grown [where h' = "fin ?e ?h2" and p = p and e = ?e]) simp_all
    qed
  qed
qed

text \<open>The current interface descriptor lies in an array the configuration owns.\<close>

definition st_inv :: "libusby_interface list \<Rightarrow> parse_state \<Rightarrow> bool" where
  "st_inv is st \<longleftrightarrow> (\<forall>a j. ps_intf_desc st = Some (a, j) \<longrightarrow> a \<in> set (alt_ptrs is))"

lemma sanitize_interface_inv:
  assumes inv: "cfg_inv h0 res c is h" "st_inv is st"
    and raw: "off + unat (raw ! off) \<le> length raw"
    and run: "sanitize_interface raw off res st h = Some (r, h')"
  shows "\<exists>is'. cfg_inv h0 res c is' h' \<and> (\<forall>st'. r = Some st' \<longrightarrow> st_inv is' st')"
proof (cases "h' = h \<and> r = None")
  case True
  then show ?thesis using inv by auto
next
  case False
  have c: "cfgs h res = Some c" "intfs h (cd_interface c) = Some is"
    using inv by (simp_all add: cfg_inv_def)
  from run False obtain nr alt where
    nr: "unat nr < unat (cd_bNumInterfaces c)" and r9: "raw ! off = 9"
    and add: "add_altsetting raw off (cd_interface c) is nr alt h = Some (r, h')"
    by (auto simp: sanitize_interface_def monad_simps c word_less_nat_alt word_le_nat_alt not_le
      split: if_splits)
  define xs i ys where "xs = take (unat nr) is" and "i = is ! unat nr" and "ys = drop (Suc (unat nr)) is"
  have len: "unat nr < length is" using nr inv by (simp add: cfg_inv_def)
  then have "is": "is = xs @ i # ys" "length xs = unat nr"
    by (simp_all add: xs_def i_def ys_def id_take_nth_drop)
  have alt: "uint alt = if_num_altsetting i"
    using add False len by (auto simp: add_altsetting_def i_def split: if_splits)
  have raw9: "off + 9 \<le> length raw" using raw r9 by simp
  show ?thesis
  proof (cases rule: add_altsetting_cases [OF inv(1) [unfolded "is"(1)] "is"(2) [symmetric] alt raw9])
    case (1 h'' is')
    then show ?thesis using add by (auto simp: "is"(1))
  next
    case (2 h'' p e)
    then show ?thesis using add
      by (intro exI [of _ "xs @ i\<lparr>if_altsetting := p, if_num_altsetting := if_num_altsetting i + 1\<rparr> # ys"])
        (auto simp: "is"(1) st_inv_def)
  qed
qed

lemma sanitize_endpoint_cases:
  assumes "sanitize_endpoint raw off st h = Some (r, h')"
  obtains (reject) "r = None" "h' = h" "raw ! off \<noteq> 7"
  | (store) a j ds es where "off + 7 \<le> length raw"
      "raw ! off = 7" "ps_intf_desc st = Some (a, j)" "alts h a = Some ds" "j < length ds"
      "endps h (id_endpoint (ds ! j)) = Some es" "ps_endp_index st < length es"
      "r = Some (st\<lparr>ps_endp_index := Suc (ps_endp_index st)\<rparr>)"
      "h' = h\<lparr>endps := (endps h)(id_endpoint (ds ! j) \<mapsto>
         es[ps_endp_index st := endpoint_desc_of_bytes (es ! ps_endp_index st) (take 7 (drop off raw))])\<rparr>"
  using assms unfolding sanitize_endpoint_def
  by (cases "raw ! off = 7") (auto simp: monad_simps)

lemma sanitize_endpoint_inv:
  assumes inv: "cfg_inv h0 res c is h" "st_inv is st"
    and run: "sanitize_endpoint raw off st h = Some (r, h')"
  shows "cfg_inv h0 res c is h' \<and> (\<forall>st'. r = Some st' \<longrightarrow> st_inv is st')"
  using run
proof (cases rule: sanitize_endpoint_cases)
  case reject
  then show ?thesis using inv by auto
next
  case (store a j ds es)
  note a = store(3-5) and es = store(6) and r = store(8) and h' = store(9)
  let ?e = "id_endpoint (ds ! j)"
  have fr: "fresh_heap h" and own: "owned h0 h is" using inv(1) by (simp_all add: cfg_inv_def)
  have a_own: "a \<in> set (alt_ptrs is)" using inv(2) a(1) by (simp add: st_inv_def)
  then obtain i where i: "i \<in> set is" "if_altsetting i = a" "a \<noteq> 0" by (auto simp: alt_ptrs_def)
  have e0: "?e \<noteq> 0" using es fresh_heapD(9) [OF fr] by (metis option.distinct(1))
  have "?e \<in> set (endp_ptrs ds)" using a(3) e0 by (simp add: endp_ptrs_def)
  then have e_own: "?e \<in> set (all_endps (alts h) is)"
    using i a(2) by (auto simp: all_endps_def alt_array_def)
  have "fresh_heap h'"
    by (rule fresh_heap_grow [OF fr]) (use es in \<open>auto simp: h' live_def split: if_splits\<close>)
  moreover have "endps h' |` (- set (all_endps (alts h) is)) = endps h |` (- set (all_endps (alts h) is))"
    using e_own by (simp add: h')
  then have "owned h0 h' is"
    using own by (auto simp: owned_def h')
  ultimately show ?thesis
    using inv by (auto simp: cfg_inv_def h' r st_inv_def)
qed

lemma endpoints_complete_defined:
  assumes "cfg_inv h0 res c is h" "st_inv is st" "endpoints_complete st h = Some b"
  shows "b \<longleftrightarrow> (\<forall>a j. ps_intf_desc st = Some (a, j) \<longrightarrow>
    (\<exists>ds. alts h a = Some ds \<and> j < length ds \<and> ps_endp_index st = unat (id_bNumEndpoints (ds ! j))))"
  using assms(3) by (auto simp: endpoints_complete_def monad_simps split: option.splits)

lemma sanitize_desc_branches:
  assumes "off + 1 < length raw"
  shows "raw ! (off + 1) = 4 \<Longrightarrow> sanitize_desc raw off res st h = sanitize_interface raw off res st h"
    and "raw ! (off + 1) = 5 \<Longrightarrow> sanitize_desc raw off res st h = sanitize_endpoint raw off st h"
    and "raw ! (off + 1) \<noteq> 4 \<Longrightarrow> raw ! (off + 1) \<noteq> 5 \<Longrightarrow>
      sanitize_desc raw off res st h = Some (Some st, h)"
proof -
  have rd: "rd raw (off + 1) = Some (raw ! (off + 1))" using assms by simp
  show "sanitize_desc raw off res st h = sanitize_endpoint raw off st h" if "raw ! (off + 1) = 5"
    unfolding sanitize_desc_def rd that by simp
  show "sanitize_desc raw off res st h = Some (Some st, h)"
    if "raw ! (off + 1) \<noteq> 4" "raw ! (off + 1) \<noteq> 5"
    unfolding sanitize_desc_def rd using that by simp
  show "sanitize_desc raw off res st h = sanitize_interface raw off res st h" if ty: "raw ! (off + 1) = 4"
  proof (cases "sanitize_interface raw off res st h")
    case None
    then show ?thesis unfolding sanitize_desc_def rd ty by simp
  next
    case (Some x)
    then show ?thesis unfolding sanitize_desc_def rd ty
      by (cases x) (simp split: option.split)
  qed
qed

lemma sanitize_desc_inv:
  assumes inv: "cfg_inv h0 res c is h" "st_inv is st"
    and raw: "off + unat (raw ! off) \<le> length raw" "2 \<le> unat (raw ! off)"
    and run: "sanitize_desc raw off res st h = Some (r, h')"
  shows "\<exists>is'. cfg_inv h0 res c is' h' \<and> (\<forall>st'. r = Some st' \<longrightarrow> st_inv is' st')"
proof -
  have in1: "off + 1 < length raw" using raw by linarith
  consider "raw ! (off + 1) = 4" | "raw ! (off + 1) = 5" | "raw ! (off + 1) \<noteq> 4" "raw ! (off + 1) \<noteq> 5"
    by blast
  then show ?thesis
  proof cases
    case 1
    show ?thesis
      by (rule sanitize_interface_inv [OF inv raw(1) run [unfolded sanitize_desc_branches(1) [OF in1 1]]])
  next
    case 2
    show ?thesis
      using sanitize_endpoint_inv [OF inv run [unfolded sanitize_desc_branches(2) [OF in1 2]]] by blast
  next
    case 3
    then have "r = Some st" "h' = h"
      using run sanitize_desc_branches(3) [OF in1 3, of res st h] by simp_all
    then show ?thesis using inv by auto
  qed
qed

lemma sanitize_loop_inv:
  assumes "cfg_inv h0 res c is h" "st_inv is st" "off + remaining \<le> length raw"
    and "sanitize_loop raw off remaining res st h = Some (r, h')"
  shows "\<exists>is'. cfg_inv h0 res c is' h' \<and> (\<forall>st'. r = Some st' \<longrightarrow> st_inv is' st')"
  using assms
proof (induction raw off remaining res st h arbitrary: "is" rule: sanitize_loop.induct)
  case (1 raw off remaining res st h)
  show ?case
  proof (cases "remaining = 0")
    case True
    then show ?thesis using 1 by (auto simp: sanitize_loop.simps [of raw off])
  next
    case False
    with "1.prems"(3) have off: "rd raw off = Some (raw ! off)" by simp
    show ?thesis
    proof (cases "remaining < unat (raw ! off) \<or> unat (raw ! off) < 2")
      case True
      with False off "1.prems" have "r = None \<and> h' = h"
        by (auto simp: sanitize_loop.simps [of raw off])
      then show ?thesis using "1.prems" by auto
    next
      case len: False
      with False off "1.prems"(4) obtain r1 h1 where
        d: "sanitize_desc raw off res st h = Some (r1, h1)" and
        rest: "(case r1 of None \<Rightarrow> Some (None, h1) | Some st \<Rightarrow>
          sanitize_loop raw (off + unat (raw ! off)) (remaining - unat (raw ! off)) res st h1) = Some (r, h')"
        by (auto simp: sanitize_loop.simps [of raw off] monad_simps)
      from len "1.prems"(3) have raw: "off + unat (raw ! off) \<le> length raw" by linarith
      obtain is1 where inv1: "cfg_inv h0 res c is1 h1" "\<forall>st'. r1 = Some st' \<longrightarrow> st_inv is1 st'"
        using sanitize_desc_inv [OF "1.prems"(1,2) raw _ d] len by fastforce
      show ?thesis
      proof (cases r1)
        case None
        then show ?thesis using inv1 rest by auto
      next
        case (Some st1)
        show ?thesis
          by (rule "1.IH" [OF False off len d [unfolded Some] refl refl inv1(1)])
            (use inv1(2) Some len "1.prems"(3) rest in auto)
      qed
    qed
  qed
qed

section \<open>The whole parser\<close>

text \<open>The state of the heap once the header and the array of interfaces are in place.\<close>

lemma cfg_inv_start:
  assumes fr: "fresh_heap h" and res: "new_cfg c h = (res, h1)" "res \<noteq> 0"
    and ip: "new_intfs (replicate (unat (cd_bNumInterfaces c)) zero_interface) h1 = (ip, h2)" "ip \<noteq> 0"
  shows "cfg_inv h res (c\<lparr>cd_interface := ip\<rparr>)
    (replicate (unat (cd_bNumInterfaces c)) zero_interface) (h2\<lparr>cfgs := (cfgs h2)(res \<mapsto> c\<lparr>cd_interface := ip\<rparr>)\<rparr>)"
proof -
  note fh = fresh_heapD [OF fr]
  let ?is = "replicate (unat (cd_bNumInterfaces c)) zero_interface"
  let ?h3 = "h2\<lparr>cfgs := (cfgs h2)(res \<mapsto> c\<lparr>cd_interface := ip\<rparr>)\<rparr>"
  have h1: "res = next_addr h" "h1 = h\<lparr>n_mallocs := Suc (n_mallocs h), next_addr := next_addr h + 24,
      cfgs := (cfgs h)(next_addr h \<mapsto> c)\<rparr>"
    using res by (auto simp: new_cfg_def malloc_def Let_def split: if_splits)
  have fr1: "fresh_heap h1"
    by (rule fresh_heap_grow [OF fr]) (auto simp: h1 live_def split: if_splits)
  have h2: "ip = next_addr h1" "h2 = h1\<lparr>n_mallocs := Suc (n_mallocs h1),
      next_addr := next_addr h1 + max 1 (16 * length ?is), intfs := (intfs h1)(next_addr h1 \<mapsto> ?is)\<rparr>"
    using ip by (auto simp: new_intfs_def malloc_def Let_def split: if_splits)
  have fr2: "fresh_heap h2"
    by (rule fresh_heap_grow [OF fr1]) (auto simp: h2 live_def split: if_splits)
  have fr3: "fresh_heap ?h3"
    by (rule fresh_heap_grow [OF fr2]) (auto simp: h1 h2 live_def split: if_splits)
  have own: "owned h ?h3 ?is"
  proof -
    have p: "alt_ptrs ?is = []" "all_endps m ?is = []" for m
      by (simp_all add: alt_ptrs_def all_endps_def alt_array_def endp_ptrs_def zero_interface_def)
    show ?thesis
      unfolding owned_def p by (simp add: h1(2) h2(2) alt_array_def zero_interface_def restrict_map_def)
  qed
  have "intfs h ip = None" using fresh_heapD(3) [OF fr1] by (simp add: h1 h2)
  then show ?thesis
    using fr fr3 own fh res ip by (simp add: cfg_inv_def h1 h2)
qed

text \<open>The parser with its checks on the header decided.\<close>

lemma sanitize_bad_header:
  assumes "unat w \<le> length raw" "w < 9 \<or> raw ! 1 \<noteq> 2 \<or> raw ! 0 \<noteq> 9"
  shows "usbyi_sanitize_config_descriptor raw w h = Some (err LIBUSBY_ERROR_IO, None, h)"
proof (cases "w < 9")
  case False
  with assms have "rd raw 0 = Some (raw ! 0)" "rd raw 1 = Some (raw ! 1)"
    by (auto simp: word_less_nat_alt rd_def)
  with False assms(2) show ?thesis by (auto simp: usbyi_sanitize_config_descriptor_def)
qed (simp add: usbyi_sanitize_config_descriptor_def)

lemma sanitize_good_header:
  assumes "unat w \<le> length raw" "\<not> w < 9" "raw ! 1 = 2" "raw ! 0 = 9"
    and "new_cfg (config_desc_of_bytes 0 (take 9 raw)) h = (res, h1)"
  shows "usbyi_sanitize_config_descriptor raw w h =
    (if res = 0 then Some (err LIBUSBY_ERROR_NO_MEM, None, h1) else
     (case new_intfs (replicate (unat (cd_bNumInterfaces (config_desc_of_bytes 0 (take 9 raw)))) zero_interface) h1
      of (ip, h2) \<Rightarrow>
     (if ip = 0 then Some (False, h2\<lparr>cfgs := (cfgs h2)(res \<mapsto> (config_desc_of_bytes 0 (take 9 raw))\<lparr>cd_interface := ip\<rparr>)\<rparr>)
      else sanitize_loop raw 9 (unat w - 9) res \<lparr>ps_intf_desc = None, ps_endp_index = 0\<rparr>
        (h2\<lparr>cfgs := (cfgs h2)(res \<mapsto> (config_desc_of_bytes 0 (take 9 raw))\<lparr>cd_interface := ip\<rparr>)\<rparr>)
        \<bind> (\<lambda>(r, h). sanitize_verdict res r h)) \<bind>
     (\<lambda>(ok, h). if ok then Some (err LIBUSBY_SUCCESS, Some res, h)
       else libusby_free_config_descriptor res h \<bind> (\<lambda>h. Some (err LIBUSBY_ERROR_IO, None, h)))))"
proof -
  have "9 \<le> length raw" using assms(1,2) by (simp add: word_less_nat_alt)
  then have "rd raw 0 = Some (raw ! 0)" "rd raw 1 = Some (raw ! 1)" "rd_block raw 0 9 = Some (take 9 raw)"
    by (auto simp: rd_def rd_block_def)
  then show ?thesis
    using assms by (simp add: usbyi_sanitize_config_descriptor_def Let_def split: prod.split)
qed

lemma sanitize_verdict_inv:
  assumes "sanitize_verdict res r h = Some (b, h')" "cfg_inv h0 res c is h"
  shows "h' = h" "b \<Longrightarrow> \<forall>i \<in> set is. if_num_altsetting i \<noteq> 0"
proof -
  have "cfgs h res = Some c" "intfs h (cd_interface c) = Some is" "length is = unat (cd_bNumInterfaces c)"
    using assms(2) by (simp_all add: cfg_inv_def)
  then show "h' = h" "b \<Longrightarrow> \<forall>i \<in> set is. if_num_altsetting i \<noteq> 0"
    using assms(1)
    by (auto simp: sanitize_verdict_def monad_simps list_all_iff split: option.splits if_splits)
qed

lemma new_cfg_cases:
  assumes "new_cfg c h = (res, h1)" "fresh_heap h"
  obtains (fail) "res = 0" "h1 = h\<lparr>n_mallocs := Suc (n_mallocs h)\<rparr>" "\<not> plenty h"
  | (ok) "res \<noteq> 0" "res = next_addr h" "h1 = h\<lparr>n_mallocs := Suc (n_mallocs h),
      next_addr := next_addr h + 24, cfgs := (cfgs h)(next_addr h \<mapsto> c)\<rparr>"
  using assms fresh_heapD(1) [OF assms(2)]
  by (auto simp: new_cfg_def malloc_def Let_def plenty_def split: if_splits)

lemma new_intfs_cases:
  assumes "new_intfs xs h = (ip, h1)" "fresh_heap h"
  obtains (fail) "ip = 0" "h1 = h\<lparr>n_mallocs := Suc (n_mallocs h)\<rparr>" "\<not> plenty h"
  | (ok) "ip \<noteq> 0" "ip = next_addr h" "h1 = h\<lparr>n_mallocs := Suc (n_mallocs h),
      next_addr := next_addr h + max 1 (16 * length xs), intfs := (intfs h)(next_addr h \<mapsto> xs)\<rparr>"
  using assms fresh_heapD(1) [OF assms(2)]
  by (auto simp: new_intfs_def malloc_def Let_def plenty_def split: if_splits)

lemma new_cfg_fresh: "new_cfg c h = (res, h1) \<Longrightarrow> fresh_heap h \<Longrightarrow> fresh_heap h1"
  by (erule (1) new_cfg_cases, simp, erule fresh_heap_grow)
    (auto simp: live_def split: if_splits)

text \<open>The outcomes of the parser.\<close>

lemma sanitize_outcomes:
  assumes fr: "fresh_heap h" and w: "unat w \<le> length raw"
    and run: "usbyi_sanitize_config_descriptor raw w h = Some (r, p, h')"
  obtains (failed) "r = err LIBUSBY_ERROR_IO \<or> r = err LIBUSBY_ERROR_NO_MEM" "p = None" "same_blocks h' h"
  | (parsed) res c "is" where "r = err LIBUSBY_SUCCESS" "p = Some res" "cfg_inv h res c is h'"
      "\<forall>i \<in> set is. if_num_altsetting i \<noteq> 0"
proof (cases "w < 9 \<or> raw ! 1 \<noteq> 2 \<or> raw ! 0 \<noteq> 9")
  case True
  with run have "r = err LIBUSBY_ERROR_IO \<and> p = None \<and> h' = h"
    by (simp add: sanitize_bad_header [OF w])
  then show ?thesis by (intro failed) (auto simp: same_blocks_def)
next
  case False
  then have hdr: "\<not> w < 9" "raw ! 1 = 2" "raw ! 0 = 9" by auto
  define c where "c = config_desc_of_bytes 0 (take 9 raw)"
  obtain res h1 where res: "new_cfg c h = (res, h1)" by force
  obtain ip h2 where ip: "new_intfs (replicate (unat (cd_bNumInterfaces c)) zero_interface) h1 = (ip, h2)"
    by force
  note run = run [unfolded sanitize_good_header [OF w hdr, folded c_def, OF res] ip prod.case]
  show ?thesis
    using res fr
  proof (cases rule: new_cfg_cases)
    case fail
    then show ?thesis using run by (intro failed) (auto simp: same_blocks_def)
  next
    case c_ok: ok
    show ?thesis
      using ip new_cfg_fresh [OF res fr]
    proof (cases rule: new_intfs_cases)
      case fail
      then show ?thesis
        using run c_ok fresh_heapD(2) [OF fr]
        by (intro failed)
          (auto simp: libusby_free_config_descriptor_def free_block_ok same_blocks_def fun_upd_idem)
    next
      case ok
      let ?c' = "c\<lparr>cd_interface := ip\<rparr>"
      note inv3 = cfg_inv_start [OF fr res c_ok(1) ip ok(1)]
      from run c_ok(1) ok(1) obtain r1 h4 b h5 where
        loop: "sanitize_loop raw 9 (unat w - 9) res \<lparr>ps_intf_desc = None, ps_endp_index = 0\<rparr>
          (h2\<lparr>cfgs := (cfgs h2)(res \<mapsto> ?c')\<rparr>) = Some (r1, h4)" and
        verdict: "sanitize_verdict res r1 h4 = Some (b, h5)" and
        out: "(if b then Some (err LIBUSBY_SUCCESS, Some res, h5)
          else libusby_free_config_descriptor res h5 \<bind> (\<lambda>h. Some (err LIBUSBY_ERROR_IO, None, h)))
          = Some (r, p, h')"
        by (simp only: bind_Some_conv if_False split_paired_Ex prod.case) blast
      have "9 + (unat w - 9) \<le> length raw" using w hdr(1) by (simp add: word_less_nat_alt)
      then obtain is4 where inv4: "cfg_inv h res ?c' is4 h4"
        using sanitize_loop_inv [OF inv3 _ _ loop] by (auto simp: st_inv_def)
      note v = sanitize_verdict_inv [OF verdict inv4]
      show ?thesis
      proof (cases b)
        case True
        then show ?thesis using out v inv4 by (intro parsed) auto
      next
        case False
        then show ?thesis using out v(1) free_config_inv [OF inv4] by (intro failed) auto
      qed
    qed
  qed
qed

end
