(* ===== verification/Config_Refine.thy ===== *)
theory Config_Refine
  imports Config_Spec
begin

text \<open>
  The heap parser \<^verbatim>\<open>usbyi_sanitize_config_descriptor\<close> simulates the abstract
  parser of \<open>Config_Spec\<close> step by step as long as no allocation fails: each descriptor is
  rejected by both, undefined in both, or accepted by both with related states.
\<close>

section \<open>The simulation relation\<close>

text \<open>An array of endpoints has its final length from the start and is padded with zeros.\<close>

definition alt_rel :: "(addr \<rightharpoonup> libusby_endpoint_descriptor list) \<Rightarrow> libusby_interface_descriptor
    \<Rightarrow> alt_setting \<Rightarrow> bool" where
  "alt_rel m d a \<longleftrightarrow> id_endpoint d \<noteq> 0 \<and> fst a = d\<lparr>id_endpoint := 0\<rparr> \<and>
     length (snd a) \<le> unat (id_bNumEndpoints d) \<and>
     m (id_endpoint d) = Some (snd a @ replicate (unat (id_bNumEndpoints d) - length (snd a)) zero_endpoint_desc)"

definition intf_rel :: "'x cfg_heap_scheme \<Rightarrow> libusby_interface \<Rightarrow> alt_setting list \<Rightarrow> bool" where
  "intf_rel h i as \<longleftrightarrow> list_all2 (alt_rel (endps h)) (alt_array (alts h) i) as"

definition cur_rel :: "libusby_interface list \<Rightarrow> parse_state \<Rightarrow> spec_state \<Rightarrow> bool" where
  "cur_rel is st s \<longleftrightarrow> (case ss_cur s of
     None \<Rightarrow> ps_intf_desc st = None
   | Some n \<Rightarrow> n < length is \<and> if_altsetting (is ! n) \<noteq> 0 \<and> ss_intfs s ! n \<noteq> [] \<and>
       ps_intf_desc st = Some (if_altsetting (is ! n), length (ss_intfs s ! n) - 1) \<and>
       ps_endp_index st = length (snd (last (ss_intfs s ! n))))"

definition sim :: "'x cfg_heap_scheme \<Rightarrow> addr \<Rightarrow> libusby_config_descriptor \<Rightarrow> libusby_interface list
    \<Rightarrow> 'x cfg_heap_scheme \<Rightarrow> parse_state \<Rightarrow> spec_state \<Rightarrow> bool" where
  "sim h0 res c is h st s \<longleftrightarrow> cfg_inv h0 res c is h \<and> list_all2 (intf_rel h) is (ss_intfs s) \<and>
     cur_rel is st s"

lemma alt_rel_mono: "alt_rel m d a \<Longrightarrow> m' (id_endpoint d) = m (id_endpoint d) \<Longrightarrow> alt_rel m' d a"
  by (simp add: alt_rel_def)

lemma alt_rel_ptr: "alt_rel m d a \<Longrightarrow> id_endpoint d \<noteq> 0 \<and> m (id_endpoint d) \<noteq> None"
  by (simp add: alt_rel_def)

lemma intf_rel_len: "intf_rel h i as \<Longrightarrow> length as = length (alt_array (alts h) i)"
  by (simp add: intf_rel_def list_all2_lengthD)

lemma alt_rels_mono:
  assumes "list_all2 (alt_rel m) ds as"
    and "\<And>d. d \<in> set ds \<Longrightarrow> id_endpoint d \<noteq> 0 \<Longrightarrow> id_endpoint d \<in> dom m \<Longrightarrow> m' (id_endpoint d) = m (id_endpoint d)"
  shows "list_all2 (alt_rel m') ds as"
  using assms(1)
proof (rule list.rel_mono_strong)
  fix d a
  assume "d \<in> set ds" "alt_rel m d a"
  then show "alt_rel m' d a"
    using alt_rel_mono [of m d a m'] alt_rel_ptr [of m d a] assms(2) [of d] by blast
qed

text \<open>An interface whose array and whose endpoint arrays are left alone stays related.\<close>

lemma intf_rel_other:
  assumes "intf_rel h i as" "alt_array (alts h') i = alt_array (alts h) i"
    and "\<And>d. d \<in> set (alt_array (alts h) i) \<Longrightarrow> id_endpoint d \<noteq> 0 \<Longrightarrow> id_endpoint d \<in> dom (endps h) \<Longrightarrow>
      endps h' (id_endpoint d) = endps h (id_endpoint d)"
  shows "intf_rel h' i as"
  using assms(1) unfolding intf_rel_def assms(2) by (rule alt_rels_mono) (rule assms(3))

lemma intf_rels_other:
  assumes "list_all2 (intf_rel h) is bs"
    and "\<And>i. i \<in> set is \<Longrightarrow> alt_array (alts h') i = alt_array (alts h) i"
    and "\<And>i d. i \<in> set is \<Longrightarrow> d \<in> set (alt_array (alts h) i) \<Longrightarrow> id_endpoint d \<noteq> 0 \<Longrightarrow>
      id_endpoint d \<in> dom (endps h) \<Longrightarrow> endps h' (id_endpoint d) = endps h (id_endpoint d)"
  shows "list_all2 (intf_rel h') is bs"
  using assms(1)
proof (rule list.rel_mono_strong)
  fix i b
  assume i: "i \<in> set is" and "intf_rel h i b"
  from this(2) assms(2) [OF i] assms(3) [OF i] show "intf_rel h' i b"
    by (rule intf_rel_other)
qed

lemma sim_complete:
  assumes "sim h0 res c is h st s"
  shows "endpoints_complete st h = Some (cur_complete s)"
proof (cases "ss_cur s")
  case None
  then show ?thesis using assms by (simp add: sim_def cur_rel_def endpoints_complete_def cur_complete_def)
next
  case (Some n)
  define as where "as = ss_intfs s ! n"
  have n: "n < length is" "if_altsetting (is ! n) \<noteq> 0" "as \<noteq> []"
    "ps_intf_desc st = Some (if_altsetting (is ! n), length as - 1)"
    "ps_endp_index st = length (snd (last as))"
    using assms Some by (simp_all add: sim_def cur_rel_def as_def)
  let ?ds = "alt_array (alts h) (is ! n)"
  have rel: "list_all2 (alt_rel (endps h)) ?ds as"
    using assms n(1) list_all2_nthD [of "intf_rel h" "is" "ss_intfs s" n]
    by (simp add: sim_def as_def intf_rel_def)
  then have len: "length ?ds = length as" by (rule list_all2_lengthD)
  have "owned h0 h is" using assms by (simp add: sim_def cfg_inv_def)
  then have ds: "alts h (if_altsetting (is ! n)) = Some ?ds"
    using owned_array n(1,2) nth_mem by blast
  have "alt_rel (endps h) (?ds ! (length as - 1)) (as ! (length as - 1))"
    by (rule list_all2_nthD2 [OF rel]) (use n(3) in simp)
  then show ?thesis
    using n(3-) ds len Some
    by (simp add: endpoints_complete_def cur_complete_def alt_complete_def as_def [symmetric]
      last_conv_nth alt_rel_def)
qed

section \<open>One descriptor\<close>

lemma unat_u8_eq: "unat (a :: u8) = unat b \<longleftrightarrow> a = b"
  by (simp add: word_unat_eq_iff)

lemma rd_take: "k < n \<Longrightarrow> off + n \<le> length raw \<Longrightarrow> take n (drop off raw) ! k = raw ! (off + k)"
  by simp

lemma sanitize_interface_sim:
  assumes sim: "sim h0 res c is h st s" and plenty: "plenty h"
    and raw: "off + unat (raw ! off) \<le> length raw" "2 \<le> unat (raw ! off)"
  defines "d \<equiv> take (unat (raw ! off)) (drop off raw)"
  shows "case spec_interface d s of
     Undef \<Rightarrow> sanitize_interface raw off res st h = None
   | Reject \<Rightarrow> sanitize_interface raw off res st h = Some (None, h)
   | Accept s' \<Rightarrow> \<exists>st' h' is'. sanitize_interface raw off res st h = Some (Some st', h') \<and>
       sim h0 res c is' h' st' s' \<and> plenty h'"
proof -
  have inv: "cfg_inv h0 res c is h" and rel: "list_all2 (intf_rel h) is (ss_intfs s)"
    using sim by (simp_all add: sim_def)
  have c: "cfgs h res = Some c" "intfs h (cd_interface c) = Some is" "length is = unat (cd_bNumInterfaces c)"
    using inv by (simp_all add: cfg_inv_def)
  have len_s: "length (ss_intfs s) = length is" using rel by (simp add: list_all2_lengthD)
  have dlen: "length d = unat (raw ! off)" using raw by (simp add: d_def)
  have nine: "length d = 9 \<longleftrightarrow> raw ! off = 9"
    unfolding dlen using unat_u8_eq [of "raw ! off" 9] by simp
  note rd0 = rd_in [of off raw]
  have in0: "off < length raw" using raw by linarith
  show ?thesis
  proof (cases "cur_complete s \<and> raw ! off = 9")
    case False
    then have "spec_interface d s = Reject" using nine by (auto simp: spec_interface_def)
    moreover have "sanitize_interface raw off res st h = Some (None, h)"
      using False sim_complete [OF sim] in0 by (auto simp: sanitize_interface_def)
    ultimately show ?thesis by simp
  next
    case True
    then have raw9: "off + 9 \<le> length raw" using raw(1) by simp
    have d9: "d = take 9 (drop off raw)" using True by (simp add: d_def)
    have d23: "d ! 2 = raw ! (off + 2)" "d ! 3 = raw ! (off + 3)" using raw9 by (simp_all add: d9)
    define nr alt where "nr = raw ! (off + 2)" and "alt = raw ! (off + 3)"
    have unfold: "sanitize_interface raw off res st h =
        (if nr \<ge> cd_bNumInterfaces c then Some (None, h)
         else add_altsetting raw off (cd_interface c) is nr alt h)"
      using True sim_complete [OF sim] in0 raw9 by (simp add: sanitize_interface_def c nr_def alt_def)
    show ?thesis
    proof (cases "unat nr < length is")
      case False
      then have "spec_interface d s = Reject"
        using d23 len_s by (auto simp: spec_interface_def nr_def)
      then show ?thesis using False unfold c(3) by (simp add: word_le_nat_alt)
    next
      case nr: True
      define xs i ys where "xs = take (unat nr) is" and "i = is ! unat nr" and "ys = drop (Suc (unat nr)) is"
      have is_split: "is = xs @ i # ys" "length xs = unat nr"
        using nr by (simp_all add: xs_def i_def ys_def id_take_nth_drop)
      define as where "as = ss_intfs s ! unat nr"
      have i_rel: "intf_rel h i as" using rel nr by (auto simp: as_def i_def dest: list_all2_nthD)
      have own: "owned h0 h is" using inv by (simp add: cfg_inv_def)
      have num: "if_num_altsetting i = int (length as)"
        using owned_num [OF own, of i] intf_rel_len [OF i_rel] is_split(1) by simp
      have ge: "\<not> cd_bNumInterfaces c \<le> nr" using nr c(3) by (simp add: word_le_nat_alt)
      show ?thesis
      proof (cases "unat alt = length as")
        case False
        then have "spec_interface d s = Reject"
          using d23 by (auto simp: spec_interface_def nr_def alt_def as_def)
        moreover have "uint alt \<noteq> if_num_altsetting i" using False num by (metis of_nat_eq_iff uint_nat)
        then have "add_altsetting raw off (cd_interface c) is nr alt h = Some (None, h)"
          using nr by (simp add: add_altsetting_def i_def)
        ultimately show ?thesis using unfold ge by simp
      next
        case alt: True
        define s' where "s' = \<lparr> ss_intfs = (ss_intfs s)[unat nr := as @ [(interface_desc_of_bytes 0 d, [])]],
           ss_cur = Some (unat nr) \<rparr>"
        have spec: "spec_interface d s = Accept s'"
          using True nine d23 nr alt len_s
          by (simp add: spec_interface_def s'_def nr_def alt_def as_def)
        have "uint alt = if_num_altsetting i" using alt num by (metis uint_nat)
        note cases = add_altsetting_cases [OF inv [unfolded is_split(1)] is_split(2) [symmetric] this raw9]
        obtain h' p e where
          add: "add_altsetting raw off (cd_interface c) is nr alt h =
            Some (Some \<lparr>ps_intf_desc = Some (p, unat alt), ps_endp_index = 0\<rparr>, h')"
          and inv': "cfg_inv h0 res c (xs @ i\<lparr>if_altsetting := p, if_num_altsetting := if_num_altsetting i + 1\<rparr> # ys) h'"
          and pe: "p \<noteq> 0" "e \<noteq> 0" "alts h p = None" "endps h e = None"
          and alts': "alts h' = (alts h)(if_altsetting i := None,
            p \<mapsto> alt_array (alts h) i @ [interface_desc_of_bytes 0 d\<lparr>id_endpoint := e\<rparr>])"
          and endps': "endps h' = (endps h)(e \<mapsto>
            replicate (unat (id_bNumEndpoints (interface_desc_of_bytes 0 d))) zero_endpoint_desc)"
          and plenty': "plenty h'"
          by (rule cases) (use plenty is_split(1) in \<open>auto simp: d9\<close>)
        let ?i' = "i\<lparr>if_altsetting := p, if_num_altsetting := if_num_altsetting i + 1\<rparr>"
        let ?d = "interface_desc_of_bytes 0 d"
        have e_old: "endps h' a = endps h a" if "a \<in> dom (endps h)" for a
          using that pe by (auto simp: endps')
        have "distinct (alt_ptrs is)" "set (alt_ptrs is) \<subseteq> dom (alts h)"
          using own unfolding owned_def by blast+
        then have notin: "p \<notin> set (alt_ptrs zs)" "if_altsetting i \<notin> set (alt_ptrs zs)"
          if "zs = xs \<or> zs = ys" for zs
          using pe that unfolding is_split(1) by (cases "if_altsetting i = 0"; auto)+
        have arr: "alt_array (alts h') j = alt_array (alts h) j" if "j \<in> set zs" "zs = xs \<or> zs = ys" for j zs
          using alt_array_outside [OF that(1) notin(1) [OF that(2)]]
            alt_array_outside [OF that(1) notin(2) [OF that(2)]] by (simp add: alts')
        have others: "list_all2 (intf_rel h') zs bs"
          if "list_all2 (intf_rel h) zs bs" "zs = xs \<or> zs = ys" for zs bs
          using that(1) by (rule intf_rels_other) (use arr [OF _ that(2)] e_old in blast)+
        have "list_all2 (alt_rel (endps h')) (alt_array (alts h) i) as"
          using i_rel unfolding intf_rel_def by (rule alt_rels_mono) (rule e_old)
        moreover have "alt_rel (endps h') (?d\<lparr>id_endpoint := e\<rparr>) (?d, [])"
          using pe by (simp add: alt_rel_def endps' interface_desc_of_bytes_def)
        ultimately have i': "intf_rel h' ?i' (as @ [(?d, [])])"
          using pe(1) by (simp add: intf_rel_def alt_array_def [of _ ?i'] alts' list_all2_appendI)
        have ss: "ss_intfs s = take (unat nr) (ss_intfs s) @ as # drop (Suc (unat nr)) (ss_intfs s)"
          using nr len_s by (simp add: as_def id_take_nth_drop)
        have old: "list_all2 (intf_rel h) xs (take (unat nr) (ss_intfs s))"
          "list_all2 (intf_rel h) ys (drop (Suc (unat nr)) (ss_intfs s))"
          unfolding xs_def ys_def using rel by (auto intro: list_all2_takeI list_all2_dropI)
        have "list_all2 (intf_rel h') (xs @ ?i' # ys) (ss_intfs s')"
          using others [OF old(1)] others [OF old(2)] i' nr len_s
          by (simp add: s'_def upd_conv_take_nth_drop list_all2_appendI)
        moreover have "cur_rel (xs @ ?i' # ys) \<lparr>ps_intf_desc = Some (p, unat alt), ps_endp_index = 0\<rparr> s'"
          using pe(1) alt nr len_s is_split
          by (simp add: cur_rel_def s'_def nth_append del: is_split(1))
        ultimately have "sim h0 res c (xs @ ?i' # ys) h' \<lparr>ps_intf_desc = Some (p, unat alt), ps_endp_index = 0\<rparr> s'"
          using inv' by (simp add: sim_def)
        then show ?thesis using spec unfold ge add plenty' by auto
      qed
    qed
  qed
qed

text \<open>The descriptor at an offset, and its length byte.\<close>

lemma desc_length_conv:
  assumes "off + unat (raw ! off) \<le> length raw"
  shows "length (take (unat (raw ! off)) (drop off raw)) = n \<longleftrightarrow> unat (raw ! off) = n"
  using assms by auto

lemma list_all2_split_nth:
  assumes "list_all2 P xs ys" "n < length xs"
  shows "list_all2 P (take n xs) (take n ys)" "P (xs ! n) (ys ! n)"
    "list_all2 P (drop (Suc n) xs) (drop (Suc n) ys)"
  using assms by (auto intro: list_all2_takeI list_all2_dropI list_all2_nthD)

lemma sanitize_endpoint_sim:
  assumes sim: "sim h0 res c is h st s" and plenty: "plenty h"
    and raw: "off + unat (raw ! off) \<le> length raw" "2 \<le> unat (raw ! off)"
  defines "d \<equiv> take (unat (raw ! off)) (drop off raw)"
  shows "case spec_endpoint d s of
     Undef \<Rightarrow> sanitize_endpoint raw off st h = None
   | Reject \<Rightarrow> sanitize_endpoint raw off st h = Some (None, h)
   | Accept s' \<Rightarrow> \<exists>st' h'. sanitize_endpoint raw off st h = Some (Some st', h') \<and>
       sim h0 res c is h' st' s' \<and> plenty h'"
proof -
  have inv: "cfg_inv h0 res c is h" and rel: "list_all2 (intf_rel h) is (ss_intfs s)"
    and cur: "cur_rel is st s"
    using sim by (simp_all add: sim_def)
  have own: "owned h0 h is" using inv by (simp add: cfg_inv_def)
  have in0: "off < length raw" using raw by linarith
  have seven: "length d = 7 \<longleftrightarrow> raw ! off = 7"
    unfolding d_def desc_length_conv [OF raw(1)] using unat_u8_eq [of "raw ! off" 7] by simp
  show ?thesis
  proof (cases "raw ! off = 7 \<and> ss_cur s \<noteq> None")
    case False
    then show ?thesis
      using seven in0 cur
      by (cases "raw ! off = 7") (auto simp: spec_endpoint_def sanitize_endpoint_def cur_rel_def)
  next
    case True
    then obtain n where n: "ss_cur s = Some n" and r7: "raw ! off = 7" by auto
    have raw7: "off + 7 \<le> length raw" and d7: "d = take 7 (drop off raw)"
      using raw r7 by (simp_all add: d_def)
    define i as where "i = is ! n" and "as = ss_intfs s ! n"
    have c: "n < length is" "if_altsetting i \<noteq> 0" "as \<noteq> []"
      "ps_intf_desc st = Some (if_altsetting i, length as - 1)"
      "ps_endp_index st = length (snd (last as))"
      using cur n by (simp_all add: cur_rel_def i_def as_def)
    note rels = list_all2_split_nth [OF rel c(1), folded i_def as_def]
    have i_in: "i \<in> set is" using c(1) by (simp add: i_def)
    have arr: "alts h (if_altsetting i) = Some (alt_array (alts h) i)"
      by (rule owned_array [OF own i_in c(2)])
    obtain ds dn as' ai es where ds: "alt_array (alts h) i = ds @ [dn]" and as_split: "as = as' @ [(ai, es)]"
      and len: "length ds = length as'"
      using intf_rel_len [OF rels(2)] c(3)
      by (cases "alt_array (alts h) i" rule: rev_cases; cases as rule: rev_cases) auto
    have rel_ds: "list_all2 (alt_rel (endps h)) ds as'" and rel_d: "alt_rel (endps h) dn (ai, es)"
      using rels(2) len by (simp_all add: intf_rel_def ds as_split list_all2_append)
    define pad where "pad = unat (id_bNumEndpoints dn) - length es"
    have d: "id_endpoint dn \<noteq> 0" "ai = dn\<lparr>id_endpoint := 0\<rparr>"
      "endps h (id_endpoint dn) = Some (es @ replicate pad zero_endpoint_desc)"
      "length es \<le> unat (id_bNumEndpoints dn)"
      using rel_d by (simp_all add: alt_rel_def pad_def)
    have unfold: "sanitize_endpoint raw off st h = do {
        e \<leftarrow> rd (es @ replicate pad zero_endpoint_desc) (length es);
        es \<leftarrow> wr (es @ replicate pad zero_endpoint_desc) (length es)
          (endpoint_desc_of_bytes e d);
        Some (Some (st\<lparr>ps_endp_index := Suc (ps_endp_index st)\<rparr>),
          h\<lparr>endps := (endps h)(id_endpoint dn \<mapsto> es)\<rparr>) }"
      using raw7 r7 in0 c(4,5) arr ds len as_split d(3)
      by (simp add: sanitize_endpoint_def rd_block_def d7 nth_append)
    show ?thesis
    proof (cases "length es < unat (id_bNumEndpoints dn)")
      case False
      then have "pad = 0" by (simp add: pad_def)
      then have "sanitize_endpoint raw off st h = None" using unfold by simp
      moreover have "spec_endpoint d s = Undef"
        using False n r7 seven d(2) as_split by (simp add: spec_endpoint_def as_def [symmetric])
      ultimately show ?thesis by simp
    next
      case room: True
      then obtain pad' where pad': "pad = Suc pad'" "pad' = unat (id_bNumEndpoints dn) - Suc (length es)"
        by (metis Suc_diff_Suc pad_def)
      let ?e = "endpoint_desc_of_bytes zero_endpoint_desc d"
      define h' where "h' = h\<lparr>endps := (endps h)(id_endpoint dn \<mapsto> (es @ [?e]) @ replicate pad' zero_endpoint_desc)\<rparr>"
      let ?st = "st\<lparr>ps_endp_index := Suc (ps_endp_index st)\<rparr>"
      have run: "sanitize_endpoint raw off st h = Some (Some ?st, h')"
        using unfold pad' by (simp add: h'_def nth_append list_update_append)
      define s' where "s' = s\<lparr> ss_intfs := (ss_intfs s)[n := as' @ [(ai, es @ [?e])]] \<rparr>"
      have spec: "spec_endpoint d s = Accept s'"
        using room n r7 seven d(2) as_split
        by (simp add: spec_endpoint_def as_def [symmetric] s'_def)
      have "st_inv is st" using c i_in by (auto simp: st_inv_def intro: alt_ptrs_mem)
      then have inv': "cfg_inv h0 res c is h'" using sanitize_endpoint_inv [OF inv _ run] by simp
      have is_split: "is = take n is @ i # drop (Suc n) is" using c(1) by (simp add: i_def id_take_nth_drop)
      have "distinct (all_endps (alts h) is)" using own unfolding owned_def by blast
      then have "distinct (all_endps (alts h) (take n is @ i # drop (Suc n) is))" using is_split by simp
      then have dist: "id_endpoint dn \<notin> set (all_endps (alts h) (take n is))"
        "id_endpoint dn \<notin> set (all_endps (alts h) (drop (Suc n) is))"
        "id_endpoint dn \<notin> set (endp_ptrs ds)"
        using d(1) by (auto simp: ds)
      have alts': "alts h' = alts h" by (simp add: h'_def)
      have others: "list_all2 (intf_rel h') zs bs"
        if "list_all2 (intf_rel h) zs bs" "id_endpoint dn \<notin> set (all_endps (alts h) zs)" for zs bs
        using that(1)
      proof (rule intf_rels_other)
        fix j dj
        assume "j \<in> set zs" "dj \<in> set (alt_array (alts h) j)" "id_endpoint dj \<noteq> 0"
        then have "id_endpoint dj \<in> set (all_endps (alts h) zs)"
          by (auto simp: all_endps_def endp_ptrs_def)
        then show "endps h' (id_endpoint dj) = endps h (id_endpoint dj)"
          using that(2) by (auto simp: h'_def)
      qed (simp add: alts')
      have "list_all2 (alt_rel (endps h')) ds as'"
        using rel_ds
        by (rule alt_rels_mono) (use dist(3) d(1) in \<open>auto simp: h'_def endp_ptrs_def image_iff\<close>)
      moreover have "alt_rel (endps h') dn (ai, es @ [?e])"
        using d room pad'(2) by (simp add: alt_rel_def h'_def)
      ultimately have "intf_rel h' i (as' @ [(ai, es @ [?e])])"
        by (simp add: intf_rel_def alts' ds list_all2_appendI)
      moreover have "n < length (ss_intfs s)" using c(1) rel by (simp add: list_all2_lengthD)
      ultimately have "list_all2 (intf_rel h') (take n is @ i # drop (Suc n) is) (ss_intfs s')"
        using others [OF rels(1) dist(1)] others [OF rels(3) dist(2)]
        by (simp add: s'_def upd_conv_take_nth_drop list_all2_appendI)
      moreover have "cur_rel is ?st s'"
        using c n \<open>n < length (ss_intfs s)\<close> as_split
        by (simp add: cur_rel_def s'_def i_def)
      ultimately have "sim h0 res c is h' ?st s'"
        using inv' is_split by (simp add: sim_def)
      then show ?thesis using spec run plenty by (simp add: plenty_def h'_def)
    qed
  qed
qed

section \<open>The loop and the whole parser\<close>

lemma sanitize_desc_sim:
  assumes sim: "sim h0 res c is h st s" and plenty: "plenty h"
    and raw: "off + unat (raw ! off) \<le> length raw" "2 \<le> unat (raw ! off)"
  defines "d \<equiv> take (unat (raw ! off)) (drop off raw)"
  shows "case spec_desc d s of
     Undef \<Rightarrow> sanitize_desc raw off res st h = None
   | Reject \<Rightarrow> sanitize_desc raw off res st h = Some (None, h)
   | Accept s' \<Rightarrow> \<exists>st' h' is'. sanitize_desc raw off res st h = Some (Some st', h') \<and>
       sim h0 res c is' h' st' s' \<and> plenty h'"
proof -
  have in1: "off + 1 < length raw" and d1: "d ! 1 = raw ! (off + 1)"
    using raw by (auto simp: d_def)
  consider "d ! 1 = 4" | "d ! 1 = 5" | "d ! 1 \<noteq> 4" "d ! 1 \<noteq> 5" by blast
  then show ?thesis
  proof cases
    case 1
    show ?thesis
      using sanitize_interface_sim [OF sim plenty raw, folded d_def] 1
      unfolding sanitize_desc_branches(1) [OF in1 1 [unfolded d1]]
      by (simp add: spec_desc_def)
  next
    case 2
    show ?thesis
      using sanitize_endpoint_sim [OF sim plenty raw, folded d_def] 2
      unfolding sanitize_desc_branches(2) [OF in1 2 [unfolded d1]]
      by (auto simp: spec_desc_def split: outcome.splits)
  next
    case 3
    show ?thesis
      using 3 sim plenty unfolding sanitize_desc_branches(3) [OF in1 3 [unfolded d1]]
      by (auto simp: spec_desc_def)
  qed
qed

lemma sanitize_loop_sim:
  assumes "sim h0 res c is h st s" "plenty h" "off + remaining \<le> length raw"
  shows "case spec_loop (take remaining (drop off raw)) s of
     Undef \<Rightarrow> sanitize_loop raw off remaining res st h = None
   | Reject \<Rightarrow> \<exists>h' is'. sanitize_loop raw off remaining res st h = Some (None, h') \<and> cfg_inv h0 res c is' h'
   | Accept s' \<Rightarrow> \<exists>st' h' is'. sanitize_loop raw off remaining res st h = Some (Some st', h') \<and>
       sim h0 res c is' h' st' s' \<and> plenty h'"
  using assms
proof (induction "remaining" arbitrary: off st h "is" s rule: less_induct)
  case (less remaining)
  show ?case
  proof (cases remaining)
    case 0
    then show ?thesis using less.prems by (auto simp: sanitize_loop.simps [of raw off])
  next
    case (Suc m)
    let ?len = "unat (raw ! off)"
    have in0: "off < length raw" using less.prems(3) Suc by linarith
    have split: "take remaining (drop off raw) = raw ! off # take m (drop (Suc off) raw)"
      using in0 Suc by (metis Cons_nth_drop_Suc take_Suc_Cons)
    have lenb: "Suc (length (take m (drop (Suc off) raw))) = remaining"
      using less.prems(3) Suc by simp
    show ?thesis
    proof (cases "remaining < ?len \<or> ?len < 2")
      case True
      then have "sanitize_loop raw off remaining res st h = Some (None, h)"
        using in0 Suc by (simp add: sanitize_loop.simps [of raw off])
      moreover have "spec_loop (take remaining (drop off raw)) s = Reject"
        unfolding split using True lenb by simp
      ultimately show ?thesis using less.prems(1) by (auto simp: sim_def)
    next
      case False
      define d where "d = take ?len (drop off raw)"
      have raw: "off + ?len \<le> length raw" "2 \<le> ?len" using False less.prems(3) by auto
      have d: "take ?len (raw ! off # take m (drop (Suc off) raw)) = d"
        unfolding split [symmetric] d_def using False by simp
      have rest: "drop ?len (raw ! off # take m (drop (Suc off) raw))
          = take (remaining - ?len) (drop (off + ?len) raw)"
        unfolding split [symmetric] by (simp add: drop_take add.commute)
      have spec: "spec_loop (take remaining (drop off raw)) s = (case spec_desc d s of
          Accept s' \<Rightarrow> spec_loop (take (remaining - ?len) (drop (off + ?len) raw)) s'
        | Undef \<Rightarrow> Undef | Reject \<Rightarrow> Reject)"
        unfolding split by (subst spec_loop.simps) (simp only: d rest lenb False if_False)
      have run: "sanitize_loop raw off remaining res st h =
          sanitize_desc raw off res st h \<bind> (\<lambda>(r, h). case r of None \<Rightarrow> Some (None, h)
            | Some st \<Rightarrow> sanitize_loop raw (off + ?len) (remaining - ?len) res st h)"
        using in0 Suc False by (simp add: sanitize_loop.simps [of raw off] cong: option.case_cong)
      note step = sanitize_desc_sim [OF less.prems(1,2) raw, folded d_def]
      show ?thesis
      proof (cases "spec_desc d s")
        case Undef
        then show ?thesis using step by (simp add: spec run)
      next
        case Reject
        then show ?thesis using step less.prems(1) by (auto simp: spec run sim_def)
      next
        case (Accept s1)
        then obtain st1 h1 is1 where s1: "sanitize_desc raw off res st h = Some (Some st1, h1)"
          "sim h0 res c is1 h1 st1 s1" "plenty h1"
          using step by auto
        have "remaining - ?len < remaining" "off + ?len + (remaining - ?len) \<le> length raw"
          using False less.prems(3) Suc by auto
        note IH = less.IH [OF this(1) s1(2,3) this(2)]
        have next_desc: "sanitize_loop raw off remaining res st h =
            sanitize_loop raw (off + ?len) (remaining - ?len) res st1 h1"
          unfolding run s1(1) by simp
        show ?thesis
          using IH unfolding spec Accept next_desc by simp
      qed
    qed
  qed
qed

text \<open>When every alternate setting is complete there is no padding, and the tree can be read back.\<close>

lemma sim_read:
  assumes sim: "sim h0 res c is h st s" and inv: "spec_inv s" "cur_complete s"
  shows "read_config h res = Some (c\<lparr>cd_interface := 0\<rparr>, ss_intfs s)"
proof -
  have ci: "cfg_inv h0 res c is h" and rel: "list_all2 (intf_rel h) is (ss_intfs s)"
    using sim by (simp_all add: sim_def)
  have own: "owned h0 h is" using ci by (simp add: cfg_inv_def)
  have one: "read_intf h i = Some as" if i: "i \<in> set is" and as: "as \<in> set (ss_intfs s)" "intf_rel h i as" for i as
  proof -
    have "map (read_alt h) (alt_array (alts h) i) = map Some as"
    proof (rule nth_equalityI)
      show "length (map (read_alt h) (alt_array (alts h) i)) = length (map Some as)"
        using intf_rel_len [OF as(2)] by simp
      fix k
      assume "k < length (map (read_alt h) (alt_array (alts h) i))"
      then have k: "k < length (alt_array (alts h) i)" "k < length as"
        using intf_rel_len [OF as(2)] by simp_all
      have "alt_rel (endps h) (alt_array (alts h) i ! k) (as ! k)"
        using as(2) k by (simp add: intf_rel_def list_all2_nthD)
      moreover have "alt_complete (as ! k)"
        using spec_inv_all_complete [OF inv as(1)] k(2) by simp
      ultimately show "map (read_alt h) (alt_array (alts h) i) ! k = map Some as ! k"
        using k by (cases "as ! k") (simp add: read_alt_def alt_rel_def alt_complete_def)
    qed
    then have those: "those (map (read_alt h) (alt_array (alts h) i)) = Some as"
      by (simp add: those_Some)
    show ?thesis
    proof (cases "if_altsetting i = 0")
      case True
      then show ?thesis
        using intf_rel_len [OF as(2)] by (simp add: read_intf_def alt_array_def)
    next
      case False
      then show ?thesis
        by (simp add: read_intf_def owned_array [OF own i False] those)
    qed
  qed
  have "map (read_intf h) is = map Some (ss_intfs s)"
  proof (rule nth_equalityI)
    show len: "length (map (read_intf h) is) = length (map Some (ss_intfs s))"
      using list_all2_lengthD [OF rel] by simp
    fix k
    assume "k < length (map (read_intf h) is)"
    then have k: "k < length is" "k < length (ss_intfs s)" using len by simp_all
    have "read_intf h (is ! k) = Some (ss_intfs s ! k)"
      by (rule one [OF nth_mem [OF k(1)] nth_mem [OF k(2)] list_all2_nthD [OF rel k(1)]])
    then show "map (read_intf h) is ! k = map Some (ss_intfs s) ! k" using k by simp
  qed
  then have "those (map (read_intf h) is) = Some (ss_intfs s)" by (simp add: those_Some)
  then show ?thesis
    using ci by (simp add: read_config_def cfg_inv_def)
qed

lemma sim_start:
  assumes "cfg_inv h0 res c (replicate n zero_interface) h"
  shows "sim h0 res c (replicate n zero_interface) h \<lparr>ps_intf_desc = None, ps_endp_index = 0\<rparr>
    \<lparr> ss_intfs = replicate n [], ss_cur = None \<rparr>"
  using assms
  by (simp add: sim_def cur_rel_def intf_rel_def alt_array_def zero_interface_def list_all2_conv_all_nth)

lemma sim_verdict:
  assumes "sim h0 res c is h st s"
  shows "sanitize_verdict res (Some st) h = Some (cur_complete s \<and> [] \<notin> set (ss_intfs s), h)"
proof -
  have ci: "cfg_inv h0 res c is h" and rel: "list_all2 (intf_rel h) is (ss_intfs s)"
    using assms by (simp_all add: sim_def)
  have own: "owned h0 h is" using ci by (simp add: cfg_inv_def)
  have "if_num_altsetting (is ! k) \<noteq> 0 \<longleftrightarrow> ss_intfs s ! k \<noteq> []" if "k < length is" for k
    using owned_num [OF own, of "is ! k"] intf_rel_len [OF list_all2_nthD [OF rel that]] that by auto
  moreover have "length is = length (ss_intfs s)" using rel by (rule list_all2_lengthD)
  ultimately have "list_all (\<lambda>i. if_num_altsetting i \<noteq> 0) is \<longleftrightarrow> [] \<notin> set (ss_intfs s)"
    by (simp add: list_all_length in_set_conv_nth)
  then show ?thesis
    using ci sim_complete [OF assms] by (simp add: sanitize_verdict_def cfg_inv_def)
qed

lemma sanitize_refines_spec:
  assumes fr: "fresh_heap h" and plenty: "plenty h" and w: "unat w \<le> length raw"
  shows "case spec_config (take (unat w) raw) of
     Undef \<Rightarrow> usbyi_sanitize_config_descriptor raw w h = None
   | Reject \<Rightarrow> \<exists>h'. usbyi_sanitize_config_descriptor raw w h = Some (err LIBUSBY_ERROR_IO, None, h')
   | Accept t \<Rightarrow> \<exists>p h'. usbyi_sanitize_config_descriptor raw w h = Some (err LIBUSBY_SUCCESS, Some p, h') \<and>
       read_config h' p = Some t"
proof (cases "w < 9 \<or> raw ! 1 \<noteq> 2 \<or> raw ! 0 \<noteq> 9")
  case True
  then have "spec_config (take (unat w) raw) = Reject"
    using w by (cases "w < 9") (auto simp: spec_config_def word_less_nat_alt)
  then show ?thesis by (simp add: sanitize_bad_header [OF w True])
next
  case False
  then have hdr: "\<not> w < 9" "raw ! 1 = 2" "raw ! 0 = 9" by auto
  have w9: "9 \<le> unat w" using hdr(1) by (simp add: word_less_nat_alt)
  define c where "c = config_desc_of_bytes 0 (take 9 raw)"
  let ?n = "unat (cd_bNumInterfaces c)"
  let ?s = "\<lparr> ss_intfs = replicate ?n [], ss_cur = None \<rparr>"
  have spec: "spec_config (take (unat w) raw) = (case spec_loop (take (unat w - 9) (drop 9 raw)) ?s of
        Accept s \<Rightarrow> if cur_complete s \<and> [] \<notin> set (ss_intfs s) then Accept (c, ss_intfs s) else Reject
      | Undef \<Rightarrow> Undef | Reject \<Rightarrow> Reject)"
    using w w9 hdr by (simp add: spec_config_def c_def drop_take Let_def cong: outcome.case_cong if_cong)
  obtain res h1 where res: "new_cfg c h = (res, h1)" by force
  obtain ip h2 where ip: "new_intfs (replicate ?n zero_interface) h1 = (ip, h2)" by force
  have c_ok: "res \<noteq> 0" and "plenty h1"
    by (rule new_cfg_cases [OF res fr]; use plenty in \<open>simp add: plenty_def\<close>)+
  then have ip_ok: "ip \<noteq> 0" and "plenty h2"
    by (rule_tac [!] new_intfs_cases [OF ip new_cfg_fresh [OF res fr]]) (simp_all add: plenty_def)
  let ?c' = "c\<lparr>cd_interface := ip\<rparr>"
  define h3 where "h3 = h2\<lparr>cfgs := (cfgs h2)(res \<mapsto> ?c')\<rparr>"
  have "plenty h3" using \<open>plenty h2\<close> by (simp add: plenty_def h3_def)
  let ?st = "\<lparr>ps_intf_desc = None, ps_endp_index = 0\<rparr>"
  let ?run = "usbyi_sanitize_config_descriptor raw w h"
  have run: "?run = sanitize_loop raw 9 (unat w - 9) res ?st h3 \<bind> (\<lambda>(r, h). sanitize_verdict res r h) \<bind>
     (\<lambda>(ok, h). if ok then Some (err LIBUSBY_SUCCESS, Some res, h)
       else libusby_free_config_descriptor res h \<bind> (\<lambda>h. Some (err LIBUSBY_ERROR_IO, None, h)))"
    unfolding sanitize_good_header [OF w hdr, folded c_def, OF res] using c_ok ip ip_ok
    by (simp add: h3_def)
  have sim: "sim h res ?c' (replicate ?n zero_interface) h3 ?st ?s"
    unfolding h3_def by (intro sim_start) (rule cfg_inv_start [OF fr res c_ok ip ip_ok])
  have fits: "9 + (unat w - 9) \<le> length raw" using w w9 by simp
  note loop = sanitize_loop_sim [OF sim \<open>plenty h3\<close> fits]
  show ?thesis
  proof (cases "spec_loop (take (unat w - 9) (drop 9 raw)) ?s")
    case Undef
    then show ?thesis using loop by (simp add: spec run)
  next
    case Reject
    then obtain h4 is4 where r: "sanitize_loop raw 9 (unat w - 9) res ?st h3 = Some (None, h4)"
      "cfg_inv h res ?c' is4 h4"
      using loop by auto
    then show ?thesis
      using free_config_inv [OF r(2)] by (auto simp: spec run Reject sanitize_verdict_def)
  next
    case (Accept s)
    then obtain st h4 is4 where a: "sanitize_loop raw 9 (unat w - 9) res ?st h3 = Some (Some st, h4)"
      "sim h res ?c' is4 h4 st s"
      using loop by auto
    have inv: "cfg_inv h res ?c' is4 h4" using a(2) by (simp add: sim_def)
    have "spec_inv s" using spec_loop_inv [OF spec_inv_start Accept] by simp
    moreover have "c\<lparr>cd_interface := 0\<rparr> = c" by (simp add: c_def config_desc_of_bytes_def)
    ultimately have read: "cur_complete s \<Longrightarrow> read_config h4 res = Some (c, ss_intfs s)"
      using sim_read [OF a(2)] by simp
    show ?thesis
    proof (cases "cur_complete s \<and> [] \<notin> set (ss_intfs s)")
      case True
      then show ?thesis
        using read by (simp add: spec run a(1) Accept sim_verdict [OF a(2)])
    next
      case False
      then show ?thesis
        using free_config_inv [OF inv] by (auto simp: spec run a(1) Accept sim_verdict [OF a(2)])
    qed
  qed
qed

end
