(* ===== verification/Config_Props.thy ===== *)
theory Config_Props
  imports Config_Refine
begin

text \<open>
  What the parser of configuration descriptors guarantees: no leak on any path, refinement of
  the abstract parser, the inverse of a serializer, the shape of what it accepts, and the
  inputs on which it has no defined behaviour.
\<close>

section \<open>A serializer for configurations\<close>

definition bytes_of_alt :: "alt_setting \<Rightarrow> u8 list" where
  "bytes_of_alt a = bytes_of_interface_desc (fst a) @ concat (map bytes_of_endpoint_desc (snd a))"

definition bytes_of_intf :: "alt_setting list \<Rightarrow> u8 list" where
  "bytes_of_intf as = concat (map bytes_of_alt as)"

definition bytes_of_config :: "config_tree \<Rightarrow> u8 list" where
  "bytes_of_config t = bytes_of_config_desc (fst t) @ concat (map bytes_of_intf (snd t))"

text \<open>Descriptors whose length and type bytes are those of their kind.\<close>

definition endpoint_ok :: "libusby_endpoint_descriptor \<Rightarrow> bool" where
  "endpoint_ok e \<longleftrightarrow> ed_bLength e = 7 \<and> ed_bDescriptorType e = 5 \<and> ed_bRefresh e = 0 \<and> ed_bSynchAddress e = 0"

text \<open>Alternate setting \<open>k\<close> of interface \<open>n\<close>.\<close>

definition alt_ok :: "nat \<Rightarrow> nat \<Rightarrow> alt_setting \<Rightarrow> bool" where
  "alt_ok n k a \<longleftrightarrow> id_bLength (fst a) = 9 \<and> id_bDescriptorType (fst a) = 4 \<and>
     unat (id_bInterfaceNumber (fst a)) = n \<and> unat (id_bAlternateSetting (fst a)) = k \<and>
     id_endpoint (fst a) = 0 \<and> alt_complete a \<and> list_all endpoint_ok (snd a)"

definition intf_ok :: "nat \<Rightarrow> alt_setting list \<Rightarrow> bool" where
  "intf_ok n as \<longleftrightarrow> as \<noteq> [] \<and> (\<forall>k < length as. alt_ok n k (as ! k))"

definition config_ok :: "config_tree \<Rightarrow> bool" where
  "config_ok t \<longleftrightarrow> cd_bLength (fst t) = 9 \<and> cd_bDescriptorType (fst t) = 2 \<and> cd_interface (fst t) = 0 \<and>
     unat (cd_bNumInterfaces (fst t)) = length (snd t) \<and> (\<forall>n < length (snd t). intf_ok n (snd t ! n))"

lemma spec_loop_desc:
  assumes "length d = unat (d ! 0)" "2 \<le> length d"
  shows "spec_loop (d @ rest) s = (case spec_desc d s of
    Accept s' \<Rightarrow> spec_loop rest s' | Undef \<Rightarrow> Undef | Reject \<Rightarrow> Reject)"
proof -
  from assms(2) obtain len d' where d: "d = len # d'" by (cases d) auto
  with assms have len: "unat len = Suc (length d')" "2 \<le> unat len" by simp_all
  have "drop (unat len) (len # d' @ rest) = rest" "take (unat len) (len # d' @ rest) = d"
    by (simp_all add: len(1) d)
  then show ?thesis
    unfolding d append_Cons spec_loop.simps(2) using len by (auto simp: d split: outcome.split)
qed

text \<open>Descriptors of other types are skipped.\<close>

lemma spec_loop_skip:
  assumes "length d = unat (d ! 0)" "2 \<le> length d" "d ! 1 \<noteq> 4" "d ! 1 \<noteq> 5"
  shows "spec_loop (d @ rest) s = spec_loop rest s"
  using assms by (simp add: spec_loop_desc spec_desc_def)

lemma desc_bytes_nth:
  "bytes_of_interface_desc d ! 0 = id_bLength d" "bytes_of_interface_desc d ! 1 = id_bDescriptorType d"
  "bytes_of_interface_desc d ! 2 = id_bInterfaceNumber d" "bytes_of_interface_desc d ! 3 = id_bAlternateSetting d"
  "bytes_of_endpoint_desc e ! 0 = ed_bLength e" "bytes_of_endpoint_desc e ! 1 = ed_bDescriptorType e"
  by (simp_all add: raw_desc_defs eval_nat_numeral)

lemma spec_loop_endpoint:
  assumes "endpoint_ok e" "length es < unat (id_bNumEndpoints d)"
  shows "spec_loop (bytes_of_endpoint_desc e @ rest) \<lparr> ss_intfs = xs @ (as @ [(d, es)]) # ys, ss_cur = Some (length xs) \<rparr>
    = spec_loop rest \<lparr> ss_intfs = xs @ (as @ [(d, es @ [e])]) # ys, ss_cur = Some (length xs) \<rparr>"
proof -
  have "endpoint_desc_of_bytes zero_endpoint_desc (bytes_of_endpoint_desc e) = e"
    using endpoint_desc_roundtrip [of e zero_endpoint_desc "[]"] assms(1)
    by (simp add: endpoint_ok_def zero_endpoint_desc_def)
  then show ?thesis
    using assms
    by (subst spec_loop_desc)
      (simp_all add: desc_bytes_nth desc_bytes_nth(6) [unfolded One_nat_def] endpoint_ok_def spec_desc_def
        spec_endpoint_def list_update_append)
qed

lemma spec_loop_endpoints:
  assumes "list_all endpoint_ok es'" "length es + length es' \<le> unat (id_bNumEndpoints d)"
  shows "spec_loop (concat (map bytes_of_endpoint_desc es') @ rest)
      \<lparr> ss_intfs = xs @ (as @ [(d, es)]) # ys, ss_cur = Some (length xs) \<rparr>
    = spec_loop rest \<lparr> ss_intfs = xs @ (as @ [(d, es @ es')]) # ys, ss_cur = Some (length xs) \<rparr>"
  using assms
proof (induction es' arbitrary: es)
  case Nil
  then show ?case by simp
next
  case (Cons e es')
  then show ?case using Cons.IH [of "es @ [e]"] by (simp add: spec_loop_endpoint)
qed

lemma spec_loop_alt:
  assumes ok: "alt_ok (length xs) (length as) a"
    and cur: "cur_complete \<lparr> ss_intfs = xs @ as # ys, ss_cur = cur \<rparr>"
  shows "spec_loop (bytes_of_alt a @ rest) \<lparr> ss_intfs = xs @ as # ys, ss_cur = cur \<rparr>
    = spec_loop rest \<lparr> ss_intfs = xs @ (as @ [a]) # ys, ss_cur = Some (length xs) \<rparr>"
proof -
  obtain d es where a: "a = (d, es)" by force
  have d: "id_bLength d = 9" "id_bDescriptorType d = 4" "unat (id_bInterfaceNumber d) = length xs"
    "unat (id_bAlternateSetting d) = length as" "id_endpoint d = 0"
    "length es = unat (id_bNumEndpoints d)" "list_all endpoint_ok es"
    using ok by (simp_all add: a alt_ok_def alt_complete_def)
  have "interface_desc_of_bytes 0 (bytes_of_interface_desc d) = d"
    using interface_desc_roundtrip [of 0 d "[]"] d(5) by simp
  then have "spec_interface (bytes_of_interface_desc d) \<lparr> ss_intfs = xs @ as # ys, ss_cur = cur \<rparr>
      = Accept \<lparr> ss_intfs = xs @ (as @ [(d, [])]) # ys, ss_cur = Some (length xs) \<rparr>"
    using d cur by (simp add: spec_interface_def desc_bytes_nth)
  then have "spec_desc (bytes_of_interface_desc d) \<lparr> ss_intfs = xs @ as # ys, ss_cur = cur \<rparr>
      = Accept \<lparr> ss_intfs = xs @ (as @ [(d, [])]) # ys, ss_cur = Some (length xs) \<rparr>"
    using d(2) by (simp only: spec_desc_def desc_bytes_nth simp_thms if_True)
  then have "spec_loop (bytes_of_interface_desc d @ concat (map bytes_of_endpoint_desc es) @ rest)
        \<lparr> ss_intfs = xs @ as # ys, ss_cur = cur \<rparr>
      = spec_loop (concat (map bytes_of_endpoint_desc es) @ rest)
        \<lparr> ss_intfs = xs @ (as @ [(d, [])]) # ys, ss_cur = Some (length xs) \<rparr>"
    using d by (subst spec_loop_desc) (simp_all add: desc_bytes_nth)
  then show ?thesis
    using spec_loop_endpoints [of es "[]" d] d by (simp add: a bytes_of_alt_def)
qed

lemma spec_loop_intf:
  assumes "\<And>k. k < length bs \<Longrightarrow> alt_ok (length xs) (length as + k) (bs ! k)"
    and "cur_complete \<lparr> ss_intfs = xs @ as # ys, ss_cur = cur \<rparr>"
  shows "\<exists>cur'. spec_loop (bytes_of_intf bs @ rest) \<lparr> ss_intfs = xs @ as # ys, ss_cur = cur \<rparr>
      = spec_loop rest \<lparr> ss_intfs = xs @ (as @ bs) # ys, ss_cur = cur' \<rparr> \<and>
    cur_complete \<lparr> ss_intfs = xs @ (as @ bs) # ys, ss_cur = cur' \<rparr> \<and> (cur' = cur \<or> cur' = Some (length xs))"
  using assms
proof (induction bs arbitrary: as cur)
  case Nil
  then show ?case by (auto simp: bytes_of_intf_def)
next
  case (Cons b bs)
  have b: "alt_ok (length xs) (length as) b" using Cons.prems(1) [of 0] by simp
  then have cur': "cur_complete \<lparr> ss_intfs = xs @ (as @ [b]) # ys, ss_cur = Some (length xs) \<rparr>"
    by (simp add: cur_complete_def alt_ok_def)
  have "alt_ok (length xs) (length (as @ [b]) + k) (bs ! k)" if "k < length bs" for k
    using Cons.prems(1) [of "Suc k"] that by simp
  from Cons.IH [OF this cur'] show ?case
    using spec_loop_alt [OF b Cons.prems(2)] by (auto simp: bytes_of_intf_def)
qed

lemma spec_loop_intfs:
  assumes "\<And>k. k < length bs \<Longrightarrow> intf_ok (length xs + k) (bs ! k)"
    and "cur_complete \<lparr> ss_intfs = xs @ replicate (length bs) [], ss_cur = cur \<rparr>"
    and "\<forall>n. cur = Some n \<longrightarrow> n < length xs"
  shows "\<exists>cur'. spec_loop (concat (map bytes_of_intf bs) @ rest)
        \<lparr> ss_intfs = xs @ replicate (length bs) [], ss_cur = cur \<rparr>
      = spec_loop rest \<lparr> ss_intfs = xs @ bs, ss_cur = cur' \<rparr> \<and> cur_complete \<lparr> ss_intfs = xs @ bs, ss_cur = cur' \<rparr>"
  using assms
proof (induction bs arbitrary: xs cur)
  case Nil
  then show ?case by auto
next
  case (Cons b bs)
  let ?rest = "concat (map bytes_of_intf bs) @ rest"
  have "alt_ok (length xs) (length [] + k) (b ! k)" if "k < length b" for k
    using Cons.prems(1) [of 0] that by (simp add: intf_ok_def)
  from spec_loop_intf [OF this, where ys = "replicate (length bs) []" and cur = cur and rest = ?rest] Cons.prems(2)
  obtain cur' where c: "spec_loop (bytes_of_intf b @ ?rest) \<lparr> ss_intfs = xs @ [] # replicate (length bs) [], ss_cur = cur \<rparr>
      = spec_loop ?rest \<lparr> ss_intfs = (xs @ [b]) @ replicate (length bs) [], ss_cur = cur' \<rparr>"
    "cur_complete \<lparr> ss_intfs = (xs @ [b]) @ replicate (length bs) [], ss_cur = cur' \<rparr>"
    "cur' = cur \<or> cur' = Some (length xs)"
    by auto
  have "intf_ok (length (xs @ [b]) + k) (bs ! k)" if "k < length bs" for k
    using Cons.prems(1) [of "Suc k"] that by simp
  moreover have "\<forall>n. cur' = Some n \<longrightarrow> n < length (xs @ [b])"
    using c(3) Cons.prems(3) by auto
  ultimately show ?case
    using Cons.IH [OF _ c(2)] c(1) by simp
qed

lemma spec_config_serialized:
  assumes ok: "config_ok t"
  shows "spec_config (bytes_of_config t) = Accept t"
proof -
  obtain c bs where t: "t = (c, bs)" by force
  let ?b = "bytes_of_config t"
  have hdr: "9 \<le> length ?b" "?b ! 1 = 2" "?b ! 0 = 9" "take 9 ?b = bytes_of_config_desc c"
    "drop 9 ?b = concat (map bytes_of_intf bs)"
    using ok by (simp_all add: t bytes_of_config_def config_ok_def bytes_of_config_desc_def)
  have c: "config_desc_of_bytes 0 (bytes_of_config_desc c) = c"
    using config_desc_roundtrip [of 0 c "[]"] ok by (simp add: t config_ok_def)
  obtain cur where "spec_loop (concat (map bytes_of_intf bs)) \<lparr> ss_intfs = replicate (length bs) [], ss_cur = None \<rparr>
      = Accept \<lparr> ss_intfs = bs, ss_cur = cur \<rparr>" "cur_complete \<lparr> ss_intfs = bs, ss_cur = cur \<rparr>"
    using spec_loop_intfs [of bs "[]" None "[]"] ok by (auto simp: t config_ok_def cur_complete_def)
  moreover have "[] \<notin> set bs"
    using ok by (auto simp: t config_ok_def intf_ok_def in_set_conv_nth)
  moreover have "unat (cd_bNumInterfaces c) = length bs"
    using ok by (simp add: t config_ok_def)
  ultimately show ?thesis
    using hdr by (simp add: spec_config_def c t)
qed

section \<open>The shape of an accepted configuration\<close>

text \<open>\<open>alt_ok\<close> without the number of endpoints.\<close>

definition alt_shape :: "nat \<Rightarrow> nat \<Rightarrow> alt_setting \<Rightarrow> bool" where
  "alt_shape n k a \<longleftrightarrow> id_bLength (fst a) = 9 \<and> id_bDescriptorType (fst a) = 4 \<and>
     unat (id_bInterfaceNumber (fst a)) = n \<and> unat (id_bAlternateSetting (fst a)) = k \<and>
     id_endpoint (fst a) = 0 \<and> list_all endpoint_ok (snd a)"

definition spec_shape :: "spec_state \<Rightarrow> bool" where
  "spec_shape s \<longleftrightarrow>
     (\<forall>n < length (ss_intfs s). \<forall>k < length (ss_intfs s ! n). alt_shape n k (ss_intfs s ! n ! k))"

lemma spec_interface_shape:
  assumes "spec_shape s" "spec_interface d s = Accept s'" "unat (d ! 0) = length d" "d ! 1 = 4"
  shows "spec_shape s'"
proof -
  let ?n = "unat (d ! 2)"
  have acc: "length d = 9" "?n < length (ss_intfs s)" "unat (d ! 3) = length (ss_intfs s ! ?n)"
    "s' = \<lparr> ss_intfs = (ss_intfs s)[?n := ss_intfs s ! ?n @ [(interface_desc_of_bytes 0 d, [])]],
       ss_cur = Some ?n \<rparr>"
    using assms(2) by (auto simp: spec_interface_def split: if_splits)
  have "d ! 0 = 9" using assms(3) acc(1) unat_u8_eq [of "d ! 0" 9] by simp
  then have new: "alt_shape ?n (length (ss_intfs s ! ?n)) (interface_desc_of_bytes 0 d, [])"
    using acc(3) assms(4) by (simp add: alt_shape_def interface_desc_of_bytes_def)
  show ?thesis
    using assms(1) new acc(2) by (auto simp: spec_shape_def acc(4) nth_list_update nth_append less_Suc_eq)
qed

lemma spec_endpoint_shape:
  assumes "spec_shape s" "spec_inv s" "spec_endpoint d s = Accept s'" "unat (d ! 0) = length d" "d ! 1 = 5"
  shows "spec_shape s'"
proof -
  obtain n i es where acc: "length d = 7" "ss_cur s = Some n" "last (ss_intfs s ! n) = (i, es)"
    "s' = s\<lparr> ss_intfs := (ss_intfs s)[n := butlast (ss_intfs s ! n)
        @ [(i, es @ [endpoint_desc_of_bytes zero_endpoint_desc d])]] \<rparr>"
    using assms(3) by (auto simp: spec_endpoint_def split: if_splits option.splits prod.splits)
  have n: "n < length (ss_intfs s)" "ss_intfs s ! n \<noteq> []"
    using assms(2) acc(2) by (simp_all add: spec_inv_def)
  have "d ! 0 = 7" using assms(4) acc(1) unat_u8_eq [of "d ! 0" 7] by simp
  then have "endpoint_ok (endpoint_desc_of_bytes zero_endpoint_desc d)"
    using assms(5) by (simp add: endpoint_ok_def endpoint_desc_of_bytes_def zero_endpoint_desc_def)
  moreover have "alt_shape n (length (ss_intfs s ! n) - 1) (i, es)"
    using assms(1) n acc(3) last_conv_nth [OF n(2)] unfolding spec_shape_def
    by (metis diff_less length_greater_0_conv zero_less_one)
  ultimately have new: "alt_shape n (length (ss_intfs s ! n) - 1)
      (i, es @ [endpoint_desc_of_bytes zero_endpoint_desc d])"
    by (simp add: alt_shape_def)
  show ?thesis
    unfolding spec_shape_def
  proof (intro allI impI)
    fix m k
    assume m: "m < length (ss_intfs s')" and k: "k < length (ss_intfs s' ! m)"
    show "alt_shape m k (ss_intfs s' ! m ! k)"
    proof (cases "m = n")
      case True
      then have "k < length (ss_intfs s ! n)" using k n by (simp add: acc(4))
      then consider "k < length (ss_intfs s ! n) - 1" | "k = length (ss_intfs s ! n) - 1" by linarith
      then show ?thesis
        using True n new assms(1)
        by cases (simp_all add: acc(4) spec_shape_def nth_append nth_butlast)
    next
      case False
      then show ?thesis using m k assms(1) by (simp add: acc(4) spec_shape_def)
    qed
  qed
qed

lemma spec_loop_shape:
  "spec_shape s \<Longrightarrow> spec_inv s \<Longrightarrow> spec_loop b s = Accept s' \<Longrightarrow> spec_shape s'"
proof (induction b s rule: spec_loop.induct)
  case (1 s)
  then show ?case by simp
next
  case (2 len b s)
  let ?d = "take (unat len) (len # b)"
  from "2.prems"(3) obtain s1 where
    s1: "\<not> (unat len > Suc (length b) \<or> unat len < 2)" "spec_desc ?d s = Accept s1"
    "spec_loop (drop (unat len) (len # b)) s1 = Accept s'"
    by (auto split: if_splits outcome.splits)
  have len: "unat (?d ! 0) = length ?d" using s1(1) by simp
  have "spec_shape s1"
    using s1(2) spec_interface_shape [OF "2.prems"(1) _ len] spec_endpoint_shape [OF "2.prems"(1,2) _ len]
      "2.prems"(1)
    by (auto simp: spec_desc_def simp del: nth_take split: if_splits)
  moreover have "spec_inv s1" using spec_desc_inv [OF "2.prems"(2) s1(2)] by simp
  ultimately show ?case using "2.IH" [OF s1(1,2)] s1(3) by blast
qed

lemma spec_config_ok:
  assumes "spec_config b = Accept t"
  shows "config_ok t"
proof -
  let ?c = "config_desc_of_bytes 0 (take 9 b)"
  let ?s = "\<lparr> ss_intfs = replicate (unat (cd_bNumInterfaces ?c)) [], ss_cur = None \<rparr>"
  obtain s where hdr: "9 \<le> length b" "b ! 1 = 2" "b ! 0 = 9" and loop: "spec_loop (drop 9 b) ?s = Accept s"
    and s: "cur_complete s" "[] \<notin> set (ss_intfs s)" and t: "t = (?c, ss_intfs s)"
    using assms by (auto simp: spec_config_def Let_def split: if_splits outcome.splits)
  note inv = spec_loop_inv [OF spec_inv_start loop]
  have "spec_shape ?s" by (simp add: spec_shape_def)
  then have shape: "spec_shape s" using spec_loop_shape [OF _ spec_inv_start loop] by blast
  have len: "length (ss_intfs s) = unat (cd_bNumInterfaces ?c)" using inv by simp
  have intf: "intf_ok n (ss_intfs s ! n)" if n: "n < length (ss_intfs s)" for n
  proof -
    have "alt_ok n k (ss_intfs s ! n ! k)" if k: "k < length (ss_intfs s ! n)" for k
    proof -
      have "alt_complete (ss_intfs s ! n ! k)"
        using spec_inv_all_complete [of s "ss_intfs s ! n"] inv s(1) n k by simp
      then show ?thesis using shape n k by (simp add: spec_shape_def alt_shape_def alt_ok_def)
    qed
    then show ?thesis using s(2) nth_mem [OF n] by (auto simp: intf_ok_def)
  qed
  have "cd_bLength ?c = 9" "cd_bDescriptorType ?c = 2" "cd_interface ?c = 0"
    using hdr by (simp_all add: config_desc_of_bytes_def)
  then show ?thesis using len intf by (simp add: config_ok_def t)
qed

text \<open>One endpoint more than the interfaces have room for.\<close>

lemma spec_config_extra_endpoint:
  assumes ok: "config_ok t" and e: "endpoint_ok e"
  shows "spec_config (bytes_of_config t @ bytes_of_endpoint_desc e) = Undef"
proof -
  obtain c bs where t: "t = (c, bs)" by force
  let ?b = "bytes_of_config t @ bytes_of_endpoint_desc e"
  have hdr: "9 \<le> length ?b" "?b ! 1 = 2" "?b ! 0 = 9" "take 9 ?b = bytes_of_config_desc c"
    "drop 9 ?b = concat (map bytes_of_intf bs) @ bytes_of_endpoint_desc e"
    using ok by (simp_all add: t bytes_of_config_def config_ok_def bytes_of_config_desc_def)
  have c: "config_desc_of_bytes 0 (bytes_of_config_desc c) = c"
    using config_desc_roundtrip [of 0 c "[]"] ok by (simp add: t config_ok_def)
  obtain cur where loop: "spec_loop (concat (map bytes_of_intf bs) @ bytes_of_endpoint_desc e)
        \<lparr> ss_intfs = replicate (length bs) [], ss_cur = None \<rparr>
      = spec_loop (bytes_of_endpoint_desc e @ []) \<lparr> ss_intfs = bs, ss_cur = cur \<rparr>"
    "cur_complete \<lparr> ss_intfs = bs, ss_cur = cur \<rparr>"
    using spec_loop_intfs [of bs "[]" None "bytes_of_endpoint_desc e"] ok
    by (auto simp: t config_ok_def cur_complete_def)
  have "spec_desc (bytes_of_endpoint_desc e) \<lparr> ss_intfs = bs, ss_cur = cur \<rparr> = Undef"
    using e loop(2) unfolding spec_desc_def desc_bytes_nth
    by (auto simp: endpoint_ok_def spec_endpoint_def cur_complete_def alt_complete_def split: option.splits prod.splits)
  moreover have "length (bytes_of_endpoint_desc e) = unat (bytes_of_endpoint_desc e ! 0)"
    using e by (simp add: desc_bytes_nth endpoint_ok_def)
  ultimately have "spec_loop (bytes_of_endpoint_desc e @ []) \<lparr> ss_intfs = bs, ss_cur = cur \<rparr> = Undef"
    using spec_loop_desc [of "bytes_of_endpoint_desc e" "[]"] by simp
  moreover have "unat (cd_bNumInterfaces c) = length bs"
    using ok by (simp add: t config_ok_def)
  ultimately show ?thesis
    using hdr loop(1) by (simp add: spec_config_def c)
qed

section \<open>Properties\<close>

text \<open>The configuration of a device with one bulk endpoint, the input of the witnesses.\<close>

definition one_bulk_endpoint :: "u8 list" where
  "one_bulk_endpoint = [9, 2, 25, 0, 1, 1, 0, 128, 50,  9, 4, 0, 0, 1, 255, 0, 0, 0,
     7, 5, 129, 2, 64, 0, 0]"

definition one_bulk_tree :: config_tree where
  "one_bulk_tree = (config_desc_of_bytes 0 one_bulk_endpoint,
     [[(interface_desc_of_bytes 0 (drop 9 one_bulk_endpoint),
        [endpoint_desc_of_bytes zero_endpoint_desc (drop 18 one_bulk_endpoint)])]])"

lemma one_bulk_facts:
  "length one_bulk_endpoint = 25" "spec_config one_bulk_endpoint = Accept one_bulk_tree"
  "bytes_of_config one_bulk_tree = one_bulk_endpoint" "config_ok one_bulk_tree"
proof -
  show "length one_bulk_endpoint = 25" by (simp add: one_bulk_endpoint_def)
  show spec: "spec_config one_bulk_endpoint = Accept one_bulk_tree" by code_simp
  show "bytes_of_config one_bulk_tree = one_bulk_endpoint" by code_simp
  show "config_ok one_bulk_tree" by (rule spec_config_ok [OF spec])
qed

text \<open>
  C3: Parsing a configuration never leaks or corrupts a block, whatever allocation
  fails: on an error the blocks of the heap are those of before and nothing is stored in
  \<open>*config\<close>; on success \<open>libusby_free_config_descriptor\<close> on the result is
  defined and leads back to the blocks of before.
\<close>

theorem sanitize_no_leak:
  assumes "fresh_heap h" and "unat w \<le> length raw"
    and "usbyi_sanitize_config_descriptor raw w h = Some (r, p, h')"
  shows "if r < 0 then p = None \<and> same_blocks h' h
    else r = err LIBUSBY_SUCCESS \<and> (\<exists>res h''. p = Some res \<and>
      libusby_free_config_descriptor res h' = Some h'' \<and> same_blocks h'' h)"
proof (cases rule: sanitize_outcomes [OF assms])
  case 1
  then show ?thesis by auto
next
  case (2 res c "is")
  then show ?thesis using free_config_inv [OF 2(3)] by auto
qed

theorem sanitize_no_leak_witness:
  "\<exists>r p h'. usbyi_sanitize_config_descriptor one_bulk_endpoint 25 (empty_heap (\<lambda>n. n = 3)) = Some (r, p, h') \<and>
     r < 0 \<and> p = None \<and> same_blocks h' (empty_heap (\<lambda>n. n = 3))"
proof -
  let ?h = "empty_heap (\<lambda>n. n = 3)"
  have "map_option fst (usbyi_sanitize_config_descriptor one_bulk_endpoint 25 ?h) = Some (-1)"
    by code_simp
  then obtain p h' where run: "usbyi_sanitize_config_descriptor one_bulk_endpoint 25 ?h = Some (-1, p, h')"
    by auto
  then show ?thesis
    using sanitize_no_leak [OF fresh_empty_heap _ run] one_bulk_facts(1) by simp
qed

text \<open>
  C2: While no allocation fails, the heap parser refines the abstract parser on the
  first \<open>wTotalLength\<close> bytes: it has no defined behaviour exactly where the abstract parser
  has none, reports an input-output error without leaving a block where that one rejects, and
  otherwise succeeds with a configuration on the heap that reads back as the abstract result.
\<close>

theorem sanitize_refines:
  assumes "fresh_heap h" "plenty h" "unat w \<le> length raw"
  shows "case spec_config (take (unat w) raw) of
     Undef \<Rightarrow> usbyi_sanitize_config_descriptor raw w h = None
   | Reject \<Rightarrow> \<exists>h'. usbyi_sanitize_config_descriptor raw w h = Some (err LIBUSBY_ERROR_IO, None, h') \<and>
       same_blocks h' h
   | Accept t \<Rightarrow> \<exists>p h'. usbyi_sanitize_config_descriptor raw w h = Some (err LIBUSBY_SUCCESS, Some p, h') \<and>
       read_config h' p = Some t"
proof (cases "spec_config (take (unat w) raw)")
  case Reject
  then obtain h' where "usbyi_sanitize_config_descriptor raw w h = Some (err LIBUSBY_ERROR_IO, None, h')"
    using sanitize_refines_spec [OF assms] by auto
  with Reject show ?thesis
    by (cases rule: sanitize_outcomes [OF assms(1,3) \<open>usbyi_sanitize_config_descriptor raw w h = _\<close>]) auto
qed (use sanitize_refines_spec [OF assms] in simp_all)

theorem sanitize_refines_witness:
  "\<exists>p h'. usbyi_sanitize_config_descriptor one_bulk_endpoint 25 (empty_heap (\<lambda>_. False))
     = Some (err LIBUSBY_SUCCESS, Some p, h') \<and> read_config h' p = Some one_bulk_tree"
  using sanitize_refines [of "empty_heap (\<lambda>_. False)" 25 one_bulk_endpoint] one_bulk_facts by simp

text \<open>
  C10: Parsing inverts serializing: the bytes of a well-formed configuration (its
  interfaces and alternate settings numbered in order, each with the number of endpoints it
  announces) are accepted, and the configuration on the heap reads back as the original one.
\<close>

theorem sanitize_roundtrip:
  assumes "fresh_heap h" "plenty h" "config_ok t" "length (bytes_of_config t) < 65536"
  shows "\<exists>p h'. usbyi_sanitize_config_descriptor (bytes_of_config t) (of_nat (length (bytes_of_config t))) h
      = Some (err LIBUSBY_SUCCESS, Some p, h') \<and> read_config h' p = Some t"
proof -
  let ?b = "bytes_of_config t"
  have len: "unat (of_nat (length ?b) :: u16) = length ?b" by (rule unat_of_nat_u16 [OF assms(4)])
  have "take (unat (of_nat (length ?b) :: u16)) ?b = ?b" unfolding len by simp
  then show ?thesis
    using sanitize_refines_spec [OF assms(1,2), of "of_nat (length ?b)" ?b] spec_config_serialized [OF assms(3)] len
    by simp
qed

theorem sanitize_roundtrip_witness:
  "\<exists>p h'. usbyi_sanitize_config_descriptor (bytes_of_config one_bulk_tree)
       (of_nat (length (bytes_of_config one_bulk_tree))) (empty_heap (\<lambda>_. False))
     = Some (err LIBUSBY_SUCCESS, Some p, h') \<and> read_config h' p = Some one_bulk_tree"
  by (rule sanitize_roundtrip) (simp_all add: one_bulk_facts)

text \<open>
  C17: What the parser accepts is well formed, when no allocation fails: every interface has an alternate setting,
  alternate setting \<open>k\<close> of interface \<open>n\<close> carries these two numbers, has exactly the
  endpoints it announces, and all the descriptors have the length and type of their kind.
\<close>

theorem sanitize_accepts_well_formed:
  assumes "fresh_heap h" "plenty h" "unat w \<le> length raw"
    and "usbyi_sanitize_config_descriptor raw w h = Some (err LIBUSBY_SUCCESS, Some p, h')"
  shows "\<exists>t. read_config h' p = Some t \<and> config_ok t"
  using sanitize_refines_spec [OF assms(1-3)] assms(4) spec_config_ok
  by (cases "spec_config (take (unat w) raw)") auto

theorem sanitize_accepts_well_formed_witness:
  "\<exists>p h' t. usbyi_sanitize_config_descriptor one_bulk_endpoint 25 (empty_heap (\<lambda>_. False))
     = Some (err LIBUSBY_SUCCESS, Some p, h') \<and> read_config h' p = Some t \<and> config_ok t"
proof -
  obtain p h' where "usbyi_sanitize_config_descriptor one_bulk_endpoint 25 (empty_heap (\<lambda>_. False))
     = Some (err LIBUSBY_SUCCESS, Some p, h')"
    using sanitize_refines_spec [of "empty_heap (\<lambda>_. False)" 25 one_bulk_endpoint] one_bulk_facts by auto
  with sanitize_accepts_well_formed [of "empty_heap (\<lambda>_. False)" 25 one_bulk_endpoint p h'] one_bulk_facts(1)
  show ?thesis by auto
qed

text \<open>
  C34: The parser does not check the number of endpoints as it stores them: a
  well-formed configuration that is followed by one more endpoint descriptor makes it write
  past the array of the last alternate setting (or through a null pointer, when there is no
  interface at all).
\<close>

theorem extra_endpoint_undefined:
  assumes "fresh_heap h" "plenty h" "config_ok t" "endpoint_ok e"
    and "length (bytes_of_config t) + 7 < 65536"
  shows "usbyi_sanitize_config_descriptor (bytes_of_config t @ bytes_of_endpoint_desc e)
      (of_nat (length (bytes_of_config t) + 7)) h = None"
proof -
  let ?b = "bytes_of_config t @ bytes_of_endpoint_desc e"
  have len: "unat (of_nat (length (bytes_of_config t) + 7) :: u16) = length ?b"
    using unat_of_nat_u16 [OF assms(5)] by simp
  have "take (unat (of_nat (length (bytes_of_config t) + 7) :: u16)) ?b = ?b" unfolding len by simp
  then show ?thesis
    using sanitize_refines_spec [OF assms(1,2), of "of_nat (length (bytes_of_config t) + 7)" ?b]
      spec_config_extra_endpoint [OF assms(3,4)] len
    by simp
qed

theorem extra_endpoint_undefined_witness:
  "usbyi_sanitize_config_descriptor (bytes_of_config one_bulk_tree
       @ bytes_of_endpoint_desc (zero_endpoint_desc\<lparr>ed_bLength := 7, ed_bDescriptorType := 5\<rparr>))
     (of_nat (length (bytes_of_config one_bulk_tree) + 7)) (empty_heap (\<lambda>_. False)) = None"
  by (rule extra_endpoint_undefined)
    (simp_all add: one_bulk_facts endpoint_ok_def zero_endpoint_desc_def)

end
