(* ===== verification/Device_Array.thy ===== *)
theory Device_Array
  imports Memory
begin

text \<open>
  The growing, null-terminated array of device pointers that an enumeration returns:
  \<^verbatim>\<open>usbyi_device_list\<close> and \<^verbatim>\<open>usbyi_append_device_list\<close>
  (\<^verbatim>\<open>src/libusbyi.h\<close>, \<^verbatim>\<open>src/libusby.c\<close>). An element that was never
  stored is \<open>None\<close>.
\<close>

record dev_heap = cfg_heap +
  dlists :: "addr \<rightharpoonup> addr option list"

record usbyi_device_list =
  dl_count :: int
  dl_capacity :: int
  dl_list :: addr

text \<open>The structure after \<open>memset\<close>.\<close>

definition empty_device_list :: usbyi_device_list where
  "empty_device_list = \<lparr> dl_count = 0, dl_capacity = 0, dl_list = 0 \<rparr>"

definition realloc_dlist :: "addr \<Rightarrow> nat \<Rightarrow> 'x dev_heap_scheme \<Rightarrow> (addr \<times> 'x dev_heap_scheme) option" where
  "realloc_dlist old n h = do {
     ds \<leftarrow> (if old = 0 then Some [] else dlists h old);
     let (p, h') = malloc (8 * n) h;
     if p = 0 then Some (0, h')
     else Some (p, h'\<lparr>dlists := (dlists h')(old := None,
       p \<mapsto> take n (ds @ replicate (n - length ds) None))\<rparr>) }"

definition usbyi_append_device_list :: "usbyi_device_list \<Rightarrow> addr \<Rightarrow> 'x dev_heap_scheme
    \<Rightarrow> (int \<times> usbyi_device_list \<times> 'x dev_heap_scheme) option" where
  "usbyi_append_device_list ds dev h = do {
     c_assert (dl_count ds \<le> dl_capacity ds);
     c_assert (dl_list ds \<noteq> 0 \<or> dl_capacity ds = 0);
     count1 \<leftarrow> c_int (dl_count ds + 1);
     (ok, ds, h) \<leftarrow>
       (if dl_count ds = 0 \<or> count1 = dl_capacity ds then do {
          new_capacity \<leftarrow> c_int (count1 * 2);
          (dev_list, h) \<leftarrow> realloc_dlist (dl_list ds) (nat new_capacity) h;
          if dev_list = 0 then Some (False, ds, h)
          else Some (True, ds\<lparr>dl_capacity := new_capacity, dl_list := dev_list\<rparr>, h) }
        else Some (True, ds, h));
     if \<not> ok then Some (err LIBUSBY_ERROR_NO_MEM, ds, h) else do {
     c_assert (count1 < dl_capacity ds);
     xs \<leftarrow> dlists h (dl_list ds);
     xs \<leftarrow> wr xs (nat (dl_count ds)) (Some dev);
     xs \<leftarrow> wr xs (nat count1) (Some 0);
     Some (err LIBUSBY_SUCCESS, ds\<lparr>dl_count := count1\<rparr>, h\<lparr>dlists := (dlists h)(dl_list ds \<mapsto> xs)\<rparr>) } }"

section \<open>Representation\<close>

text \<open>The devices \<open>xs\<close> followed by a null pointer, in an array at most twice as long.\<close>

definition dl_cells :: "addr option list \<Rightarrow> addr list \<Rightarrow> bool" where
  "dl_cells cells xs \<longleftrightarrow> length xs < length cells \<and> take (Suc (length xs)) cells = map Some xs @ [Some 0]"

definition dl_inv :: "usbyi_device_list \<Rightarrow> 'x dev_heap_scheme \<Rightarrow> addr list \<Rightarrow> bool" where
  "dl_inv ds h xs \<longleftrightarrow> dl_count ds = int (length xs) \<and>
     (if xs = [] then dl_list ds = 0 \<and> dl_capacity ds = 0
      else dl_list ds \<noteq> 0 \<and> (\<exists>cells. dlists h (dl_list ds) = Some cells \<and>
        dl_capacity ds = int (length cells) \<and> length cells \<le> 2 * length xs \<and> dl_cells cells xs))"

definition dl_fresh :: "'x dev_heap_scheme \<Rightarrow> bool" where
  "dl_fresh h \<longleftrightarrow> 0 < next_addr h \<and> (\<forall>a. dlists h a \<noteq> None \<longrightarrow> 0 < a \<and> a < next_addr h)"

lemma dl_freshD:
  assumes "dl_fresh h"
  shows "0 < next_addr h" "dlists h (next_addr h) = None" "dlists h 0 = None"
  using assms unfolding dl_fresh_def by (metis less_irrefl)+

text \<open>The heap has one more array, at \<open>p\<close>, or the same arrays when \<open>p\<close> is null.\<close>

definition only_array :: "addr \<Rightarrow> (addr \<rightharpoonup> addr option list) \<Rightarrow> (addr \<rightharpoonup> addr option list) \<Rightarrow> bool" where
  "only_array p D D' \<longleftrightarrow> (p \<noteq> 0 \<longrightarrow> D p = None) \<and> (\<forall>a. a = 0 \<or> a \<noteq> p \<longrightarrow> D' a = D a)"

lemma only_array_null [simp]: "only_array 0 D D' \<longleftrightarrow> D' = D"
  by (auto simp: only_array_def fun_eq_iff)

lemma only_array_gone: "only_array p D D' \<Longrightarrow> p \<noteq> 0 \<Longrightarrow> D'(p := None) = D"
  by (auto simp: only_array_def fun_eq_iff)

lemma dl_inv_empty [simp]: "dl_inv empty_device_list h []"
  by (simp add: dl_inv_def empty_device_list_def)

lemma dl_cells_nth:
  assumes "dl_cells cells xs"
  shows "i < length xs \<Longrightarrow> cells ! i = Some (xs ! i)" "cells ! length xs = Some 0"
proof -
  have eq: "take (Suc (length xs)) cells = map Some xs @ [Some 0]" using assms by (simp add: dl_cells_def)
  show "cells ! i = Some (xs ! i)" if "i < length xs"
    using arg_cong [OF eq, of "\<lambda>l. l ! i"] that by (simp add: nth_append)
  show "cells ! length xs = Some 0"
    by (metis eq length_map lessI nth_append_length nth_take)
qed

lemma dl_cells_take: "dl_cells cells xs \<Longrightarrow> take (length xs) cells = map Some xs"
  by (rule nth_equalityI) (auto simp: dl_cells_nth dl_cells_def)

text \<open>Storing one more device and the null pointer behind it.\<close>

lemma dl_cells_store:
  assumes "take (length xs) cells = map Some xs" "Suc (length xs) < length cells"
  shows "dl_cells (cells[length xs := Some d, Suc (length xs) := Some 0]) (xs @ [d])"
proof -
  have "take (Suc (Suc (length xs))) (cells[length xs := Some d, Suc (length xs) := Some 0])
      = take (Suc (length xs)) (cells[length xs := Some d]) @ [Some 0]"
    using assms(2) by (subst take_update_snoc) simp_all
  also have "\<dots> = map Some (xs @ [d]) @ [Some 0]"
    using assms by (subst take_update_snoc) simp_all
  finally show ?thesis using assms(2) by (simp add: dl_cells_def)
qed

text \<open>All outcomes of an append: the array is unchanged, or it has one more device.\<close>

lemma append_device_list_cases:
  fixes h :: "'x dev_heap_scheme"
  assumes inv: "dl_inv ds h xs" and fr: "dl_fresh h" and small: "int (length xs) + 1 \<le> INT_MAX"
    "xs = [] \<or> int (length xs) + 1 = dl_capacity ds \<Longrightarrow> int (length xs) * 2 + 2 \<le> INT_MAX"
  obtains
    (no_mem) h' where "usbyi_append_device_list ds d h = Some (err LIBUSBY_ERROR_NO_MEM, ds, h')"
      "h' = h\<lparr>n_mallocs := Suc (n_mallocs h)\<rparr>" "\<not> plenty h"
  | (appended) ds' h' where "usbyi_append_device_list ds d h = Some (err LIBUSBY_SUCCESS, ds', h')"
      "dl_inv ds' h' (xs @ [d])" "dl_fresh h'" "plenty h \<Longrightarrow> plenty h'"
      "\<And>D. only_array (dl_list ds) D (dlists h) \<Longrightarrow> only_array (dl_list ds') D (dlists h')"
      "next_addr h \<le> next_addr h'"
      "\<exists>n l f. h' = h\<lparr>next_addr := n, n_mallocs := l, dlists := f\<rparr>"
proof -
  note fh = dl_freshD [OF fr]
  define n where "n = length xs"
  have count: "dl_count ds = int n" using inv by (simp add: dl_inv_def n_def)
  have ints: "c_int (int n + 1) = Some (int n + 1)"
    "n = 0 \<or> int n + 1 = dl_capacity ds \<Longrightarrow> c_int (int n * 2 + 2) = Some (int n * 2 + 2)"
    using small by (auto simp: c_int_def INT_MAX_def INT_MIN_def n_def)
  have asserts: "dl_count ds \<le> dl_capacity ds" "dl_list ds \<noteq> 0 \<or> dl_capacity ds = 0"
    using inv by (auto simp: dl_inv_def dl_cells_def split: if_splits)
  show ?thesis
  proof (cases "n = 0 \<or> int n + 1 = dl_capacity ds")
    case grow: True
    note ints = ints(1) ints(2) [OF grow]
    obtain old where old: "(if dl_list ds = 0 then Some [] else dlists h (dl_list ds)) = Some old"
      "take n old = map Some xs" "length old \<le> Suc n" "xs = [] \<longrightarrow> old = []"
    proof (cases "xs = []")
      case True
      with inv that [of "[]"] show ?thesis by (simp add: dl_inv_def n_def)
    next
      case False
      with inv obtain cells where c: "dlists h (dl_list ds) = Some cells" "dl_list ds \<noteq> 0"
        "dl_capacity ds = int (length cells)" "dl_cells cells xs" by (auto simp: dl_inv_def)
      with grow False have "length cells = Suc n" by (simp add: n_def)
      with c False that [of cells] show ?thesis by (simp add: dl_cells_take n_def)
    qed
    define cells where "cells = old @ replicate (2 * Suc n - length old) (None :: addr option)"
    have len: "length cells = 2 * Suc n" using old(3) by (simp add: cells_def)
    have nat_cap: "nat (int n * 2 + 2) = 2 * Suc n" by simp
    show ?thesis
    proof (cases rule: malloc_cases [of "8 * (2 * Suc n)" h])
      case fail
      have "realloc_dlist (dl_list ds) (2 * Suc n) h = Some (0, h\<lparr>n_mallocs := Suc (n_mallocs h)\<rparr>)"
        using old(1) fail(1) by (simp add: realloc_dlist_def)
      then have "usbyi_append_device_list ds d h
          = Some (err LIBUSBY_ERROR_NO_MEM, ds, h\<lparr>n_mallocs := Suc (n_mallocs h)\<rparr>)"
        using grow asserts unfolding usbyi_append_device_list_def count
        by (simp add: ints nat_cap del: mult_Suc_right)
      then show ?thesis using fail(2) by (intro no_mem) (auto simp: plenty_def)
    next
      case ok
      define p h1 where "p = next_addr h" and "h1 = h\<lparr>n_mallocs := Suc (n_mallocs h),
        next_addr := next_addr h + 8 * (2 * Suc n), dlists := (dlists h)(dl_list ds := None, p \<mapsto> cells)\<rparr>"
      have p: "p \<noteq> 0" "dlists h p = None" using fh by (simp_all add: p_def)
      have "take (2 * Suc n) (old @ replicate (2 * Suc n - length old) None) = cells"
        using len unfolding cells_def [symmetric] by simp
      then have "realloc_dlist (dl_list ds) (2 * Suc n) h = Some (p, h1)"
        using old(1) ok(1) p(1)
        by (simp add: realloc_dlist_def h1_def p_def del: mult_Suc_right take_append take_replicate)
      moreover have "n < length cells" "Suc n < length cells" using len by simp_all
      ultimately have run: "usbyi_append_device_list ds d h = Some (err LIBUSBY_SUCCESS,
          ds\<lparr>dl_capacity := int n * 2 + 2, dl_list := p, dl_count := int n + 1\<rparr>,
          h1\<lparr>dlists := (dlists h1)(p \<mapsto> cells[n := Some d, Suc n := Some 0])\<rparr>)"
        using grow asserts p(1) unfolding usbyi_append_device_list_def count
        by (simp add: ints nat_cap h1_def nat_add_distrib count del: mult_Suc_right)
      have take: "take n cells = map Some xs"
        using old(2) by (simp add: cells_def) (metis append_Nil2 length_map length_take min.absorb_iff2 n_def take_all_iff take_take)
      have store: "dl_cells (cells[n := Some d, Suc n := Some 0]) (xs @ [d])"
        unfolding n_def by (rule dl_cells_store) (use take len in \<open>simp_all add: n_def\<close>)
      show ?thesis
      proof (rule appended [OF run])
        show "dl_inv (ds\<lparr>dl_capacity := int n * 2 + 2, dl_list := p, dl_count := int n + 1\<rparr>)
            (h1\<lparr>dlists := (dlists h1)(p \<mapsto> cells[n := Some d, Suc n := Some 0])\<rparr>) (xs @ [d])"
          using store p(1) len by (simp add: dl_inv_def n_def)
        show "dl_fresh (h1\<lparr>dlists := (dlists h1)(p \<mapsto> cells[n := Some d, Suc n := Some 0])\<rparr>)"
          using fr unfolding dl_fresh_def h1_def p_def by (auto split: if_splits)
        show "plenty h \<Longrightarrow> plenty (h1\<lparr>dlists := (dlists h1)(p \<mapsto> cells[n := Some d, Suc n := Some 0])\<rparr>)"
          by (simp add: plenty_def h1_def)
        show "only_array (dl_list (ds\<lparr>dl_capacity := int n * 2 + 2, dl_list := p, dl_count := int n + 1\<rparr>)) D
            (dlists (h1\<lparr>dlists := (dlists h1)(p \<mapsto> cells[n := Some d, Suc n := Some 0])\<rparr>))"
          if only: "only_array (dl_list ds) D (dlists h)" for D
        proof -
          have "D p = None" using only p by (cases "p = dl_list ds") (auto simp: only_array_def)
          then show ?thesis using only p fh(3) by (auto simp: only_array_def h1_def)
        qed
        show "\<exists>na l f. h1\<lparr>dlists := (dlists h1)(p \<mapsto> cells[n := Some d, Suc n := Some 0])\<rparr>
            = h\<lparr>next_addr := na, n_mallocs := l, dlists := f\<rparr>"
          by (intro exI [of _ "next_addr h + 8 * (2 * Suc n)"] exI [of _ "Suc (n_mallocs h)"]
              exI [of _ "(dlists h1)(p \<mapsto> cells[n := Some d, Suc n := Some 0])"]) (simp add: h1_def)
      qed (simp add: h1_def)
    qed
  next
    case room: False
    then have "xs \<noteq> []" by (simp add: n_def)
    with inv obtain cells where c: "dlists h (dl_list ds) = Some cells" "dl_list ds \<noteq> 0"
      "dl_capacity ds = int (length cells)" "dl_cells cells xs" "length cells \<le> 2 * length xs"
      by (auto simp: dl_inv_def)
    have len: "Suc n < length cells" using c(3,4) room by (auto simp: dl_cells_def n_def)
    have run: "usbyi_append_device_list ds d h = Some (err LIBUSBY_SUCCESS, ds\<lparr>dl_count := int n + 1\<rparr>,
        h\<lparr>dlists := (dlists h)(dl_list ds \<mapsto> cells[n := Some d, Suc n := Some 0])\<rparr>)"
      using room asserts c(1,3) len unfolding usbyi_append_device_list_def count
      by (simp add: ints(1) nat_add_distrib count)
    have store: "dl_cells (cells[n := Some d, Suc n := Some 0]) (xs @ [d])"
      unfolding n_def by (rule dl_cells_store) (use dl_cells_take [OF c(4)] len in \<open>simp_all add: n_def\<close>)
    show ?thesis
    proof (rule appended [OF run])
      show "dl_inv (ds\<lparr>dl_count := int n + 1\<rparr>)
          (h\<lparr>dlists := (dlists h)(dl_list ds \<mapsto> cells[n := Some d, Suc n := Some 0])\<rparr>) (xs @ [d])"
        using store c by (simp add: dl_inv_def n_def)
      show "dl_fresh (h\<lparr>dlists := (dlists h)(dl_list ds \<mapsto> cells[n := Some d, Suc n := Some 0])\<rparr>)"
        using fr c(1) unfolding dl_fresh_def by auto
      show "\<exists>na l f. h\<lparr>dlists := (dlists h)(dl_list ds \<mapsto> cells[n := Some d, Suc n := Some 0])\<rparr>
          = h\<lparr>next_addr := na, n_mallocs := l, dlists := f\<rparr>"
        by (intro exI [of _ "next_addr h"] exI [of _ "n_mallocs h"]
            exI [of _ "(dlists h)(dl_list ds \<mapsto> cells[n := Some d, Suc n := Some 0])"]) simp
      show "only_array (dl_list (ds\<lparr>dl_count := int n + 1\<rparr>)) D
          (dlists (h\<lparr>dlists := (dlists h)(dl_list ds \<mapsto> cells[n := Some d, Suc n := Some 0])\<rparr>))"
        if "only_array (dl_list ds) D (dlists h)" for D
        using that c(2) by (auto simp: only_array_def)
    qed (auto simp: plenty_def)
  qed
qed

text \<open>The same for an append that is known to be defined.\<close>

lemma append_device_list_run:
  assumes inv: "dl_inv ds h xs" and fr: "dl_fresh h"
    and run: "usbyi_append_device_list ds d h = Some (r, ds', h')"
  shows "r = err LIBUSBY_ERROR_NO_MEM \<and> ds' = ds \<and> h' = h\<lparr>n_mallocs := Suc (n_mallocs h)\<rparr> \<or>
    r = err LIBUSBY_SUCCESS \<and> dl_inv ds' h' (xs @ [d]) \<and> dl_fresh h' \<and>
      (\<forall>D. only_array (dl_list ds) D (dlists h) \<longrightarrow> only_array (dl_list ds') D (dlists h')) \<and>
      next_addr h \<le> next_addr h' \<and> (\<exists>n l f. h' = h\<lparr>next_addr := n, n_mallocs := l, dlists := f\<rparr>)"
proof -
  have count: "dl_count ds = int (length xs)" using inv by (simp add: dl_inv_def)
  have "c_int (dl_count ds + 1) \<noteq> None"
    using run by (auto simp: usbyi_append_device_list_def monad_simps)
  then have small1: "int (length xs) + 1 \<le> INT_MAX" by (simp add: count c_int_def split: if_splits)
  have small2: "int (length xs) * 2 + 2 \<le> INT_MAX" if grow: "xs = [] \<or> int (length xs) + 1 = dl_capacity ds"
  proof -
    have "c_int ((dl_count ds + 1) * 2) \<noteq> None"
      using run grow count by (auto simp: usbyi_append_device_list_def monad_simps)
    then show ?thesis by (simp add: count c_int_def split: if_splits)
  qed
  show ?thesis
  proof (cases rule: append_device_list_cases [OF inv fr small1 small2, of d])
    case (2 h'')
    then show ?thesis using run by simp
  next
    case (3 ds'' h'')
    then have "next_addr h \<le> next_addr h'" using run by simp
    with 3 show ?thesis using run by simp
  qed simp_all
qed

section \<open>Property\<close>

text \<open>
  C29: Appending to a device list is defined (its assertions hold and no store leaves the
  array) and either appends the device behind the others, keeping the array terminated by a
  null pointer, or reports that there is no memory and leaves the list as it was; the latter
  only when an allocation fails.
\<close>

theorem append_device_list_appends:
  assumes "dl_inv ds h xs" "dl_fresh h" "2 * (length xs + 1) \<le> nat INT_MAX"
  shows "\<exists>r ds' h'. usbyi_append_device_list ds d h = Some (r, ds', h') \<and>
    (r = err LIBUSBY_SUCCESS \<and> dl_inv ds' h' (xs @ [d]) \<and> dl_fresh h' \<or>
     r = err LIBUSBY_ERROR_NO_MEM \<and> ds' = ds \<and> dl_inv ds h' xs \<and> dlists h' = dlists h \<and> \<not> plenty h)"
proof (cases rule: append_device_list_cases [OF assms(1,2), of d])
  case (3 h')
  note no_mem = 3
  then have "dl_inv ds h' xs" using assms(1) by (simp add: dl_inv_def)
  with no_mem show ?thesis by simp
next
  case (4 ds' h')
  then show ?thesis by auto
qed (use assms(3) in \<open>simp_all add: INT_MAX_def\<close>)

definition empty_dev_heap :: "(nat \<Rightarrow> bool) \<Rightarrow> dev_heap" where
  "empty_dev_heap fails = cfg_heap.extend (empty_heap fails) (dev_heap.fields (\<lambda>_. None))"

lemma dl_fresh_empty [simp]: "dl_fresh (empty_dev_heap fails)"
  by (simp add: dl_fresh_def empty_dev_heap_def empty_heap_def cfg_heap.defs dev_heap.defs)

theorem append_device_list_appends_witness:
  "\<exists>r ds' h'. usbyi_append_device_list empty_device_list 7 (empty_dev_heap (\<lambda>_. False)) = Some (r, ds', h') \<and>
    (r = err LIBUSBY_SUCCESS \<and> dl_inv ds' h' [7] \<and> dl_fresh h' \<or>
     r = err LIBUSBY_ERROR_NO_MEM \<and> ds' = empty_device_list \<and> dl_inv empty_device_list h' [] \<and>
       dlists h' = dlists (empty_dev_heap (\<lambda>_. False)) \<and> \<not> plenty (empty_dev_heap (\<lambda>_. False)))"
  using append_device_list_appends [of empty_device_list "empty_dev_heap (\<lambda>_. False)" "[]" 7]
  by (simp add: INT_MAX_def)

end
