(* ===== verification/Linked_List.thy ===== *)
theory Linked_List
  imports Prelude
begin

text \<open>
  The interface of the intrusive doubly linked lists of the library: nodes enter at the end
  and leave from any position. Two components provide it, the ring of devices of a context
  (\<open>Devlist\<close>) and the queue of submitted transfers of the Windows back end
  (\<open>Win32_Queue\<close>).
\<close>

datatype 'n list_op = Enter 'n | Leave 'n

fun op_node :: "'n list_op \<Rightarrow> 'n" where
  "op_node (Enter n) = n"
| "op_node (Leave n) = n"

text \<open>The specification: a node enters once, and only a node of the list leaves.\<close>

fun spec_ops :: "'n list_op list \<Rightarrow> 'n list \<Rightarrow> 'n list option" where
  "spec_ops [] xs = Some xs"
| "spec_ops (Enter n # ops) xs = (if n \<in> set xs then None else spec_ops ops (xs @ [n]))"
| "spec_ops (Leave n # ops) xs = (if n \<in> set xs then spec_ops ops (remove1 n xs) else None)"

fun run_ops :: "('n \<Rightarrow> 's \<Rightarrow> 's option) \<Rightarrow> ('n \<Rightarrow> 's \<Rightarrow> 's option) \<Rightarrow> 'n list_op list \<Rightarrow> 's \<Rightarrow> 's option" where
  "run_ops ins del [] s = Some s"
| "run_ops ins del (Enter n # ops) s = ins n s \<bind> run_ops ins del ops"
| "run_ops ins del (Leave n # ops) s = del n s \<bind> run_ops ins del ops"

locale linked_list =
  fixes holds :: "'s \<Rightarrow> 'n list \<Rightarrow> bool"
    and present :: "'s \<Rightarrow> 'n set"
    and enter :: "'n \<Rightarrow> 's \<Rightarrow> 's option"
    and leave :: "'n \<Rightarrow> 's \<Rightarrow> 's option"
  assumes enter_ok: "holds s xs \<Longrightarrow> n \<in> present s \<Longrightarrow> n \<notin> set xs \<Longrightarrow>
      \<exists>s'. enter n s = Some s' \<and> holds s' (xs @ [n]) \<and> present s' = present s"
    and leave_ok: "holds s xs \<Longrightarrow> n \<in> set xs \<Longrightarrow>
      \<exists>s'. leave n s = Some s' \<and> holds s' (remove1 n xs) \<and> present s' = present s"
    and holds_distinct: "holds s xs \<Longrightarrow> distinct xs"
begin

lemma run_spec:
  assumes "holds s xs" "op_node ` set ops \<subseteq> present s" "spec_ops ops xs = Some ys"
  shows "\<exists>s'. run_ops enter leave ops s = Some s' \<and> holds s' ys \<and> present s' = present s"
  using assms
proof (induction ops arbitrary: s xs)
  case Nil
  then show ?case by simp
next
  case (Cons op ops)
  show ?case
  proof (cases op)
    case (Enter n)
    then have n: "n \<notin> set xs" "spec_ops ops (xs @ [n]) = Some ys"
      using Cons.prems(3) by (auto split: if_splits)
    obtain s1 where s1: "enter n s = Some s1" "holds s1 (xs @ [n])" "present s1 = present s"
      using enter_ok [OF Cons.prems(1) _ n(1)] Cons.prems(2) Enter by auto
    then show ?thesis using Cons.IH [OF s1(2) _ n(2)] Cons.prems(2) Enter by auto
  next
    case (Leave n)
    then have n: "n \<in> set xs" "spec_ops ops (remove1 n xs) = Some ys"
      using Cons.prems(3) by (auto split: if_splits)
    obtain s1 where s1: "leave n s = Some s1" "holds s1 (remove1 n xs)" "present s1 = present s"
      using leave_ok [OF Cons.prems(1) n(1)] by auto
    then show ?thesis using Cons.IH [OF s1(2) _ n(2)] Cons.prems(2) Leave by auto
  qed
qed

text \<open>The nodes of a list can leave it in any order, and then it is empty.\<close>

lemma spec_drain:
  "distinct xs \<Longrightarrow> distinct ys \<Longrightarrow> set ys = set xs \<Longrightarrow> spec_ops (map Leave ys) xs = Some []"
proof (induction ys arbitrary: xs)
  case Nil
  then show ?case by simp
next
  case (Cons y ys)
  from Cons.prems have "distinct (remove1 y xs)" "distinct ys" "set ys = set (remove1 y xs)" "y \<in> set xs"
    by auto
  then show ?case using Cons.IH by simp
qed

lemma drain:
  assumes "holds s xs" "distinct ys" "set ys = set xs" "set xs \<subseteq> present s"
  shows "\<exists>s'. run_ops enter leave (map Leave ys) s = Some s' \<and> holds s' []"
proof -
  have "spec_ops (map Leave ys) xs = Some []"
    using spec_drain holds_distinct [OF assms(1)] assms(2,3) by blast
  moreover have "op_node ` set (map Leave ys) \<subseteq> present s" using assms(3,4) by auto
  ultimately show ?thesis using run_spec [OF assms(1)] by blast
qed

text \<open>A node that enters and leaves at once leaves no trace.\<close>

lemma enter_leave:
  assumes "holds s xs" "n \<in> present s" "n \<notin> set xs"
  shows "\<exists>s'. run_ops enter leave [Enter n, Leave n] s = Some s' \<and> holds s' xs"
proof -
  have "remove1 n (xs @ [n]) = xs" using assms(3) by (simp add: remove1_append)
  then show ?thesis
    using run_spec [OF assms(1), of "[Enter n, Leave n]" xs] assms(2,3) by (auto simp: remove1_append)
qed

end

end
