(* ===== verification/Devlist.thy ===== *)
theory Devlist
  imports Linked_List
begin

text \<open>
  The ring of the devices a context knows: \<^verbatim>\<open>usbyi_device_list_node\<close> and its
  operations (\<^verbatim>\<open>src/libusbyi.h\<close>, \<^verbatim>\<open>src/libusby.c\<close>). The type
  \<open>'p\<close> of the pointers to nodes is left open: a back end uses pointers into its contexts
  (the head) and into its devices. A null pointer is \<open>None\<close>.
\<close>

record 'p devlist_node =
  dn_prev :: "'p option"
  dn_next :: "'p option"

type_synonym 'p nodes = "'p \<rightharpoonup> 'p devlist_node"

definition set_next :: "'p \<Rightarrow> 'p option \<Rightarrow> 'p nodes \<Rightarrow> 'p nodes option" where
  "set_next p q m = do { n \<leftarrow> m p; Some (m(p \<mapsto> n\<lparr>dn_next := q\<rparr>)) }"

definition set_prev :: "'p \<Rightarrow> 'p option \<Rightarrow> 'p nodes \<Rightarrow> 'p nodes option" where
  "set_prev p q m = do { n \<leftarrow> m p; Some (m(p \<mapsto> n\<lparr>dn_prev := q\<rparr>)) }"

definition usbyi_init_devlist_head :: "'p \<Rightarrow> 'p nodes \<Rightarrow> 'p nodes option" where
  "usbyi_init_devlist_head head m = do {
     m \<leftarrow> set_next head (Some head) m;
     set_prev head (Some head) m }"

definition usbyi_remove_devlist_node :: "'p \<Rightarrow> 'p nodes \<Rightarrow> ('p option \<times> 'p nodes) option" where
  "usbyi_remove_devlist_node dev_node m = do {
     n \<leftarrow> m dev_node;
     next_node \<leftarrow> dn_next n;
     m \<leftarrow> set_prev next_node (dn_prev n) m;
     n' \<leftarrow> m dev_node;
     prev_node \<leftarrow> dn_prev n';
     m \<leftarrow> set_next prev_node (dn_next n') m;
     Some (dn_next n, m) }"

definition usbyi_insert_before_devlist_node :: "'p \<Rightarrow> 'p \<Rightarrow> 'p nodes \<Rightarrow> 'p nodes option" where
  "usbyi_insert_before_devlist_node node next_node m = do {
     m \<leftarrow> set_next node (Some next_node) m;
     n \<leftarrow> m next_node;
     m \<leftarrow> set_prev node (dn_prev n) m;
     m \<leftarrow> set_prev next_node (Some node) m;
     n' \<leftarrow> m node;
     prev_node \<leftarrow> dn_prev n';
     set_next prev_node (Some node) m }"

section \<open>The ring as a list\<close>

definition nxt :: "'p nodes \<Rightarrow> 'p \<Rightarrow> 'p option" where
  "nxt m p = m p \<bind> dn_next"

definition prv :: "'p nodes \<Rightarrow> 'p \<Rightarrow> 'p option" where
  "prv m p = m p \<bind> dn_prev"

text \<open>\<open>zs\<close> is the way from \<open>a\<close> to \<open>b\<close>, in both directions.\<close>

fun links :: "'p nodes \<Rightarrow> 'p \<Rightarrow> 'p list \<Rightarrow> 'p \<Rightarrow> bool" where
  "links m a [] b \<longleftrightarrow> nxt m a = Some b \<and> prv m b = Some a"
| "links m a (z # zs) b \<longleftrightarrow> nxt m a = Some z \<and> prv m z = Some a \<and> links m z zs b"

definition ring :: "'p \<Rightarrow> 'p nodes \<Rightarrow> 'p list \<Rightarrow> bool" where
  "ring head m xs \<longleftrightarrow> distinct (head # xs) \<and> links m head xs head"

lemma links_append: "links m a (xs @ z # ys) b \<longleftrightarrow> links m a xs z \<and> links m z ys b"
  by (induction xs arbitrary: a) auto

lemma links_snoc: "links m a (xs @ [z]) b \<longleftrightarrow> links m a xs z \<and> nxt m z = Some b \<and> prv m b = Some z"
  by (simp add: links_append)

lemma links_cong:
  assumes "links m a xs b" "\<And>p. p \<in> set (a # xs) \<Longrightarrow> nxt m' p = nxt m p"
    "\<And>p. p \<in> set (xs @ [b]) \<Longrightarrow> prv m' p = prv m p"
  shows "links m' a xs b"
  using assms by (induction xs arbitrary: a) auto

lemma links_ends:
  assumes "links m a xs b"
  shows "nxt m a = Some (hd (xs @ [b]))" "prv m b = Some (last (a # xs))"
  using assms by (induction xs arbitrary: a) auto

lemma nxt_dom: "nxt m p = Some q \<Longrightarrow> p \<in> dom m"
  by (auto simp: nxt_def bind_Some_conv)

lemma prv_dom: "prv m p = Some q \<Longrightarrow> p \<in> dom m"
  by (auto simp: prv_def bind_Some_conv)

lemma ring_dom:
  assumes "ring head m xs"
  shows "set (head # xs) \<subseteq> dom m"
proof -
  have "links m a xs b \<Longrightarrow> set (a # xs) \<subseteq> dom m" for a b
    by (induction xs arbitrary: a) (auto dest: nxt_dom)
  then show ?thesis using assms unfolding ring_def by blast
qed

lemma set_next_dom:
  assumes "p \<in> dom m"
  shows "\<exists>m'. set_next p q m = Some m' \<and> nxt m' = (nxt m)(p := q) \<and> prv m' = prv m \<and> dom m' = dom m"
proof -
  from assms obtain n where n: "m p = Some n" by blast
  show ?thesis
    by (rule exI [of _ "m(p \<mapsto> n\<lparr>dn_next := q\<rparr>)"]) (use n in \<open>auto simp: set_next_def nxt_def prv_def fun_eq_iff\<close>)
qed

lemma set_prev_dom:
  assumes "p \<in> dom m"
  shows "\<exists>m'. set_prev p q m = Some m' \<and> nxt m' = nxt m \<and> prv m' = (prv m)(p := q) \<and> dom m' = dom m"
proof -
  from assms obtain n where n: "m p = Some n" by blast
  show ?thesis
    by (rule exI [of _ "m(p \<mapsto> n\<lparr>dn_prev := q\<rparr>)"]) (use n in \<open>auto simp: set_prev_def nxt_def prv_def fun_eq_iff\<close>)
qed

lemma init_ring:
  assumes "head \<in> dom m"
  shows "\<exists>m'. usbyi_init_devlist_head head m = Some m' \<and> ring head m' [] \<and> dom m' = dom m"
proof -
  obtain m1 where m1: "set_next head (Some head) m = Some m1" "nxt m1 = (nxt m)(head := Some head)" "dom m1 = dom m"
    using set_next_dom [OF assms] by metis
  obtain m2 where m2: "set_prev head (Some head) m1 = Some m2" "nxt m2 = nxt m1"
    "prv m2 = (prv m1)(head := Some head)" "dom m2 = dom m1"
    using set_prev_dom [of head m1] assms m1(3) by metis
  show ?thesis using m1 m2 by (simp add: usbyi_init_devlist_head_def ring_def)
qed

text \<open>Insertion in front of the head appends.\<close>

lemma insert_ring:
  assumes ring: "ring head m xs" and node: "node \<in> dom m" "node \<notin> set (head # xs)"
  shows "\<exists>m'. usbyi_insert_before_devlist_node node head m = Some m' \<and> ring head m' (xs @ [node]) \<and> dom m' = dom m"
proof -
  have l: "links m head xs head" and d: "distinct (head # xs)" using ring by (simp_all add: ring_def)
  let ?last = "last (head # xs)"
  have last: "prv m head = Some ?last" using links_ends(2) [OF l] .
  have head: "head \<in> dom m" and last_dom: "?last \<in> dom m"
    using ring_dom [OF ring] last_in_set [of "head # xs"] by auto
  have last_node: "?last \<noteq> node" using node(2) last_in_set [of "head # xs"] by (metis list.distinct(1))
  obtain m1 where m1: "set_next node (Some head) m = Some m1" "nxt m1 = (nxt m)(node := Some head)"
    "prv m1 = prv m" "dom m1 = dom m"
    using set_next_dom [OF node(1)] by metis
  obtain n where n: "m1 head = Some n" "dn_prev n = Some ?last"
    using m1(3) last by (metis prv_def bind_Some_conv)
  obtain m2 where m2: "set_prev node (Some ?last) m1 = Some m2" "nxt m2 = nxt m1"
    "prv m2 = (prv m1)(node := Some ?last)" "dom m2 = dom m1"
    using set_prev_dom [of node m1] node(1) m1(4) by metis
  obtain m3 where m3: "set_prev head (Some node) m2 = Some m3" "nxt m3 = nxt m2"
    "prv m3 = (prv m2)(head := Some node)" "dom m3 = dom m2"
    using set_prev_dom [of head m2] head m2(4) m1(4) by metis
  have "prv m3 node = Some ?last" using m3(3) m2(3) node(2) by auto
  then obtain n' where n': "m3 node = Some n'" "dn_prev n' = Some ?last"
    by (metis prv_def bind_Some_conv)
  obtain m4 where m4: "set_next ?last (Some node) m3 = Some m4" "nxt m4 = (nxt m3)(?last := Some node)"
    "prv m4 = prv m3" "dom m4 = dom m3"
    using set_next_dom [of ?last m3] last_dom m1(4) m2(4) m3(4) by metis
  have run: "usbyi_insert_before_devlist_node node head m = Some m4"
    using m1(1) n m2(1) m3(1) n' m4(1) by (simp add: usbyi_insert_before_devlist_node_def)
  have nxt4: "nxt m4 = (nxt m)(node := Some head, ?last := Some node)"
    using m1 m2 m3 m4 by simp
  have prv4: "prv m4 = (prv m)(node := Some ?last, head := Some node)"
    using m1 m2 m3 m4 by simp
  have "links m4 head xs node"
  proof (cases xs rule: rev_cases)
    case Nil
    then show ?thesis using nxt4 prv4 node(2) by auto
  next
    case (snoc ys y)
    have "links m head ys y" using l snoc by (simp add: links_append)
    then have "links m4 head ys y"
      by (rule links_cong) (use d node(2) snoc nxt4 prv4 in auto)
    then show ?thesis using snoc nxt4 prv4 node(2) by (auto simp: links_append)
  qed
  then have "links m4 head (xs @ [node]) head"
    using nxt4 prv4 last_node node(2) by (simp add: links_snoc)
  then show ?thesis using run d node m1(4) m2(4) m3(4) m4(4) by (auto simp: ring_def)
qed

lemma remove_ring:
  assumes ring: "ring head m (as @ x # bs)"
  shows "\<exists>m'. usbyi_remove_devlist_node x m = Some (Some (hd (bs @ [head])), m') \<and> ring head m' (as @ bs) \<and> dom m' = dom m"
proof -
  have d: "distinct (head # as @ x # bs)" and l: "links m head as x" "links m x bs head"
    using ring by (auto simp: ring_def links_append)
  let ?p = "last (head # as)" and ?n = "hd (bs @ [head])"
  have px: "prv m x = Some ?p" and nx: "nxt m x = Some ?n"
    using links_ends(2) [OF l(1)] links_ends(1) [OF l(2)] by simp_all
  have p_in: "?p \<in> set (head # as)" using last_in_set [of "head # as"] by simp
  have n_in: "?n \<in> set (bs @ [head])" using hd_in_set [of "bs @ [head]"] by simp
  have dom: "x \<in> dom m" "?p \<in> dom m" "?n \<in> dom m"
    using ring_dom [OF ring] p_in n_in by auto
  have ne: "?p \<noteq> x" "?n \<noteq> x" using d p_in n_in by auto
  obtain n where n: "m x = Some n" "dn_next n = Some ?n" "dn_prev n = Some ?p"
    using px nx dom(1) by (auto simp: prv_def nxt_def)
  obtain m1 where m1: "set_prev ?n (Some ?p) m = Some m1" "nxt m1 = nxt m"
    "prv m1 = (prv m)(?n := Some ?p)" "dom m1 = dom m"
    using set_prev_dom [OF dom(3)] by metis
  have "nxt m1 x = Some ?n" "prv m1 x = Some ?p" using m1 px nx ne by simp_all
  then obtain n' where n': "m1 x = Some n'" "dn_next n' = Some ?n" "dn_prev n' = Some ?p"
    by (auto simp: prv_def nxt_def bind_Some_conv)
  obtain m2 where m2: "set_next ?p (Some ?n) m1 = Some m2" "nxt m2 = (nxt m1)(?p := Some ?n)"
    "prv m2 = prv m1" "dom m2 = dom m1"
    using set_next_dom [of ?p m1] dom(2) m1(4) by metis
  have run: "usbyi_remove_devlist_node x m = Some (Some ?n, m2)"
    using n m1(1) n' m2(1) by (simp add: usbyi_remove_devlist_node_def)
  have nxt2: "nxt m2 = (nxt m)(?p := Some ?n)" and prv2: "prv m2 = (prv m)(?n := Some ?p)"
    using m1 m2 by simp_all
  have "links m2 head (as @ bs) head"
  proof (cases as rule: rev_cases)
    case asn: Nil
    show ?thesis
    proof (cases bs)
      case Nil
      then show ?thesis using asn nxt2 prv2 by simp
    next
      case (Cons b bs')
      then have "links m b bs' head" using l(2) by simp
      then have "links m2 b bs' head"
        by (rule links_cong) (use d asn Cons nxt2 prv2 in auto)
      then show ?thesis using asn Cons nxt2 prv2 by simp
    qed
  next
    case (snoc as' a)
    then have "links m head as' a" using l(1) by (simp add: links_append)
    then have la: "links m2 head as' a"
      by (rule links_cong) (use d snoc nxt2 prv2 n_in in \<open>auto split: if_splits\<close>)
    show ?thesis
    proof (cases bs)
      case Nil
      then show ?thesis using snoc la nxt2 prv2 by (simp add: links_append)
    next
      case (Cons b bs')
      then have "links m b bs' head" using l(2) by simp
      then have "links m2 b bs' head"
        by (rule links_cong) (use d snoc Cons nxt2 prv2 in auto)
      then show ?thesis using snoc Cons la nxt2 prv2 by (simp add: links_append)
    qed
  qed
  then show ?thesis using run d m1(4) m2(4) by (auto simp: ring_def)
qed

section \<open>The ring provides the list interface\<close>

definition devlist_enter :: "'p \<Rightarrow> 'p \<Rightarrow> 'p nodes \<Rightarrow> 'p nodes option" where
  "devlist_enter head node m = usbyi_insert_before_devlist_node node head m"

definition devlist_leave :: "'p \<Rightarrow> 'p nodes \<Rightarrow> 'p nodes option" where
  "devlist_leave node m = map_option snd (usbyi_remove_devlist_node node m)"

interpretation devlist: linked_list "ring head" "\<lambda>m. dom m - {head}" "devlist_enter head" devlist_leave
  for head
proof unfold_locales
  show "\<exists>m'. devlist_enter head n m = Some m' \<and> ring head m' (xs @ [n]) \<and> dom m' - {head} = dom m - {head}"
    if "ring head m xs" "n \<in> dom m - {head}" "n \<notin> set xs" for m xs n
    using insert_ring [OF that(1), of n] that(2,3) by (auto simp: devlist_enter_def)
next
  fix m xs n
  assume r: "ring head m xs" and n: "n \<in> set xs"
  obtain as bs where xs: "xs = as @ n # bs" "n \<notin> set as" using n by (metis split_list_first)
  have "remove1 n xs = as @ bs" using xs by (simp add: remove1_append)
  then show "\<exists>m'. devlist_leave n m = Some m' \<and> ring head m' (remove1 n xs) \<and> dom m' - {head} = dom m - {head}"
    using remove_ring [OF r [unfolded xs(1)]] by (auto simp: devlist_leave_def)
qed (simp add: ring_def)

text \<open>
  C5: Any sequence of insertions in front of the head of a device ring and of removals
  that a list would allow is defined, and leaves the ring of the resulting list, linked
  consistently in both directions.
\<close>

theorem devlist_refines_list:
  assumes "ring head m xs" "op_node ` set ops \<subseteq> dom m - {head}" "spec_ops ops xs = Some ys"
  shows "\<exists>m'. run_ops (devlist_enter head) devlist_leave ops m = Some m' \<and> ring head m' ys"
  using devlist.run_spec [OF assms] by blast

text \<open>A head and two nodes, as allocated.\<close>

definition three_nodes :: "nat nodes" where
  "three_nodes = (\<lambda>p. if p < 3 then Some \<lparr>dn_prev = None, dn_next = None\<rparr> else None)"

lemma dom_three_nodes: "dom three_nodes = {..<3}"
  by (auto simp: three_nodes_def dom_def)

theorem devlist_refines_list_witness:
  "\<exists>m m'. usbyi_init_devlist_head 0 three_nodes = Some m \<and>
     run_ops (devlist_enter 0) devlist_leave [Enter 1, Enter 2, Leave 1] m = Some m' \<and> ring 0 m' [2]"
proof -
  have head: "0 \<in> dom three_nodes" by (simp add: dom_three_nodes)
  obtain m where m: "usbyi_init_devlist_head 0 three_nodes = Some m" "ring 0 m []" "dom m = dom three_nodes"
    using init_ring [OF head] by blast
  have "op_node ` set [Enter 1, Enter 2, Leave 1] \<subseteq> dom m - {0}"
    by (simp add: m(3) dom_three_nodes)
  moreover have "spec_ops [Enter 1, Enter 2, Leave (1 :: nat)] [] = Some [2]" by simp
  ultimately have "\<exists>m'. run_ops (devlist_enter 0) devlist_leave [Enter 1, Enter 2, Leave 1] m = Some m' \<and> ring 0 m' [2]"
    by (rule devlist_refines_list [OF m(2)])
  then show ?thesis using m(1) by blast
qed

end
