(* ===== verification/World.thy ===== *)
theory World
  imports Device_Array Devlist
begin

text \<open>
  The state of the program: the objects of the front end (\<^verbatim>\<open>src/libusby.h\<close>,
  \<^verbatim>\<open>src/libusbyi.h\<close>) in one heap, and the interface
  \<^verbatim>\<open>src/os/os.h\<close> through which the front end calls a back end. The members a
  back end adds to a structure form one field of it, of a type that is left open: \<open>'c\<close> for
  contexts, \<open>'d\<close> for devices, \<open>'h\<close> for device handles, \<open>'t\<close> for transfers.
  \<open>'k\<close> is the state of the operating system.
\<close>

section \<open>Objects\<close>

record 'd libusby_device =
  ld_ctx :: addr
  ld_ref_count :: int
  ld_device_desc :: libusby_device_descriptor
  ld_os :: 'd

record 'h libusby_device_handle =
  lh_dev :: addr
  lh_os :: 'h

record libusby_iso_packet_descriptor =
  ip_length :: int
  ip_actual_length :: int
  ip_status :: int

record libusby_transfer =
  lt_dev_handle :: addr
  lt_flags :: u8
  lt_endpoint :: u8
  lt_type :: u8
  lt_timeout :: u32
  lt_status :: int
  lt_length :: int
  lt_actual_length :: int
  lt_callback :: nat
  lt_user_data :: addr
  lt_buffer :: addr
  lt_num_iso_packets :: int
  lt_iso_packet_desc :: "libusby_iso_packet_descriptor list"

text \<open>The members \<open>intrn\<close> (flattened), \<open>pub\<close> and those of the back end.\<close>

record 't usbyb_transfer =
  it_ctx :: addr
  it_num_iso_packets :: int
  it_next :: addr
  it_prev :: addr
  tr_pub :: libusby_transfer
  tr_os :: 't

definition zero_iso_packet :: libusby_iso_packet_descriptor where
  "zero_iso_packet = \<lparr> ip_length = 0, ip_actual_length = 0, ip_status = 0 \<rparr>"

text \<open>A zeroed transfer with room for \<open>n\<close> packet descriptors.\<close>

definition zero_transfer_pub :: "nat \<Rightarrow> libusby_transfer" where
  "zero_transfer_pub n = \<lparr> lt_dev_handle = 0, lt_flags = 0, lt_endpoint = 0, lt_type = 0, lt_timeout = 0,
     lt_status = 0, lt_length = 0, lt_actual_length = 0, lt_callback = 0, lt_user_data = 0, lt_buffer = 0,
     lt_num_iso_packets = 0, lt_iso_packet_desc = replicate n zero_iso_packet \<rparr>"

definition zero_transfer_of :: "nat \<Rightarrow> 't \<Rightarrow> 't usbyb_transfer" where
  "zero_transfer_of n t = \<lparr> it_ctx = 0, it_num_iso_packets = 0, it_next = 0, it_prev = 0,
     tr_pub = zero_transfer_pub n, tr_os = t \<rparr>"

text \<open>Pointers to the nodes of a device ring: the head in a context, the node in a device.\<close>

datatype devnode_ptr = Devlist_head addr | Devnode addr

definition null_node :: "devnode_ptr devlist_node" where
  "null_node = \<lparr> dn_prev = None, dn_next = None \<rparr>"

text \<open>
  The world. A byte block in \<open>bufs\<close> is memory of the caller or of \<open>malloc\<close>;
  \<open>junk n\<close> is what the memory of the \<open>n\<close>-th \<open>malloc\<close> holds before it is written,
  over which every theorem is quantified.
\<close>

record ('c, 'd, 'h, 't, 'k) world = dev_heap +
  ctxs :: "addr \<rightharpoonup> 'c"
  devs :: "addr \<rightharpoonup> 'd libusby_device"
  hnds :: "addr \<rightharpoonup> 'h libusby_device_handle"
  trans :: "addr \<rightharpoonup> 't usbyb_transfer"
  bufs :: "addr \<rightharpoonup> u8 list"
  junk :: "nat \<Rightarrow> nat \<Rightarrow> u8"
  nodes :: "devnode_ptr nodes"
  os :: 'k

section \<open>The interface of a back end\<close>

text \<open>
  An output parameter is a further component of the result. A buffer of the caller is passed
  as its bytes and returned as such; it may be longer than the length that is passed with it.
\<close>

record ('c, 'd, 'h, 't, 'k) backend =
  zero_context :: 'c
  zero_device :: 'd
  zero_device_handle :: 'h
  zero_transfer :: 't
  usbyb_context_size :: nat
  usbyb_device_size :: nat
  usbyb_device_handle_size :: nat
  usbyb_transfer_size :: nat
  usbyb_transfer_pub_offset :: nat
  usbyb_init :: "addr \<Rightarrow> ('c, 'd, 'h, 't, 'k) world \<Rightarrow> (int \<times> ('c, 'd, 'h, 't, 'k) world) option"
  usbyb_exit :: "addr \<Rightarrow> ('c, 'd, 'h, 't, 'k) world \<Rightarrow> ('c, 'd, 'h, 't, 'k) world option"
  usbyb_get_device_list :: "addr \<Rightarrow> ('c, 'd, 'h, 't, 'k) world
    \<Rightarrow> (int \<times> addr option \<times> ('c, 'd, 'h, 't, 'k) world) option"
  usbyb_finalize_device :: "addr \<Rightarrow> ('c, 'd, 'h, 't, 'k) world \<Rightarrow> ('c, 'd, 'h, 't, 'k) world option"
  usbyb_open :: "addr \<Rightarrow> ('c, 'd, 'h, 't, 'k) world \<Rightarrow> (int \<times> ('c, 'd, 'h, 't, 'k) world) option"
  usbyb_close :: "addr \<Rightarrow> ('c, 'd, 'h, 't, 'k) world \<Rightarrow> ('c, 'd, 'h, 't, 'k) world option"
  usbyb_get_descriptor :: "addr \<Rightarrow> u8 \<Rightarrow> u8 \<Rightarrow> u16 \<Rightarrow> u8 list \<Rightarrow> int \<Rightarrow> ('c, 'd, 'h, 't, 'k) world
    \<Rightarrow> (int \<times> u8 list \<times> ('c, 'd, 'h, 't, 'k) world) option"
  usbyb_get_descriptor_cached :: "addr \<Rightarrow> u8 \<Rightarrow> u8 \<Rightarrow> u16 \<Rightarrow> u8 list \<Rightarrow> int \<Rightarrow> ('c, 'd, 'h, 't, 'k) world
    \<Rightarrow> (int \<times> u8 list \<times> ('c, 'd, 'h, 't, 'k) world) option"
  usbyb_get_configuration :: "addr \<Rightarrow> bool \<Rightarrow> ('c, 'd, 'h, 't, 'k) world
    \<Rightarrow> (int \<times> int option \<times> ('c, 'd, 'h, 't, 'k) world) option"
  usbyb_set_configuration :: "addr \<Rightarrow> int \<Rightarrow> ('c, 'd, 'h, 't, 'k) world
    \<Rightarrow> (int \<times> ('c, 'd, 'h, 't, 'k) world) option"
  usbyb_claim_interface :: "addr \<Rightarrow> int \<Rightarrow> ('c, 'd, 'h, 't, 'k) world
    \<Rightarrow> (int \<times> ('c, 'd, 'h, 't, 'k) world) option"
  usbyb_release_interface :: "addr \<Rightarrow> int \<Rightarrow> ('c, 'd, 'h, 't, 'k) world
    \<Rightarrow> (int \<times> ('c, 'd, 'h, 't, 'k) world) option"
  usbyb_perform_transfer :: "addr \<Rightarrow> ('c, 'd, 'h, 't, 'k) world \<Rightarrow> (int \<times> ('c, 'd, 'h, 't, 'k) world) option"
  usbyb_submit_transfer :: "addr \<Rightarrow> ('c, 'd, 'h, 't, 'k) world \<Rightarrow> (int \<times> ('c, 'd, 'h, 't, 'k) world) option"
  usbyb_cancel_transfer :: "addr \<Rightarrow> ('c, 'd, 'h, 't, 'k) world \<Rightarrow> (int \<times> ('c, 'd, 'h, 't, 'k) world) option"
  usbyb_wait_for_transfer :: "addr \<Rightarrow> ('c, 'd, 'h, 't, 'k) world \<Rightarrow> (int \<times> ('c, 'd, 'h, 't, 'k) world) option"
  usbyb_run_event_loop :: "addr \<Rightarrow> ('c, 'd, 'h, 't, 'k) world \<Rightarrow> (int \<times> ('c, 'd, 'h, 't, 'k) world) option"
  usbyb_stop_event_loop :: "addr \<Rightarrow> ('c, 'd, 'h, 't, 'k) world \<Rightarrow> ('c, 'd, 'h, 't, 'k) world option"
  usbyb_reset_event_loop :: "addr \<Rightarrow> ('c, 'd, 'h, 't, 'k) world \<Rightarrow> ('c, 'd, 'h, 't, 'k) world option"
  usbyb_init_transfer :: "addr \<Rightarrow> ('c, 'd, 'h, 't, 'k) world \<Rightarrow> (int \<times> ('c, 'd, 'h, 't, 'k) world) option"
  usbyb_clear_transfer :: "addr \<Rightarrow> ('c, 'd, 'h, 't, 'k) world \<Rightarrow> ('c, 'd, 'h, 't, 'k) world option"

text \<open>The sizes of the structures, which depend on the platform.\<close>

record object_sizes =
  sz_context :: nat
  sz_device :: nat
  sz_device_handle :: nat
  sz_transfer :: nat
  sz_pub_offset :: nat

section \<open>Allocation and release of objects\<close>

text \<open>\<open>malloc\<close> and \<open>memset\<close> of a structure; the blocks of the ring nodes come with it.\<close>

definition new_context :: "nat \<Rightarrow> 'c \<Rightarrow> ('c, 'd, 'h, 't, 'k) world \<Rightarrow> addr \<times> ('c, 'd, 'h, 't, 'k) world" where
  "new_context sz c w = (case malloc sz w of (p, w) \<Rightarrow>
     (p, if p = 0 then w else w\<lparr>ctxs := (ctxs w)(p \<mapsto> c), nodes := (nodes w)(Devlist_head p \<mapsto> null_node)\<rparr>))"

definition new_device :: "nat \<Rightarrow> 'd libusby_device \<Rightarrow> ('c, 'd, 'h, 't, 'k) world \<Rightarrow> addr \<times> ('c, 'd, 'h, 't, 'k) world" where
  "new_device sz d w = (case malloc sz w of (p, w) \<Rightarrow>
     (p, if p = 0 then w else w\<lparr>devs := (devs w)(p \<mapsto> d), nodes := (nodes w)(Devnode p \<mapsto> null_node)\<rparr>))"

definition new_handle :: "nat \<Rightarrow> 'h libusby_device_handle \<Rightarrow> ('c, 'd, 'h, 't, 'k) world \<Rightarrow> addr \<times> ('c, 'd, 'h, 't, 'k) world" where
  "new_handle sz x w = (case malloc sz w of (p, w) \<Rightarrow>
     (p, if p = 0 then w else w\<lparr>hnds := (hnds w)(p \<mapsto> x)\<rparr>))"

definition new_transfer :: "nat \<Rightarrow> 't usbyb_transfer \<Rightarrow> ('c, 'd, 'h, 't, 'k) world \<Rightarrow> addr \<times> ('c, 'd, 'h, 't, 'k) world" where
  "new_transfer sz t w = (case malloc sz w of (p, w) \<Rightarrow>
     (p, if p = 0 then w else w\<lparr>trans := (trans w)(p \<mapsto> t)\<rparr>))"

definition new_buf :: "nat \<Rightarrow> ('c, 'd, 'h, 't, 'k) world \<Rightarrow> addr \<times> ('c, 'd, 'h, 't, 'k) world" where
  "new_buf n w = (case malloc n w of (p, w') \<Rightarrow>
     (p, if p = 0 then w' else w'\<lparr>bufs := (bufs w')(p \<mapsto> map (junk w (n_mallocs w)) [0..<n])\<rparr>))"

text \<open>The bytes of an array on the stack before it is written.\<close>

definition stack_bytes :: "nat \<Rightarrow> ('c, 'd, 'h, 't, 'k) world \<Rightarrow> u8 list" where
  "stack_bytes n w = map (junk w (n_mallocs w)) [0..<n]"

definition free_context :: "addr \<Rightarrow> ('c, 'd, 'h, 't, 'k) world \<Rightarrow> ('c, 'd, 'h, 't, 'k) world option" where
  "free_context p w = do { m \<leftarrow> free_block (ctxs w) p;
     Some (w\<lparr>ctxs := m, nodes := (nodes w)(Devlist_head p := None)\<rparr>) }"

definition free_device :: "addr \<Rightarrow> ('c, 'd, 'h, 't, 'k) world \<Rightarrow> ('c, 'd, 'h, 't, 'k) world option" where
  "free_device p w = do { m \<leftarrow> free_block (devs w) p;
     Some (w\<lparr>devs := m, nodes := (nodes w)(Devnode p := None)\<rparr>) }"

definition free_handle :: "addr \<Rightarrow> ('c, 'd, 'h, 't, 'k) world \<Rightarrow> ('c, 'd, 'h, 't, 'k) world option" where
  "free_handle p w = do { m \<leftarrow> free_block (hnds w) p; Some (w\<lparr>hnds := m\<rparr>) }"

definition free_transfer :: "addr \<Rightarrow> ('c, 'd, 'h, 't, 'k) world \<Rightarrow> ('c, 'd, 'h, 't, 'k) world option" where
  "free_transfer p w = do { m \<leftarrow> free_block (trans w) p; Some (w\<lparr>trans := m\<rparr>) }"

definition free_buf :: "addr \<Rightarrow> ('c, 'd, 'h, 't, 'k) world \<Rightarrow> ('c, 'd, 'h, 't, 'k) world option" where
  "free_buf p w = do { m \<leftarrow> free_block (bufs w) p; Some (w\<lparr>bufs := m\<rparr>) }"

text \<open>Assignments to members behind a pointer.\<close>

definition upd_device :: "addr \<Rightarrow> ('d libusby_device \<Rightarrow> 'd libusby_device)
    \<Rightarrow> ('c, 'd, 'h, 't, 'k) world \<Rightarrow> ('c, 'd, 'h, 't, 'k) world option" where
  "upd_device p f w = do { d \<leftarrow> devs w p; Some (w\<lparr>devs := (devs w)(p \<mapsto> f d)\<rparr>) }"

definition upd_handle :: "addr \<Rightarrow> ('h libusby_device_handle \<Rightarrow> 'h libusby_device_handle)
    \<Rightarrow> ('c, 'd, 'h, 't, 'k) world \<Rightarrow> ('c, 'd, 'h, 't, 'k) world option" where
  "upd_handle p f w = do { x \<leftarrow> hnds w p; Some (w\<lparr>hnds := (hnds w)(p \<mapsto> f x)\<rparr>) }"

definition upd_transfer :: "addr \<Rightarrow> ('t usbyb_transfer \<Rightarrow> 't usbyb_transfer)
    \<Rightarrow> ('c, 'd, 'h, 't, 'k) world \<Rightarrow> ('c, 'd, 'h, 't, 'k) world option" where
  "upd_transfer p f w = do { t \<leftarrow> trans w p; Some (w\<lparr>trans := (trans w)(p \<mapsto> f t)\<rparr>) }"

definition upd_context :: "addr \<Rightarrow> ('c \<Rightarrow> 'c) \<Rightarrow> ('c, 'd, 'h, 't, 'k) world \<Rightarrow> ('c, 'd, 'h, 't, 'k) world option" where
  "upd_context p f w = do { c \<leftarrow> ctxs w p; Some (w\<lparr>ctxs := (ctxs w)(p \<mapsto> f c)\<rparr>) }"

definition upd_pub :: "(libusby_transfer \<Rightarrow> libusby_transfer) \<Rightarrow> 't usbyb_transfer \<Rightarrow> 't usbyb_transfer" where
  "upd_pub f t = t\<lparr>tr_pub := f (tr_pub t)\<rparr>"

lemma upd_Some [monad_simps]:
  "(upd_device p f w = Some w') \<longleftrightarrow> (\<exists>d. devs w p = Some d \<and> w' = w\<lparr>devs := (devs w)(p \<mapsto> f d)\<rparr>)"
  "(upd_handle p g w = Some w') \<longleftrightarrow> (\<exists>x. hnds w p = Some x \<and> w' = w\<lparr>hnds := (hnds w)(p \<mapsto> g x)\<rparr>)"
  "(upd_transfer p k w = Some w') \<longleftrightarrow> (\<exists>t. trans w p = Some t \<and> w' = w\<lparr>trans := (trans w)(p \<mapsto> k t)\<rparr>)"
  "(upd_context p l w = Some w') \<longleftrightarrow> (\<exists>c. ctxs w p = Some c \<and> w' = w\<lparr>ctxs := (ctxs w)(p \<mapsto> l c)\<rparr>)"
  by (auto simp: upd_device_def upd_handle_def upd_transfer_def upd_context_def bind_Some_conv)

end
