(* ===== verification/Devices.thy ===== *)
theory Devices
  imports World
begin

text \<open>
  Devices and their reference counts (\<^verbatim>\<open>src/libusby.c\<close>): the functions the
  back ends call as well. \<open>fin\<close> is the back end's \<^verbatim>\<open>usbyb_finalize_device\<close>.
\<close>

section \<open>Operations\<close>

definition usbyi_get_pub_tran :: "nat \<Rightarrow> addr \<Rightarrow> addr" where
  "usbyi_get_pub_tran pub_offset tran = tran + pub_offset"

definition usbyi_get_tran :: "nat \<Rightarrow> addr \<Rightarrow> addr" where
  "usbyi_get_tran pub_offset tran = tran - pub_offset"

text \<open>\<open>memset\<close> of a null pointer is undefined: the result of \<open>malloc\<close> is not checked.\<close>

definition usbyi_alloc_device :: "nat \<Rightarrow> 'd \<Rightarrow> addr \<Rightarrow> ('c, 'd, 'h, 't, 'k) world
    \<Rightarrow> (addr \<times> ('c, 'd, 'h, 't, 'k) world) option" where
  "usbyi_alloc_device sz z ctx w = do {
     let (res, w) = new_device sz \<lparr> ld_ctx = 0, ld_ref_count = 0, ld_device_desc = zero_device_desc, ld_os = z \<rparr> w;
     w \<leftarrow> upd_device res (\<lambda>d. d\<lparr>ld_ctx := ctx\<rparr>) w;
     w \<leftarrow> upd_device res (\<lambda>d. d\<lparr>ld_ref_count := 1\<rparr>) w;
     Some (res, w) }"

definition libusby_ref_device :: "addr \<Rightarrow> ('c, 'd, 'h, 't, 'k) world \<Rightarrow> ('c, 'd, 'h, 't, 'k) world option" where
  "libusby_ref_device dev w = do {
     d \<leftarrow> devs w dev;
     n \<leftarrow> c_int (ld_ref_count d + 1);
     upd_device dev (\<lambda>d. d\<lparr>ld_ref_count := n\<rparr>) w }"

definition libusby_unref_device :: "(addr \<Rightarrow> ('c, 'd, 'h, 't, 'k) world \<Rightarrow> ('c, 'd, 'h, 't, 'k) world option)
    \<Rightarrow> addr \<Rightarrow> ('c, 'd, 'h, 't, 'k) world \<Rightarrow> ('c, 'd, 'h, 't, 'k) world option" where
  "libusby_unref_device fin dev w = do {
     d \<leftarrow> devs w dev;
     n \<leftarrow> c_int (ld_ref_count d - 1);
     w \<leftarrow> upd_device dev (\<lambda>d. d\<lparr>ld_ref_count := n\<rparr>) w;
     if n = 0 then do { w \<leftarrow> fin dev w; free_device dev w } else Some w }"

text \<open>
  The loop of \<open>libusby_free_device_list\<close> over the cells of the array, which nothing in
  the loop changes. It is undefined to read a cell that was never stored or one past the end.
\<close>

fun unref_cells :: "(addr \<Rightarrow> ('c, 'd, 'h, 't, 'k) world \<Rightarrow> ('c, 'd, 'h, 't, 'k) world option)
    \<Rightarrow> addr option list \<Rightarrow> ('c, 'd, 'h, 't, 'k) world \<Rightarrow> ('c, 'd, 'h, 't, 'k) world option" where
  "unref_cells fin [] w = None"
| "unref_cells fin (None # cells) w = None"
| "unref_cells fin (Some dev # cells) w =
     (if dev = 0 then Some w else libusby_unref_device fin dev w \<bind> unref_cells fin cells)"

definition libusby_free_device_list :: "(addr \<Rightarrow> ('c, 'd, 'h, 't, 'k) world \<Rightarrow> ('c, 'd, 'h, 't, 'k) world option)
    \<Rightarrow> addr \<Rightarrow> bool \<Rightarrow> ('c, 'd, 'h, 't, 'k) world \<Rightarrow> ('c, 'd, 'h, 't, 'k) world option" where
  "libusby_free_device_list fin list unref_devices w = do {
     w \<leftarrow> (if list \<noteq> 0 \<and> unref_devices then do { cells \<leftarrow> dlists w list; unref_cells fin cells w }
           else Some w);
     m \<leftarrow> free_block (dlists w) list;
     Some (w\<lparr>dlists := m\<rparr>) }"

text \<open>The two functions on the cached device descriptor.\<close>

definition libusby_get_device_descriptor_cached :: "addr \<Rightarrow> ('c, 'd, 'h, 't, 'k) world
    \<Rightarrow> (int \<times> libusby_device_descriptor option) option" where
  "libusby_get_device_descriptor_cached dev w = do {
     d \<leftarrow> devs w dev;
     if unat (dd_bLength (ld_device_desc d)) \<noteq> sizeof_device_descriptor then Some (err LIBUSBY_ERROR_IO, None)
     else Some (err LIBUSBY_SUCCESS, Some (ld_device_desc d)) }"

definition usbyi_sanitize_device_desc :: "libusby_device_descriptor \<Rightarrow> u8 list
    \<Rightarrow> (int \<times> libusby_device_descriptor) option" where
  "usbyi_sanitize_device_desc desc rawdesc = do {
     b0 \<leftarrow> rd rawdesc 0;
     if unat b0 \<noteq> sizeof_device_descriptor then Some (err LIBUSBY_ERROR_IO, desc) else do {
     b \<leftarrow> rd_block rawdesc 0 sizeof_device_descriptor;
     Some (err LIBUSBY_SUCCESS, device_desc_of_bytes b) } }"

definition libusby_get_device :: "addr \<Rightarrow> ('c, 'd, 'h, 't, 'k) world \<Rightarrow> addr option" where
  "libusby_get_device dev_handle w = map_option lh_dev (hnds w dev_handle)"

section \<open>Accounting of references\<close>

text \<open>What the accounting sees of a world: the reference counts, the devices of the
  handles and the cached device descriptors; the arrays of devices are kept as well.\<close>

definition counts :: "('c, 'd, 'h, 't, 'k) world \<Rightarrow> addr \<rightharpoonup> int" where
  "counts w p = map_option ld_ref_count (devs w p)"

definition targets :: "('c, 'd, 'h, 't, 'k) world \<Rightarrow> addr \<rightharpoonup> addr" where
  "targets w a = map_option lh_dev (hnds w a)"

definition descs :: "('c, 'd, 'h, 't, 'k) world \<Rightarrow> addr \<rightharpoonup> libusby_device_descriptor" where
  "descs w p = map_option ld_device_desc (devs w p)"

text \<open>
  \<open>own d\<close> is the number of references the client of the library holds on \<open>d\<close>; every
  open handle holds one more. A device is live exactly while it is referenced, and counts its
  references. All objects lie below the next address.
\<close>

definition refs :: "(addr \<Rightarrow> nat) \<Rightarrow> ('c, 'd, 'h, 't, 'k) world \<Rightarrow> addr \<Rightarrow> nat" where
  "refs own w d = own d + card {a. targets w a = Some d}"

definition refs_ok :: "(addr \<Rightarrow> nat) \<Rightarrow> ('c, 'd, 'h, 't, 'k) world \<Rightarrow> bool" where
  "refs_ok own w \<longleftrightarrow> dl_fresh w \<and> dom (counts w) \<union> dom (targets w) \<subseteq> {0<..<next_addr w} \<and>
     (\<forall>d. counts w d = (if refs own w d = 0 then None else Some (int (refs own w d))))"

definition keeps_refs :: "('c, 'd, 'h, 't, 'k) world \<Rightarrow> ('c, 'd, 'h, 't, 'k) world \<Rightarrow> bool" where
  "keeps_refs w w' \<longleftrightarrow> counts w' = counts w \<and> targets w' = targets w \<and> descs w' = descs w \<and>
     dlists w' = dlists w \<and> next_addr w \<le> next_addr w'"

lemma dl_fresh_grow: "dl_fresh w \<Longrightarrow> dlists w' = dlists w \<Longrightarrow> next_addr w \<le> next_addr w' \<Longrightarrow> dl_fresh w'"
  by (auto simp: dl_fresh_def)

lemma refs_ok_mono:
  assumes "refs_ok own w" "counts w' = counts w" "targets w' = targets w" "next_addr w \<le> next_addr w'" "dl_fresh w'"
  shows "refs_ok own w'"
  using assms by (auto simp: refs_ok_def refs_def)

lemma refs_ok_keeps: "keeps_refs w w' \<Longrightarrow> refs_ok own w \<Longrightarrow> refs_ok own w'"
  unfolding keeps_refs_def by (rule refs_ok_mono) (auto simp: refs_ok_def intro: dl_fresh_grow)

lemma keeps_refs_refl [simp]: "keeps_refs w w"
  by (simp add: keeps_refs_def)

lemma keeps_refs_trans: "keeps_refs w1 w2 \<Longrightarrow> keeps_refs w2 w3 \<Longrightarrow> keeps_refs w1 w3"
  by (simp add: keeps_refs_def)

lemma keeps_refsI [intro]:
  assumes "devs w' = devs w" "hnds w' = hnds w" "dlists w' = dlists w" "next_addr w \<le> next_addr w'"
  shows "keeps_refs w w'"
  using assms by (simp add: keeps_refs_def counts_def targets_def descs_def fun_eq_iff)

text \<open>An update of a device or a handle that leaves the members of the front end alone.\<close>

lemma keeps_refs_device:
  assumes "devs w p = Some d" "ld_ref_count d' = ld_ref_count d" "ld_device_desc d' = ld_device_desc d"
  shows "keeps_refs w (w\<lparr>devs := (devs w)(p \<mapsto> d')\<rparr>)"
  using assms by (simp add: keeps_refs_def counts_def targets_def descs_def fun_eq_iff)

lemma keeps_refs_handle:
  assumes "hnds w p = Some x" "lh_dev x' = lh_dev x"
  shows "keeps_refs w (w\<lparr>hnds := (hnds w)(p \<mapsto> x')\<rparr>)"
  using assms by (simp add: keeps_refs_def counts_def targets_def descs_def fun_eq_iff)

lemma malloc_keeps_refs: "keeps_refs w (snd (malloc n w))"
  by (rule malloc_cases [of n w]) (auto simp: keeps_refsI)

lemma upd_handle_keeps_refs:
  "upd_handle p f w = Some w' \<Longrightarrow> (\<And>x. lh_dev (f x) = lh_dev x) \<Longrightarrow> keeps_refs w w'"
  by (auto simp: monad_simps intro: keeps_refs_handle)

lemma upd_transfer_keeps_refs: "upd_transfer p f w = Some w' \<Longrightarrow> keeps_refs w w'"
  by (auto simp: monad_simps)

lemma upd_context_keeps_refs: "upd_context p f w = Some w' \<Longrightarrow> keeps_refs w w'"
  by (auto simp: monad_simps)

lemma free_transfer_keeps_refs: "free_transfer p w = Some w' \<Longrightarrow> keeps_refs w w'"
  by (auto simp: free_transfer_def monad_simps)

lemma free_buf_keeps_refs: "free_buf p w = Some w' \<Longrightarrow> keeps_refs w w'"
  by (auto simp: free_buf_def monad_simps)

lemma new_buf_keeps_refs: "new_buf n w = (p, w') \<Longrightarrow> keeps_refs w w'"
  using malloc_keeps_refs [of w n]
  by (auto simp: new_buf_def malloc_def Let_def split: if_splits)

lemma new_transfer_keeps_refs: "new_transfer n t w = (p, w') \<Longrightarrow> keeps_refs w w'"
  by (auto simp: new_transfer_def malloc_def Let_def split: if_splits)

lemma refs_ok_counts: "refs_ok own w \<Longrightarrow> counts w d = (if refs own w d = 0 then None else Some (int (refs own w d)))"
  unfolding refs_ok_def by blast

lemma refs_ok_null:
  assumes "refs_ok own w"
  shows "counts w 0 = None" "devs w 0 = None"
proof -
  show "counts w 0 = None" using assms by (auto simp: refs_ok_def)
  then show "devs w 0 = None" by (simp add: counts_def)
qed

lemma refs_ok_live: "refs_ok own w \<Longrightarrow> counts w d = Some n \<Longrightarrow> 0 < d \<and> d < next_addr w"
  unfolding refs_ok_def by (metis UnCI domI greaterThanLessThan_iff subsetD)

text \<open>A change of the references to one device.\<close>

lemma refs_ok_adjust:
  assumes ok: "refs_ok own w" and dev: "dev \<noteq> 0"
    and hnd: "dl_fresh w'" "dom (counts w') \<union> dom (targets w') \<subseteq> {0<..<next_addr w'}"
    and other: "\<And>d. d \<noteq> dev \<Longrightarrow> refs own' w' d = refs own w d"
    and counts: "counts w' = (counts w)(dev := (if refs own' w' dev = 0 then None else Some (int (refs own' w' dev))))"
  shows "refs_ok own' w'"
  unfolding refs_ok_def
proof (intro conjI allI)
  show "counts w' d = (if refs own' w' d = 0 then None else Some (int (refs own' w' d)))" for d
    using refs_ok_counts [OF ok, of d] other [of d] by (cases "d = dev") (simp_all add: counts)
qed (use hnd in auto)

text \<open>A reference taken by the client.\<close>

lemma ref_device_counts:
  "libusby_ref_device dev w = Some w' \<Longrightarrow>
     \<exists>n. counts w dev = Some n \<and> counts w' = (counts w)(dev \<mapsto> n + 1) \<and> targets w' = targets w \<and>
       next_addr w' = next_addr w \<and> descs w' = descs w \<and> dlists w' = dlists w"
  by (auto simp: libusby_ref_device_def monad_simps counts_def targets_def descs_def fun_eq_iff)

lemma ref_device_refs_ok:
  assumes ok: "refs_ok own w" and run: "libusby_ref_device dev w = Some w'"
  shows "refs_ok (own(dev := Suc (own dev))) w'"
proof -
  obtain n where n: "counts w dev = Some n" "counts w' = (counts w)(dev \<mapsto> n + 1)" "targets w' = targets w"
    "next_addr w' = next_addr w"
    "dlists w' = dlists w"
    using ref_device_counts [OF run] by blast
  have dev: "dev \<noteq> 0" using n(1) refs_ok_null(1) [OF ok] by (metis option.distinct(1))
  have new: "refs (own(dev := Suc (own dev))) w' d = (if d = dev then Suc (refs own w d) else refs own w d)" for d
    by (simp add: refs_def n(3))
  have "n = int (refs own w dev)" using n(1) refs_ok_counts [OF ok, of dev] by (simp split: if_splits)
  then show ?thesis
    using ok dl_fresh_grow [of w w'] refs_ok_live [OF ok n(1)]
    by (intro refs_ok_adjust [OF ok dev]) (auto simp: new n refs_ok_def)
qed

lemma ref_device_defined:
  assumes "devs w dev = Some d" "0 \<le> ld_ref_count d" "ld_ref_count d < INT_MAX"
  shows "\<exists>w'. libusby_ref_device dev w = Some w'"
  using assms by (simp add: libusby_ref_device_def upd_device_def c_int_def INT_MIN_def INT_MAX_def)

section \<open>The contract of finalization\<close>

text \<open>
  What the front end relies on: finalizing a device neither touches the reference counts nor
  the handles.
\<close>

locale finalizer =
  fixes fin :: "addr \<Rightarrow> ('c, 'd, 'h, 't, 'k) world \<Rightarrow> ('c, 'd, 'h, 't, 'k) world option"
  assumes fin_refs: "fin dev w = Some w' \<Longrightarrow> keeps_refs w w'"
begin

lemma unref_counts:
  assumes run: "libusby_unref_device fin dev w = Some w'" and null: "devs w 0 = None"
  shows "\<exists>n. counts w dev = Some n \<and> targets w' = targets w \<and> next_addr w \<le> next_addr w' \<and>
    dlists w' = dlists w \<and> descs w' = (if n = 1 then (descs w)(dev := None) else descs w) \<and>
    counts w' = (if n = 1 then (counts w)(dev := None) else (counts w)(dev \<mapsto> n - 1))"
proof -
  obtain d where d: "devs w dev = Some d" and c: "c_int (ld_ref_count d - 1) = Some (ld_ref_count d - 1)"
    using run by (auto simp: libusby_unref_device_def monad_simps)
  let ?n = "ld_ref_count d - 1"
  let ?w1 = "w\<lparr>devs := (devs w)(dev \<mapsto> d\<lparr>ld_ref_count := ?n\<rparr>)\<rparr>"
  have w1: "counts ?w1 = (counts w)(dev \<mapsto> ?n)" "targets ?w1 = targets w" "next_addr ?w1 = next_addr w"
    "descs ?w1 = descs w"
    using d by (auto simp: counts_def targets_def descs_def)
  have run1: "(if ?n = 0 then do { w \<leftarrow> fin dev ?w1; free_device dev w } else Some ?w1) = Some w'"
    using run d c by (simp add: libusby_unref_device_def upd_device_def)
  show ?thesis
  proof (cases "?n = 0")
    case False
    then show ?thesis using run1 w1 d by (auto simp: counts_def)
  next
    case True
    then obtain w2 where w2: "fin dev ?w1 = Some w2" "free_device dev w2 = Some w'"
      using run1 by (auto simp: bind_Some_conv)
    have s: "counts w2 = counts ?w1" "targets w2 = targets ?w1" "next_addr w \<le> next_addr w2" "descs w2 = descs w"
      "dlists w2 = dlists w"
      using fin_refs [OF w2(1)] w1 by (simp_all add: keeps_refs_def)
    have "dev \<noteq> 0" using d null by (metis option.distinct(1))
    then have "counts w' = (counts w2)(dev := None) \<and> targets w' = targets w2 \<and> next_addr w' = next_addr w2 \<and>
        dlists w' = dlists w2 \<and> descs w' = (descs w2)(dev := None)"
      using w2(2)
      by (auto simp: free_device_def free_block_def counts_def targets_def descs_def fun_eq_iff monad_simps split: if_splits)
    then show ?thesis using True s w1 d by (auto simp: counts_def)
  qed
qed

text \<open>A reference given up, by the client or with a handle.\<close>

lemma unref_refs_ok:
  assumes ok: "refs_ok own w"
    and run: "libusby_unref_device fin dev w1 = Some w'" and w1: "counts w1 = counts w"
    and other: "\<And>d. d \<noteq> dev \<Longrightarrow> refs own' w1 d = refs own w d"
    and one: "refs own w dev = Suc (refs own' w1 dev)"
    and hnd: "dlists w1 = dlists w" "next_addr w \<le> next_addr w1" "dom (targets w1) \<subseteq> {0<..<next_addr w1}"
  shows "refs_ok own' w'"
proof -
  have "devs w1 0 = None" using refs_ok_null(1) [OF ok, folded w1] by (simp add: counts_def)
  then obtain n where n: "counts w1 dev = Some n" "targets w' = targets w1" "next_addr w1 \<le> next_addr w'" "dlists w' = dlists w1"
    "counts w' = (if n = 1 then (counts w1)(dev := None) else (counts w1)(dev \<mapsto> n - 1))"
    using unref_counts [OF run] by blast
  have dev: "dev \<noteq> 0" using n(1) w1 refs_ok_null(1) [OF ok] by (metis option.distinct(1))
  have same: "refs own' w' d = refs own' w1 d" for d by (simp add: refs_def n(2))
  have "n = int (refs own w dev)" using n(1) w1 refs_ok_counts [OF ok, of dev] by (simp split: if_splits)
  then have n_eq: "n = int (refs own' w1 dev) + 1" using one by simp
  have "dl_fresh w'" using dl_fresh_grow [of w w'] ok hnd n(3,4) by (simp add: refs_ok_def)
  moreover have "dom (counts w') \<union> dom (targets w') \<subseteq> {0<..<next_addr w'}"
    using ok hnd n refs_ok_live [OF ok n(1) [unfolded w1]] by (auto simp: refs_ok_def w1 split: if_splits)
  ultimately show ?thesis
    by (intro refs_ok_adjust [OF ok dev]) (use other n_eq in \<open>simp_all add: same n(5) w1\<close>)
qed

lemma client_unref_refs_ok:
  assumes ok: "refs_ok own w" and own: "0 < own dev"
    and run: "libusby_unref_device fin dev w = Some w'"
  shows "refs_ok (own(dev := own dev - 1)) w'"
  by (rule unref_refs_ok [OF ok run refl]) (use ok own in \<open>auto simp: refs_def refs_ok_def\<close>)

text \<open>A whole list of references given up, one for each entry.\<close>

lemma unref_cells_refs_ok:
  assumes "refs_ok (\<lambda>p. own p + count_list xs p) w"
    and "unref_cells fin (map Some xs @ Some 0 # rest) w = Some w'" "0 \<notin> set xs"
  shows "refs_ok own w' \<and> targets w' = targets w \<and> dlists w' = dlists w \<and>
    (\<forall>d. counts w' d \<noteq> None \<longrightarrow> descs w' d = descs w d)"
  using assms
proof (induction xs arbitrary: w)
  case Nil
  then show ?case by simp
next
  case (Cons x xs)
  from Cons.prems(2,3) obtain w1 where w1: "libusby_unref_device fin x w = Some w1"
    "unref_cells fin (map Some xs @ Some 0 # rest) w1 = Some w'"
    by (auto simp: bind_Some_conv)
  obtain n where n: "targets w1 = targets w" "dlists w1 = dlists w"
    "descs w1 = (if n = 1 then (descs w)(x := None) else descs w)"
    "counts w1 = (if n = 1 then (counts w)(x := None) else (counts w)(x \<mapsto> n - 1))"
    using unref_counts [OF w1(1) refs_ok_null(2) [OF Cons.prems(1)]] by blast
  have "refs_ok ((\<lambda>p. own p + count_list (x # xs) p)(x := own x + count_list (x # xs) x - 1)) w1"
    by (rule client_unref_refs_ok [OF Cons.prems(1) _ w1(1)]) simp
  also have "(\<lambda>p. own p + count_list (x # xs) p)(x := own x + count_list (x # xs) x - 1)
      = (\<lambda>p. own p + count_list xs p)"
    by (auto simp: fun_eq_iff)
  finally have ok1: "refs_ok (\<lambda>p. own p + count_list xs p) w1" .
  have IH: "refs_ok own w' \<and> targets w' = targets w1 \<and> dlists w' = dlists w1 \<and>
    (\<forall>d. counts w' d \<noteq> None \<longrightarrow> descs w' d = descs w1 d)"
    using Cons.IH [OF ok1 w1(2)] Cons.prems(3) by simp
  have "descs w' d = descs w d" if live: "counts w' d \<noteq> None" for d
  proof -
    have "counts w1 d \<noteq> None"
    proof
      assume "counts w1 d = None"
      then have "refs own w1 d = 0" using refs_ok_counts [OF ok1, of d] by (auto simp: refs_def split: if_splits)
      then have "refs own w' d = 0" using IH by (simp add: refs_def)
      then show False using live IH refs_ok_counts [of own w' d] by simp
    qed
    then have "descs w1 d = descs w d" using n(3,4) by (auto split: if_splits)
    then show ?thesis using IH live by simp
  qed
  then show ?case using IH n by simp
qed

lemma free_device_list_outcome:
  assumes ok: "refs_ok (\<lambda>d. own d + count_list xs d) w" and xs: "0 \<notin> set xs"
    and list: "if xs = [] then l = 0 else l \<noteq> 0 \<and> (\<exists>rest. dlists w l = Some (map Some xs @ Some 0 # rest))"
    and run: "libusby_free_device_list fin l True w = Some w'"
  shows "refs_ok own w' \<and> targets w' = targets w \<and> (\<forall>d. counts w' d \<noteq> None \<longrightarrow> descs w' d = descs w d) \<and>
    dlists w' = (dlists w)(l := None)"
proof (cases "xs = []")
  case True
  moreover have "(dlists w)(0 := None) = dlists w" using ok dl_freshD(3) [of w] by (auto simp: refs_ok_def fun_eq_iff)
  ultimately show ?thesis using ok list run by (simp add: libusby_free_device_list_def free_block_def)
next
  case False
  then obtain rest w1 m where w1: "unref_cells fin (map Some xs @ Some 0 # rest) w = Some w1"
    and m: "free_block (dlists w1) l = Some m" and w': "w' = w1\<lparr>dlists := m\<rparr>"
    using list run by (auto simp: libusby_free_device_list_def monad_simps)
  have "counts w' = counts w1" "targets w' = targets w1" "descs w' = descs w1" "next_addr w' = next_addr w1"
    by (simp_all add: w' counts_def targets_def descs_def fun_eq_iff)
  moreover have "dl_fresh w1" using unref_cells_refs_ok [OF ok w1 xs] by (simp add: refs_ok_def)
  then have "dl_fresh w'" using m by (auto simp: dl_fresh_def w' free_block_def split: if_splits)
  moreover have "dlists w' = (dlists w)(l := None)"
    using m unref_cells_refs_ok [OF ok w1 xs] list False by (auto simp: w' free_block_def split: if_splits)
  ultimately show ?thesis
    using unref_cells_refs_ok [OF ok w1 xs] refs_ok_mono [of own w1 w'] \<open>dl_fresh w'\<close> by simp
qed

end

end
