(* ===== verification/Linux_Base.thy ===== *)
theory Linux_Base
  imports Devices
begin

text \<open>
  The Linux back end, \<^verbatim>\<open>src/os/linux_usbfs.c\<close>: its structures, the system
  calls it relies on, and the operations that need neither the event loop nor the directory of
  devices. The kernel is a parameter \<open>K\<close>: for every system call the code makes, a
  function of its arguments and of the state \<open>'k\<close> of the kernel.
\<close>

section \<open>Structures\<close>

record watched_fd =
  wf_fd :: int
  wf_refcount :: int

record lx_context =
  ctx_mutex :: bool
  loop_enabled :: int
  loop_locked :: int
  watched_fds :: addr
  watched_fd_count :: int
  watched_fd_capacity :: int
  pipe0 :: int
  pipe1 :: int

record lx_device =
  busno :: int
  devno :: int
  dev_fd :: int
  desc_cache :: addr

record lx_handle =
  wrfd :: int
  active_config_value :: int

text \<open>The members of \<open>struct usbdevfs_urb\<close> the library uses.\<close>

record usbdevfs_urb =
  ur_type :: int
  ur_endpoint :: u8
  ur_status :: int
  ur_buffer :: addr
  ur_buffer_length :: int
  ur_actual_length :: int
  ur_usercontext :: addr

record lx_transfer =
  active :: int
  req :: usbdevfs_urb

definition zero_urb :: usbdevfs_urb where
  "zero_urb = \<lparr> ur_type = 0, ur_endpoint = 0, ur_status = 0, ur_buffer = 0, ur_buffer_length = 0,
     ur_actual_length = 0, ur_usercontext = 0 \<rparr>"

definition zero_lx_context :: lx_context where
  "zero_lx_context = \<lparr> ctx_mutex = False, loop_enabled = 0, loop_locked = 0, watched_fds = 0,
     watched_fd_count = 0, watched_fd_capacity = 0, pipe0 = 0, pipe1 = 0 \<rparr>"

definition zero_lx_device :: lx_device where
  "zero_lx_device = \<lparr> busno = 0, devno = 0, dev_fd = 0, desc_cache = 0 \<rparr>"

definition zero_lx_handle :: lx_handle where
  "zero_lx_handle = \<lparr> wrfd = 0, active_config_value = 0 \<rparr>"

definition zero_lx_transfer :: lx_transfer where
  "zero_lx_transfer = \<lparr> active = 0, req = zero_urb \<rparr>"

section \<open>The kernel\<close>

record usbdevfs_ctrltransfer =
  ct_bRequestType :: u8
  ct_bRequest :: u8
  ct_wValue :: u16
  ct_wIndex :: u16
  ct_wLength :: u16
  ct_timeout :: u32

text \<open>
  What reaping a finished request delivers: the transfer in its \<open>usercontext\<close>, what the
  kernel stores in the request, and the new contents of the data buffer.
\<close>

record reaped =
  rp_tran :: addr
  rp_status :: int
  rp_actual_length :: int
  rp_buffer :: "u8 list"

text \<open>Calls that fail return a negative result and set \<open>errno\<close>, the second component.\<close>

record 'k kernel =
  k_open_fd_path :: "int \<Rightarrow> 'k \<Rightarrow> int \<times> 'k"
  k_open :: "string \<Rightarrow> 'k \<Rightarrow> int \<times> 'k"
  k_close :: "int \<Rightarrow> 'k \<Rightarrow> 'k"
  k_opendir :: "string \<Rightarrow> 'k \<Rightarrow> string list option \<times> 'k"
  k_read :: "int \<Rightarrow> nat \<Rightarrow> 'k \<Rightarrow> int \<times> u8 list \<times> 'k"
  k_pipe :: "'k \<Rightarrow> int \<times> int \<times> int \<times> 'k"
  k_write :: "int \<Rightarrow> u8 list \<Rightarrow> 'k \<Rightarrow> int \<times> 'k"
  k_mutex_init :: "'k \<Rightarrow> int \<times> 'k"
  k_mutex_destroy :: "'k \<Rightarrow> 'k"
  k_cond_init :: "'k \<Rightarrow> int \<times> 'k"
  k_cond_destroy :: "'k \<Rightarrow> 'k"
  k_submiturb :: "int \<Rightarrow> addr \<Rightarrow> usbdevfs_urb \<Rightarrow> 'k \<Rightarrow> int \<times> int \<times> 'k"
  k_discardurb :: "int \<Rightarrow> addr \<Rightarrow> 'k \<Rightarrow> int \<times> int \<times> 'k"
  k_reapurbndelay :: "int \<Rightarrow> 'k \<Rightarrow> reaped option \<times> 'k"
  k_control :: "int \<Rightarrow> usbdevfs_ctrltransfer \<Rightarrow> u8 list \<Rightarrow> 'k \<Rightarrow> int \<times> int \<times> u8 list \<times> 'k"
  k_claiminterface :: "int \<Rightarrow> int \<Rightarrow> 'k \<Rightarrow> int \<times> int \<times> 'k"
  k_releaseinterface :: "int \<Rightarrow> int \<Rightarrow> 'k \<Rightarrow> int \<times> int \<times> 'k"
  k_setconfiguration :: "int \<Rightarrow> int \<Rightarrow> 'k \<Rightarrow> int \<times> int \<times> 'k"
  k_poll :: "(int \<times> int) list \<Rightarrow> 'k \<Rightarrow> int \<times> int list \<times> 'k"

text \<open>The kernel and the arrays of watched descriptors; an element never stored is \<open>None\<close>.\<close>

record 'k linux_os =
  wfds :: "addr \<rightharpoonup> watched_fd option list"
  kern :: 'k

type_synonym 'k lx_world = "(lx_context, lx_device, lx_handle, lx_transfer, 'k linux_os) world"

definition set_kern :: "'k \<Rightarrow> 'k lx_world \<Rightarrow> 'k lx_world" where
  "set_kern k w = w\<lparr>os := (os w)\<lparr>kern := k\<rparr>\<rparr>"

definition set_wfds :: "(addr \<rightharpoonup> watched_fd option list) \<Rightarrow> 'k lx_world \<Rightarrow> 'k lx_world" where
  "set_wfds m w = w\<lparr>os := (os w)\<lparr>wfds := m\<rparr>\<rparr>"

text \<open>A call that changes the kernel only.\<close>

definition sys_close :: "'k kernel \<Rightarrow> int \<Rightarrow> 'k lx_world \<Rightarrow> 'k lx_world" where
  "sys_close K fd w = set_kern (k_close K fd (kern (os w))) w"

text \<open>The values of \<open>errno\<close> and of \<open>poll\<close> events the code names.\<close>

abbreviation ENODEV :: int where "ENODEV \<equiv> 19"
abbreviation EBUSY :: int where "EBUSY \<equiv> 16"
abbreviation EPIPE :: int where "EPIPE \<equiv> 32"
definition POLLIN :: int where [simp]: "POLLIN = 1"
definition POLLOUT :: int where [simp]: "POLLOUT = 4"

definition usbfs_error :: "int \<Rightarrow> int" where
  "usbfs_error e = (if e = ENODEV then err LIBUSBY_ERROR_NO_DEVICE
     else if e = EBUSY then err LIBUSBY_ERROR_BUSY else err LIBUSBY_ERROR_IO)"

text \<open>
  The mutex is not recursive: to lock it twice, or to unlock it when it is not locked, has no
  defined result.
\<close>

definition mutex_lock :: "addr \<Rightarrow> 'k lx_world \<Rightarrow> 'k lx_world option" where
  "mutex_lock ctx w = do { c \<leftarrow> ctxs w ctx; c_assert (\<not> ctx_mutex c); upd_context ctx (\<lambda>c. c\<lparr>ctx_mutex := True\<rparr>) w }"

definition mutex_unlock :: "addr \<Rightarrow> 'k lx_world \<Rightarrow> 'k lx_world option" where
  "mutex_unlock ctx w = do { c \<leftarrow> ctxs w ctx; c_assert (ctx_mutex c); upd_context ctx (\<lambda>c. c\<lparr>ctx_mutex := False\<rparr>) w }"

section \<open>Contexts\<close>

text \<open>The condition variable and the mutex of a context, in the order in which they are destroyed.\<close>

definition destroy_locks :: "'k kernel \<Rightarrow> 'k lx_world \<Rightarrow> 'k lx_world" where
  "destroy_locks K w = set_kern (k_mutex_destroy K (k_cond_destroy K (kern (os w)))) w"

definition linux_usbyb_init :: "'k kernel \<Rightarrow> addr \<Rightarrow> 'k lx_world \<Rightarrow> (int \<times> 'k lx_world) option" where
  "linux_usbyb_init K ctx w = do {
     m \<leftarrow> usbyi_init_devlist_head (Devlist_head ctx) (nodes w);
     let w = w\<lparr>nodes := m\<rparr>;
     let (r, k) = k_mutex_init K (kern (os w));
     let w = set_kern k w;
     if r < 0 then Some (err LIBUSBY_ERROR_NO_MEM, w) else do {
     let (r, k) = k_cond_init K (kern (os w));
     let w = set_kern k w;
     if r < 0 then Some (err LIBUSBY_ERROR_NO_MEM, set_kern (k_mutex_destroy K (kern (os w))) w) else do {
     let (r, p0, p1, k) = k_pipe K (kern (os w));
     let w = set_kern k w;
     if r < 0 then Some (err LIBUSBY_ERROR_NO_MEM, destroy_locks K w) else do {
     w \<leftarrow> upd_context ctx (\<lambda>c. c\<lparr>pipe0 := p0, pipe1 := p1, loop_enabled := 1, loop_locked := 0\<rparr>) w;
     Some (err LIBUSBY_SUCCESS, w) } } } }"

definition linux_usbyb_exit :: "'k kernel \<Rightarrow> addr \<Rightarrow> 'k lx_world \<Rightarrow> 'k lx_world option" where
  "linux_usbyb_exit K ctx w = do {
     head \<leftarrow> nodes w (Devlist_head ctx);
     c_assert (dn_next head = Some (Devlist_head ctx));
     c \<leftarrow> ctxs w ctx;
     m \<leftarrow> free_block (wfds (os w)) (watched_fds c);
     Some (destroy_locks K (sys_close K (pipe1 c) (sys_close K (pipe0 c) (set_wfds m w)))) }"

section \<open>Handles\<close>

definition linux_usbyb_open :: "'k kernel \<Rightarrow> addr \<Rightarrow> 'k lx_world \<Rightarrow> (int \<times> 'k lx_world) option" where
  "linux_usbyb_open K handle w = do {
     h \<leftarrow> hnds w handle;
     d \<leftarrow> devs w (lh_dev h);
     let (fd, k) = k_open_fd_path K (dev_fd (ld_os d)) (kern (os w));
     let w = set_kern k w;
     if fd = -1 then Some (err LIBUSBY_ERROR_ACCESS, w) else do {
     w \<leftarrow> upd_handle handle (\<lambda>h. h\<lparr>lh_os := (lh_os h)\<lparr>wrfd := fd, active_config_value := -1\<rparr>\<rparr>) w;
     Some (err LIBUSBY_SUCCESS, w) } }"

definition linux_usbyb_close :: "'k kernel \<Rightarrow> addr \<Rightarrow> 'k lx_world \<Rightarrow> 'k lx_world option" where
  "linux_usbyb_close K handle w = do {
     h \<leftarrow> hnds w handle;
     upd_handle handle (\<lambda>h. h\<lparr>lh_os := (lh_os h)\<lparr>wrfd := -1\<rparr>\<rparr>) (sys_close K (wrfd (lh_os h)) w) }"

definition linux_usbyb_finalize_device :: "'k kernel \<Rightarrow> addr \<Rightarrow> 'k lx_world \<Rightarrow> 'k lx_world option" where
  "linux_usbyb_finalize_device K dev w = do {
     (_, m) \<leftarrow> usbyi_remove_devlist_node (Devnode dev) (nodes w);
     d \<leftarrow> devs w dev;
     w \<leftarrow> free_buf (desc_cache (ld_os d)) (w\<lparr>nodes := m\<rparr>);
     Some (sys_close K (dev_fd (ld_os d)) w) }"

text \<open>The three requests that map a failed \<open>ioctl\<close> to an error.\<close>

definition ioctl_result :: "int \<times> int \<times> 'k \<Rightarrow> 'k lx_world \<Rightarrow> int \<times> 'k lx_world" where
  "ioctl_result x w = (case x of (r, e, k) \<Rightarrow> (if r < 0 then usbfs_error e else err LIBUSBY_SUCCESS, set_kern k w))"

definition linux_usbyb_claim_interface :: "'k kernel \<Rightarrow> addr \<Rightarrow> int \<Rightarrow> 'k lx_world \<Rightarrow> (int \<times> 'k lx_world) option" where
  "linux_usbyb_claim_interface K handle n w = do {
     h \<leftarrow> hnds w handle;
     Some (ioctl_result (k_claiminterface K (wrfd (lh_os h)) n (kern (os w))) w) }"

definition linux_usbyb_release_interface :: "'k kernel \<Rightarrow> addr \<Rightarrow> int \<Rightarrow> 'k lx_world \<Rightarrow> (int \<times> 'k lx_world) option" where
  "linux_usbyb_release_interface K handle n w = do {
     h \<leftarrow> hnds w handle;
     Some (ioctl_result (k_releaseinterface K (wrfd (lh_os h)) n (kern (os w))) w) }"

definition linux_usbyb_get_configuration :: "addr \<Rightarrow> bool \<Rightarrow> 'k lx_world \<Rightarrow> (int \<times> int option \<times> 'k lx_world) option" where
  "linux_usbyb_get_configuration handle cached_only w = do {
     h \<leftarrow> hnds w handle;
     if active_config_value (lh_os h) < 0 then Some (err LIBUSBY_ERROR_NOT_SUPPORTED, None, w)
     else Some (err LIBUSBY_SUCCESS, Some (active_config_value (lh_os h)), w) }"

definition linux_usbyb_set_configuration :: "'k kernel \<Rightarrow> addr \<Rightarrow> int \<Rightarrow> 'k lx_world \<Rightarrow> (int \<times> 'k lx_world) option" where
  "linux_usbyb_set_configuration K handle config_value w = do {
     h \<leftarrow> hnds w handle;
     let (r, w) = ioctl_result (k_setconfiguration K (wrfd (lh_os h)) config_value (kern (os w))) w;
     if r < 0 then Some (r, w) else do {
     w \<leftarrow> upd_handle handle (\<lambda>h. h\<lparr>lh_os := (lh_os h)\<lparr>active_config_value := config_value\<rparr>\<rparr>) w;
     Some (err LIBUSBY_SUCCESS, w) } }"

section \<open>The cache of configuration descriptors\<close>

text \<open>
  The loop over the cached configurations: \<open>off\<close> is the offset of \<open>cache_ptr\<close> in the
  block at \<open>p\<close>, which is only looked at for a device with configurations.
\<close>

fun desc_cache_loop :: "addr \<Rightarrow> nat \<Rightarrow> nat list \<Rightarrow> u8 \<Rightarrow> u8 list \<Rightarrow> int \<Rightarrow> 'k lx_world \<Rightarrow> (int \<times> u8 list) option" where
  "desc_cache_loop p off [] desc_index data len w = Some (err LIBUSBY_ERROR_INVALID_PARAM, data)"
| "desc_cache_loop p off (i # is) desc_index data len w = do {
     cache \<leftarrow> bufs w p;
     lo \<leftarrow> rd cache (off + 2);
     hi \<leftarrow> rd cache (off + 3);
     let wTotalLength = le16 lo hi;
     if i = unat desc_index then do {
       let len = (if len > uint wTotalLength then uint wTotalLength else len);
       c_assert (0 \<le> len);
       body \<leftarrow> rd_block cache off (nat len);
       data \<leftarrow> wr_block data 0 body;
       Some (len, data) }
     else desc_cache_loop p (off + unat wTotalLength) is desc_index data len w }"

definition linux_usbyb_get_descriptor_cached :: "addr \<Rightarrow> u8 \<Rightarrow> u8 \<Rightarrow> u16 \<Rightarrow> u8 list \<Rightarrow> int \<Rightarrow> 'k lx_world
    \<Rightarrow> (int \<times> u8 list \<times> 'k lx_world) option" where
  "linux_usbyb_get_descriptor_cached dev desc_type desc_index langid data len w = do {
     d \<leftarrow> devs w dev;
     if desc_type \<noteq> 2 then Some (err LIBUSBY_ERROR_NOT_SUPPORTED, data, w) else do {
     (r, data) \<leftarrow> desc_cache_loop (desc_cache (ld_os d)) 0 [0..<unat (dd_bNumConfigurations (ld_device_desc d))]
       desc_index data len w;
     Some (r, data, w) } }"

definition linux_usbyb_get_descriptor :: "addr \<Rightarrow> u8 \<Rightarrow> u8 \<Rightarrow> u16 \<Rightarrow> u8 list \<Rightarrow> int \<Rightarrow> 'k lx_world
    \<Rightarrow> (int \<times> u8 list \<times> 'k lx_world) option" where
  "linux_usbyb_get_descriptor handle desc_type desc_index langid data len w = do {
     h \<leftarrow> hnds w handle;
     linux_usbyb_get_descriptor_cached (lh_dev h) desc_type desc_index langid data len w }"

end
