(* ===== verification/Linux_Transfer.thy ===== *)
theory Linux_Transfer
  imports Linux_Base
begin

text \<open>
  Transfers of the Linux back end: initialization, synchronous control transfers, submission
  and cancellation, and the table of watched file descriptors
  (\<^verbatim>\<open>src/os/linux_usbfs.c\<close>).
\<close>

section \<open>Watched file descriptors\<close>

definition usbfs_unwatch_fd :: "addr \<Rightarrow> nat \<Rightarrow> 'k lx_world \<Rightarrow> 'k lx_world option" where
  "usbfs_unwatch_fd ctx fdindex w = do {
     c \<leftarrow> ctxs w ctx;
     arr \<leftarrow> wfds (os w) (watched_fds c);
     cell \<leftarrow> rd arr fdindex;
     e \<leftarrow> cell;
     n \<leftarrow> c_int (wf_refcount e - 1);
     arr \<leftarrow> wr arr fdindex (Some (e\<lparr>wf_refcount := n\<rparr>));
     let w = set_wfds ((wfds (os w))(watched_fds c \<mapsto> arr)) w;
     if n = 0 then do {
       count \<leftarrow> c_int (watched_fd_count c - 1);
       w \<leftarrow> upd_context ctx (\<lambda>c. c\<lparr>watched_fd_count := count\<rparr>) w;
       if count \<noteq> 0 then do {
         c_assert (0 \<le> count);
         last_cell \<leftarrow> rd arr (nat count);
         arr \<leftarrow> wr arr fdindex last_cell;
         Some (set_wfds ((wfds (os w))(watched_fds c \<mapsto> arr)) w) }
       else Some w }
     else Some w }"

text \<open>The search of \<open>usbyb_submit_transfer\<close>: the index of the descriptor, or the number of entries.\<close>

fun find_watched :: "watched_fd option list \<Rightarrow> int \<Rightarrow> nat \<Rightarrow> nat \<Rightarrow> nat option" where
  "find_watched arr fd i 0 = Some i"
| "find_watched arr fd i (Suc n) = do {
     cell \<leftarrow> rd arr i;
     e \<leftarrow> cell;
     if wf_fd e = fd then Some i else find_watched arr fd (Suc i) n }"

text \<open>\<open>realloc\<close> of the table to \<open>n\<close> entries.\<close>

definition realloc_watched :: "addr \<Rightarrow> nat \<Rightarrow> 'k lx_world \<Rightarrow> (addr \<times> 'k lx_world) option" where
  "realloc_watched old n w = do {
     es \<leftarrow> (if old = 0 then Some [] else wfds (os w) old);
     let (p, w') = malloc (8 * n) w;
     if p = 0 then Some (0, w')
     else Some (p, set_wfds ((wfds (os w'))(old := None, p \<mapsto> take n (es @ replicate (n - length es) None))) w') }"

text \<open>
  The growth of a full table. When \<open>realloc\<close> fails, the table is replaced by the null
  pointer, and the result is the error.
\<close>

definition grow_watched :: "addr \<Rightarrow> 'k lx_world \<Rightarrow> (int \<times> 'k lx_world) option" where
  "grow_watched ctx w = do {
     c \<leftarrow> ctxs w ctx;
     if watched_fd_count c \<noteq> watched_fd_capacity c then Some (err LIBUSBY_SUCCESS, w) else do {
     x \<leftarrow> c_int (watched_fd_capacity c * 3);
     let newcap = (if watched_fd_capacity c = 0 then 4 else x div 2);
     (newfds, w) \<leftarrow> realloc_watched (watched_fds c) (nat newcap) w;
     w \<leftarrow> upd_context ctx (\<lambda>c. c\<lparr>watched_fds := newfds, watched_fd_capacity := newcap\<rparr>) w;
     Some (if newfds = 0 then err LIBUSBY_ERROR_NO_MEM else err LIBUSBY_SUCCESS, w) } }"

text \<open>The new entry, stored even when the growth has failed: then through the null pointer.\<close>

definition store_watched :: "addr \<Rightarrow> nat \<Rightarrow> int \<Rightarrow> 'k lx_world \<Rightarrow> 'k lx_world option" where
  "store_watched ctx i fd w = do {
     c \<leftarrow> ctxs w ctx;
     count \<leftarrow> c_int (watched_fd_count c + 1);
     w \<leftarrow> upd_context ctx (\<lambda>c. c\<lparr>watched_fd_count := count\<rparr>) w;
     arr \<leftarrow> wfds (os w) (watched_fds c);
     arr \<leftarrow> wr arr i (Some \<lparr> wf_fd = fd, wf_refcount = 0 \<rparr>);
     Some (set_wfds ((wfds (os w))(watched_fds c \<mapsto> arr)) w) }"

text \<open>
  The part of \<open>usbyb_submit_transfer\<close> that makes sure the descriptor is watched, and leaves
  its index.
\<close>

definition watch_fd :: "addr \<Rightarrow> int \<Rightarrow> 'k lx_world \<Rightarrow> (int \<times> nat \<times> 'k lx_world) option" where
  "watch_fd ctx fd w = do {
     c \<leftarrow> ctxs w ctx;
     arr \<leftarrow> (if watched_fd_count c = 0 then Some [] else wfds (os w) (watched_fds c));
     c_assert (0 \<le> watched_fd_count c);
     i \<leftarrow> find_watched arr fd 0 (nat (watched_fd_count c));
     if watched_fd_count c \<noteq> int i then Some (err LIBUSBY_SUCCESS, i, w) else do {
     (r, w) \<leftarrow> grow_watched ctx w;
     w \<leftarrow> store_watched ctx i fd w;
     Some (r, i, w) } }"

section \<open>Transfers\<close>

definition linux_usbyb_init_transfer :: "'k kernel \<Rightarrow> addr \<Rightarrow> 'k lx_world \<Rightarrow> (int \<times> 'k lx_world) option" where
  "linux_usbyb_init_transfer K tran w = do {
     let (r, k) = k_cond_init K (kern (os w));
     let w = set_kern k w;
     if r \<noteq> 0 then Some (err LIBUSBY_ERROR_NO_MEM, w) else do {
     w \<leftarrow> upd_transfer tran (\<lambda>t. t\<lparr>tr_os := (tr_os t)\<lparr>active := 0\<rparr>\<rparr>) w;
     Some (err LIBUSBY_SUCCESS, w) } }"

definition linux_usbyb_clear_transfer :: "'k kernel \<Rightarrow> addr \<Rightarrow> 'k lx_world \<Rightarrow> 'k lx_world option" where
  "linux_usbyb_clear_transfer K tran w = do {
     _ \<leftarrow> trans w tran;
     Some (set_kern (k_cond_destroy K (kern (os w))) w) }"

text \<open>The \<open>type\<close> of the request of a transfer, \<open>None\<close> for the unsupported ones.\<close>

definition urb_type :: "u8 \<Rightarrow> int option" where
  "urb_type ty = (if ty = type_code LIBUSBY_TRANSFER_TYPE_CONTROL then Some 2
     else if ty = type_code LIBUSBY_TRANSFER_TYPE_BULK then Some 3
     else if ty = type_code LIBUSBY_TRANSFER_TYPE_INTERRUPT then Some 1 else None)"

definition linux_usbyb_submit_transfer :: "'k kernel \<Rightarrow> addr \<Rightarrow> 'k lx_world \<Rightarrow> (int \<times> 'k lx_world) option" where
  "linux_usbyb_submit_transfer K tran w = do {
     t \<leftarrow> trans w tran;
     h \<leftarrow> hnds w (lt_dev_handle (tr_pub t));
     d \<leftarrow> devs w (lh_dev h);
     let ctx = ld_ctx d;
     c_assert (ctx = it_ctx t);
     w \<leftarrow> upd_transfer tran (\<lambda>t. t\<lparr>tr_os := (tr_os t)\<lparr>req := zero_urb\<rparr>\<rparr>) w;
     case urb_type (lt_type (tr_pub t)) of None \<Rightarrow> Some (err LIBUSBY_ERROR_NOT_SUPPORTED, w)
     | Some ty \<Rightarrow> do {
       let rq = zero_urb\<lparr>ur_type := ty, ur_endpoint := lt_endpoint (tr_pub t), ur_buffer := lt_buffer (tr_pub t),
         ur_buffer_length := lt_length (tr_pub t), ur_usercontext := tran\<rparr>;
       w \<leftarrow> upd_transfer tran (\<lambda>t. t\<lparr>tr_os := (tr_os t)\<lparr>req := rq\<rparr>\<rparr>) w;
       w \<leftarrow> mutex_lock ctx w;
       (r, i, w) \<leftarrow> watch_fd ctx (wrfd (lh_os h)) w;
       (r, w) \<leftarrow> (if r \<ge> 0 then do {
           let (q, e, k) = k_submiturb K (wrfd (lh_os h)) tran rq (kern (os w));
           let w = set_kern k w;
           if q < 0 then do { w \<leftarrow> usbfs_unwatch_fd ctx i w; Some (usbfs_error e, w) }
           else Some (r, w) }
         else Some (r, w));
       c \<leftarrow> ctxs w ctx;
       w \<leftarrow> (if r \<ge> 0 \<and> loop_locked c \<noteq> 0 then
           upd_transfer tran (\<lambda>t. t\<lparr>tr_os := (tr_os t)\<lparr>active := 1\<rparr>\<rparr>)
             (set_kern (snd (k_write K (pipe1 c) [117] (kern (os w)))) w)
         else Some w);
       w \<leftarrow> mutex_unlock ctx w;
       Some (r, w) } }"

definition linux_usbyb_cancel_transfer :: "'k kernel \<Rightarrow> addr \<Rightarrow> 'k lx_world \<Rightarrow> (int \<times> 'k lx_world) option" where
  "linux_usbyb_cancel_transfer K tran w = do {
     t \<leftarrow> trans w tran;
     h \<leftarrow> hnds w (lt_dev_handle (tr_pub t));
     Some (ioctl_result (k_discardurb K (wrfd (lh_os h)) tran (kern (os w))) w) }"

section \<open>Synchronous control transfers\<close>

text \<open>The request read from the setup packet at the start of the buffer.\<close>

definition ctrl_request :: "u8 list \<Rightarrow> usbdevfs_ctrltransfer option" where
  "ctrl_request b = do {
     b0 \<leftarrow> rd b 0; b1 \<leftarrow> rd b 1; b2 \<leftarrow> rd b 2; b3 \<leftarrow> rd b 3;
     b4 \<leftarrow> rd b 4; b5 \<leftarrow> rd b 5; b6 \<leftarrow> rd b 6; b7 \<leftarrow> rd b 7;
     Some \<lparr> ct_bRequestType = b0, ct_bRequest = b1, ct_wValue = le16 b2 b3, ct_wIndex = le16 b4 b5,
       ct_wLength = le16 b6 b7, ct_timeout = 0 \<rparr> }"

definition control_status :: "int \<Rightarrow> libusby_transfer_status" where
  "control_status e = (if e = ENODEV then LIBUSBY_TRANSFER_NO_DEVICE
     else if e = EPIPE then LIBUSBY_TRANSFER_STALL else LIBUSBY_TRANSFER_ERROR)"

text \<open>
  The kernel reads or writes at most \<open>wLength\<close> bytes at \<open>buffer + 8\<close>; they must
  lie in the buffer.
\<close>

definition linux_usbyb_perform_transfer :: "'k kernel \<Rightarrow> addr \<Rightarrow> 'k lx_world \<Rightarrow> (int \<times> 'k lx_world) option" where
  "linux_usbyb_perform_transfer K tran w = do {
     t \<leftarrow> trans w tran;
     if lt_type (tr_pub t) \<noteq> type_code LIBUSBY_TRANSFER_TYPE_CONTROL
     then Some (err LIBUSBY_ERROR_NOT_SUPPORTED, w) else do {
     b \<leftarrow> bufs w (lt_buffer (tr_pub t));
     rq \<leftarrow> ctrl_request b;
     h \<leftarrow> hnds w (lt_dev_handle (tr_pub t));
     body \<leftarrow> rd_block b 8 (unat (ct_wLength rq));
     let (r, e, body, k) = k_control K (wrfd (lh_os h)) rq body (kern (os w));
     b \<leftarrow> wr_block b 8 (take (unat (ct_wLength rq)) body);
     let w = set_kern k (w\<lparr>bufs := (bufs w)(lt_buffer (tr_pub t) \<mapsto> b)\<rparr>);
     w \<leftarrow> (if r \<ge> 0 then do {
         n \<leftarrow> c_int (r + 8);
         upd_transfer tran (upd_pub (\<lambda>p. p\<lparr>lt_actual_length := n,
           lt_status := status_code LIBUSBY_TRANSFER_COMPLETED\<rparr>)) w }
       else upd_transfer tran (upd_pub (\<lambda>p. p\<lparr>lt_status := status_code (control_status e)\<rparr>)) w);
     Some (err LIBUSBY_SUCCESS, w) } }"

end
