(* ===== verification/Linux_Loop.thy ===== *)
theory Linux_Loop
  imports Linux_Transfer
begin

text \<open>
  The event loop of the Linux back end (\<^verbatim>\<open>src/os/linux_usbfs.c\<close>). \<open>env\<close> is
  what the other threads do while this one has released the mutex of the context: it maps the
  world at the release to the world at the next acquisition. \<open>cb\<close> runs the callback of a
  transfer, which it gets by the address of the whole structure. A loop that never ends has the result \<open>None\<close>.
\<close>

section \<open>Waiting\<close>

text \<open>\<open>pthread_cond_wait\<close>: the mutex is released while the other threads run.\<close>

definition cond_wait :: "('k lx_world \<Rightarrow> 'k lx_world option) \<Rightarrow> addr \<Rightarrow> 'k lx_world \<Rightarrow> 'k lx_world option" where
  "cond_wait env ctx w = do { w \<leftarrow> mutex_unlock ctx w; w \<leftarrow> env w; mutex_lock ctx w }"

partial_function (option) wait_unlocked :: "('k lx_world \<Rightarrow> 'k lx_world option) \<Rightarrow> addr \<Rightarrow> 'k lx_world \<Rightarrow> 'k lx_world option" where
  "wait_unlocked env ctx w = do {
     c \<leftarrow> ctxs w ctx;
     if loop_enabled c \<noteq> 0 \<and> loop_locked c \<noteq> 0
     then do { w \<leftarrow> cond_wait env ctx w; wait_unlocked env ctx w }
     else Some w }"

partial_function (option) wait_inactive :: "('k lx_world \<Rightarrow> 'k lx_world option) \<Rightarrow> addr \<Rightarrow> addr \<Rightarrow> 'k lx_world \<Rightarrow> 'k lx_world option" where
  "wait_inactive env ctx tran w = do {
     t \<leftarrow> trans w tran;
     if active (tr_os t) \<noteq> 0
     then do { w \<leftarrow> cond_wait env ctx w; wait_inactive env ctx tran w }
     else Some w }"

section \<open>Reaping\<close>

text \<open>What the kernel stores when it delivers a finished request.\<close>

definition deliver :: "reaped \<Rightarrow> 'k lx_world \<Rightarrow> 'k lx_world option" where
  "deliver rp w = do {
     t \<leftarrow> trans w (rp_tran rp);
     w \<leftarrow> upd_transfer (rp_tran rp) (\<lambda>t. t\<lparr>tr_os := (tr_os t)\<lparr>req := (req (tr_os t))\<lparr>
       ur_status := rp_status rp, ur_actual_length := rp_actual_length rp\<rparr>\<rparr>\<rparr>) w;
     if rp_buffer rp = [] then Some w else do {
     b \<leftarrow> bufs w (ur_buffer (req (tr_os t)));
     b \<leftarrow> wr_block b 0 (rp_buffer rp);
     Some (w\<lparr>bufs := (bufs w)(ur_buffer (req (tr_os t)) \<mapsto> b)\<rparr>) } }"

text \<open>The completion of a transfer: its public result, its callback, its \<open>active\<close> flag.\<close>

definition complete_transfer :: "(nat \<Rightarrow> addr \<Rightarrow> 'k lx_world \<Rightarrow> 'k lx_world option) \<Rightarrow> addr \<Rightarrow> nat \<Rightarrow> addr
    \<Rightarrow> 'k lx_world \<Rightarrow> 'k lx_world option" where
  "complete_transfer cb ctx i tran w = do {
     t \<leftarrow> trans w tran;
     n \<leftarrow> c_int (ur_actual_length (req (tr_os t))
       + (if lt_type (tr_pub t) = type_code LIBUSBY_TRANSFER_TYPE_CONTROL then 8 else 0));
     w \<leftarrow> upd_transfer tran (upd_pub (\<lambda>p. p\<lparr>lt_actual_length := n,
       lt_status := (if ur_status (req (tr_os t)) \<noteq> 0 then err LIBUSBY_ERROR_IO else lt_status p)\<rparr>)) w;
     w \<leftarrow> mutex_lock ctx w;
     w \<leftarrow> upd_transfer tran (\<lambda>t. t\<lparr>tr_os := (tr_os t)\<lparr>active := 2\<rparr>\<rparr>) w;
     w \<leftarrow> (if lt_callback (tr_pub t) \<noteq> 0 then do {
         w \<leftarrow> mutex_unlock ctx w;
         w \<leftarrow> cb (lt_callback (tr_pub t)) tran w;
         mutex_lock ctx w }
       else Some w);
     t \<leftarrow> trans w tran;
     w \<leftarrow> (if active (tr_os t) = 2 then upd_transfer tran (\<lambda>t. t\<lparr>tr_os := (tr_os t)\<lparr>active := 0\<rparr>\<rparr>) w
         else Some w);
     w \<leftarrow> usbfs_unwatch_fd ctx i w;
     mutex_unlock ctx w }"

text \<open>The loop over the polled descriptors, from index \<open>i\<close> on.\<close>

fun reap_loop :: "'k kernel \<Rightarrow> (nat \<Rightarrow> addr \<Rightarrow> 'k lx_world \<Rightarrow> 'k lx_world option) \<Rightarrow> addr \<Rightarrow> nat \<Rightarrow> (int \<times> int) list
    \<Rightarrow> 'k lx_world \<Rightarrow> 'k lx_world option" where
  "reap_loop K cb ctx i [] w = Some w"
| "reap_loop K cb ctx i ((fd, revents) # fds) w =
     (if revents AND POLLOUT = 0 then reap_loop K cb ctx (Suc i) fds w else
      case k_reapurbndelay K fd (kern (os w)) of
        (None, k) \<Rightarrow> reap_loop K cb ctx (Suc i) fds (set_kern k w)
      | (Some rp, k) \<Rightarrow> do {
          w \<leftarrow> deliver rp (set_kern k w);
          w \<leftarrow> complete_transfer cb ctx i (rp_tran rp) w;
          reap_loop K cb ctx (Suc i) fds w })"

section \<open>The loop\<close>

text \<open>The descriptors of the table.\<close>

definition watched_list :: "lx_context \<Rightarrow> 'k lx_world \<Rightarrow> int list option" where
  "watched_list c w = do {
     c_assert (0 \<le> watched_fd_count c);
     if watched_fd_count c = 0 then Some [] else do {
     arr \<leftarrow> wfds (os w) (watched_fds c);
     cells \<leftarrow> rd_block arr 0 (nat (watched_fd_count c));
     es \<leftarrow> those cells;
     Some (map wf_fd es) } }"

text \<open>
  One pass with the mutex released: \<open>poll\<close>, the reaping, and the byte of the pipe. \<open>fds\<close>
  are the watched descriptors; the last one polled is the pipe. It leaves the error so far.
\<close>

definition poll_once :: "'k kernel \<Rightarrow> (nat \<Rightarrow> addr \<Rightarrow> 'k lx_world \<Rightarrow> 'k lx_world option) \<Rightarrow> addr \<Rightarrow> int list \<Rightarrow> int
    \<Rightarrow> 'k lx_world \<Rightarrow> (int \<times> 'k lx_world) option" where
  "poll_once K cb ctx fds pipe_fd w =
     (case k_poll K (map (\<lambda>fd. (fd, POLLOUT)) fds @ [(pipe_fd, POLLIN)]) (kern (os w)) of (n, revents, k) \<Rightarrow>
      let w = set_kern k w in
      if n < 0 then Some (err LIBUSBY_ERROR_IO, w) else do {
      c_assert (length revents = Suc (length fds));
      w \<leftarrow> reap_loop K cb ctx 0 (zip fds revents) w;
      if last revents AND POLLIN \<noteq> 0 then
        (case k_read K pipe_fd 1 (kern (os w)) of (q, _, k) \<Rightarrow>
           Some (if q < 0 then err LIBUSBY_ERROR_IO else err LIBUSBY_SUCCESS, set_kern k w))
      else Some (err LIBUSBY_SUCCESS, w) })"

text \<open>
  The \<open>while\<close> loop: \<open>cap\<close> is the capacity of the local array \<open>pollfds\<close>, \<open>r\<close> the
  result so far. While the mutex is released the other threads run, here before \<open>poll\<close>.
\<close>

definition still_waiting :: "addr option \<Rightarrow> 'k lx_world \<Rightarrow> bool option" where
  "still_waiting watch_tran w = (case watch_tran of None \<Rightarrow> Some True
     | Some tran \<Rightarrow> map_option (\<lambda>t. active (tr_os t) \<noteq> 0) (trans w tran))"

partial_function (option) event_loop :: "'k kernel \<Rightarrow> ('k lx_world \<Rightarrow> 'k lx_world option)
    \<Rightarrow> (nat \<Rightarrow> addr \<Rightarrow> 'k lx_world \<Rightarrow> 'k lx_world option) \<Rightarrow> addr \<Rightarrow> addr option \<Rightarrow> int \<Rightarrow> int
    \<Rightarrow> 'k lx_world \<Rightarrow> (int \<times> 'k lx_world) option" where
  "event_loop K env cb ctx watch_tran cap r w = do {
     c \<leftarrow> ctxs w ctx;
     waiting \<leftarrow> still_waiting watch_tran w;
     if \<not> (waiting \<and> r \<ge> 0 \<and> loop_enabled c \<noteq> 0) then Some (r, w) else do {
     fds \<leftarrow> watched_list c w;
     let grow = cap < watched_fd_count c + 1;
     let (p, w) = (if grow then malloc (8 * nat (watched_fd_count c + 1)) w else (1, w));
     if p = 0 then Some (err LIBUSBY_ERROR_NO_MEM, w) else do {
     w \<leftarrow> mutex_unlock ctx w;
     w \<leftarrow> env w;
     x \<leftarrow> poll_once K cb ctx fds (pipe0 c) w;
     w \<leftarrow> mutex_lock ctx (snd x);
     event_loop K env cb ctx watch_tran (if grow then watched_fd_count c + 1 else cap) (fst x) w } } }"

declare wait_unlocked.simps [code] wait_inactive.simps [code] event_loop.simps [code]

definition usbfs_run_event_loop_impl :: "'k kernel \<Rightarrow> ('k lx_world \<Rightarrow> 'k lx_world option)
    \<Rightarrow> (nat \<Rightarrow> addr \<Rightarrow> 'k lx_world \<Rightarrow> 'k lx_world option) \<Rightarrow> addr \<Rightarrow> addr option
    \<Rightarrow> 'k lx_world \<Rightarrow> (int \<times> 'k lx_world) option" where
  "usbfs_run_event_loop_impl K env cb ctx watch_tran w = do {
     w \<leftarrow> wait_unlocked env ctx w;
     w \<leftarrow> upd_context ctx (\<lambda>c. c\<lparr>loop_locked := 1\<rparr>) w;
     (r, w) \<leftarrow> event_loop K env cb ctx watch_tran 0 (err LIBUSBY_SUCCESS) w;
     w \<leftarrow> upd_context ctx (\<lambda>c. c\<lparr>loop_locked := 0\<rparr>) w;
     Some (r, w) }"

definition linux_usbyb_run_event_loop :: "'k kernel \<Rightarrow> ('k lx_world \<Rightarrow> 'k lx_world option)
    \<Rightarrow> (nat \<Rightarrow> addr \<Rightarrow> 'k lx_world \<Rightarrow> 'k lx_world option) \<Rightarrow> addr \<Rightarrow> 'k lx_world \<Rightarrow> (int \<times> 'k lx_world) option" where
  "linux_usbyb_run_event_loop K env cb ctx w = do {
     w \<leftarrow> mutex_lock ctx w;
     (r, w) \<leftarrow> usbfs_run_event_loop_impl K env cb ctx None w;
     w \<leftarrow> mutex_unlock ctx w;
     Some (r, w) }"

definition linux_usbyb_wait_for_transfer :: "'k kernel \<Rightarrow> ('k lx_world \<Rightarrow> 'k lx_world option)
    \<Rightarrow> (nat \<Rightarrow> addr \<Rightarrow> 'k lx_world \<Rightarrow> 'k lx_world option) \<Rightarrow> addr \<Rightarrow> 'k lx_world \<Rightarrow> (int \<times> 'k lx_world) option" where
  "linux_usbyb_wait_for_transfer K env cb tran w = do {
     t \<leftarrow> trans w tran;
     let ctx = it_ctx t;
     w \<leftarrow> mutex_lock ctx w;
     c \<leftarrow> ctxs w ctx;
     (r, w) \<leftarrow> (if loop_locked c = 0 then usbfs_run_event_loop_impl K env cb ctx (Some tran) w
       else Some (err LIBUSBY_SUCCESS, w));
     w \<leftarrow> wait_inactive env ctx tran w;
     w \<leftarrow> mutex_unlock ctx w;
     Some (r, w) }"

definition linux_usbyb_stop_event_loop :: "'k kernel \<Rightarrow> addr \<Rightarrow> 'k lx_world \<Rightarrow> 'k lx_world option" where
  "linux_usbyb_stop_event_loop K ctx w = do {
     w \<leftarrow> mutex_lock ctx w;
     w \<leftarrow> upd_context ctx (\<lambda>c. c\<lparr>loop_enabled := 0\<rparr>) w;
     c \<leftarrow> ctxs w ctx;
     let w = (if loop_locked c \<noteq> 0 then set_kern (snd (k_write K (pipe1 c) [115] (kern (os w)))) w else w);
     mutex_unlock ctx w }"

definition linux_usbyb_reset_event_loop :: "addr \<Rightarrow> 'k lx_world \<Rightarrow> 'k lx_world option" where
  "linux_usbyb_reset_event_loop ctx w = do {
     w \<leftarrow> mutex_lock ctx w;
     w \<leftarrow> upd_context ctx (\<lambda>c. c\<lparr>loop_enabled := 1\<rparr>) w;
     mutex_unlock ctx w }"

end
