(* ===== verification/Linux_Enum.thy ===== *)
theory Linux_Enum
  imports Linux_Base
begin

text \<open>
  The enumeration of the devices by the Linux back end: the walk over
  \<^verbatim>\<open>/dev/bus/usb\<close>, the look-up in the ring of known devices, the creation of a
  device and the reading of its descriptors
  (\<^verbatim>\<open>usbyb_get_device_list\<close> in \<^verbatim>\<open>src/os/linux_usbfs.c\<close>).
\<close>

section \<open>Names\<close>

text \<open>
  \<open>strtol(name, &end, 10)\<close>: optional white space and sign, then digits; the second
  component is what \<open>end\<close> points to. The value is clamped to \<open>long\<close> and converted to
  \<open>int\<close>.
\<close>

fun digits_value :: "string \<Rightarrow> int \<Rightarrow> int \<times> string" where
  "digits_value [] n = (n, [])"
| "digits_value (c # cs) n =
     (if 48 \<le> (of_char c :: nat) \<and> (of_char c :: nat) \<le> 57
      then digits_value cs (10 * n + int (of_char c - 48)) else (n, c # cs))"

definition is_space :: "char \<Rightarrow> bool" where
  "is_space c \<longleftrightarrow> (of_char c :: nat) = 32 \<or> 9 \<le> (of_char c :: nat) \<and> (of_char c :: nat) \<le> 13"

definition is_digit :: "char \<Rightarrow> bool" where
  "is_digit c \<longleftrightarrow> 48 \<le> (of_char c :: nat) \<and> (of_char c :: nat) \<le> 57"

definition strtol10 :: "string \<Rightarrow> int \<times> string" where
  "strtol10 s =
     (let t = dropWhile is_space s;
          neg = (t \<noteq> [] \<and> hd t = CHR ''-'');
          u = (if t \<noteq> [] \<and> (hd t = CHR ''-'' \<or> hd t = CHR ''+'') then tl t else t)
      in if u = [] \<or> \<not> is_digit (hd u) then (0, s)
         else (case digits_value u 0 of (n, rest) \<Rightarrow>
           (sint (word_of_int (max (- (2 ^ 63)) (min (2 ^ 63 - 1) (if neg then - n else n))) :: 32 word), rest)))"

section \<open>Known devices\<close>

text \<open>
  The walk along the ring from the node \<open>p\<close>: the device with the two numbers, or \<open>None\<close>
  when the head is reached.
\<close>

partial_function (option) find_device :: "addr \<Rightarrow> int \<Rightarrow> int \<Rightarrow> devnode_ptr option \<Rightarrow> 'k lx_world \<Rightarrow> addr option option" where
  "find_device ctx bus num p w = (case p of
     None \<Rightarrow> None
   | Some (Devlist_head c) \<Rightarrow> c_assert (c = ctx) \<bind> (\<lambda>_. Some None)
   | Some (Devnode dev) \<Rightarrow> devs w dev \<bind> (\<lambda>d.
       if busno (ld_os d) = bus \<and> devno (ld_os d) = num then Some (Some dev)
       else nodes w (Devnode dev) \<bind> (\<lambda>n. find_device ctx bus num (dn_next n) w)))"

declare find_device.simps [code]

section \<open>New devices\<close>

text \<open>\<open>realloc\<close> of a byte block; new bytes are not initialized.\<close>

definition realloc_buf :: "addr \<Rightarrow> nat \<Rightarrow> ('c, 'd, 'h, 't, 'k) world \<Rightarrow> (addr \<times> ('c, 'd, 'h, 't, 'k) world) option" where
  "realloc_buf old n w = do {
     b \<leftarrow> (if old = 0 then Some [] else bufs w old);
     let (p, w') = malloc n w;
     if p = 0 then Some (0, w')
     else Some (p, w'\<lparr>bufs := (bufs w')(old := None,
       p \<mapsto> take n b @ map (junk w (n_mallocs w)) [length b..<n])\<rparr>) }"

text \<open>\<open>read(fd, buf, n)\<close>: the result and the bytes stored, at most \<open>n\<close>.\<close>

definition sys_read :: "'k kernel \<Rightarrow> int \<Rightarrow> nat \<Rightarrow> 'k lx_world \<Rightarrow> int \<times> u8 list \<times> 'k lx_world" where
  "sys_read K fd n w = (case k_read K fd n (kern (os w)) of (r, b, k) \<Rightarrow> (r, take (min n (nat r)) b, set_kern k w))"

text \<open>
  The loop that fills the cache with the remaining configurations (\<open>n\<close> of them). The result is
  whether all were read, with the error so far.
\<close>

fun read_configs :: "'k kernel \<Rightarrow> addr \<Rightarrow> int \<Rightarrow> nat \<Rightarrow> nat \<Rightarrow> 'k lx_world \<Rightarrow> (bool \<times> int \<times> 'k lx_world) option" where
  "read_configs K dev fd cache_len 0 w = Some (True, err LIBUSBY_SUCCESS, w)"
| "read_configs K dev fd cache_len (Suc n) w =
     (case sys_read K fd 4 w of (r, header, w) \<Rightarrow>
      if r \<noteq> 4 then Some (False, err LIBUSBY_SUCCESS, w) else do {
      lo \<leftarrow> rd header 2;
      hi \<leftarrow> rd header 3;
      let wTotalLength = le16 lo hi;
      if wTotalLength < 4 then Some (False, err LIBUSBY_SUCCESS, w) else do {
      d \<leftarrow> devs w dev;
      (cache, w) \<leftarrow> realloc_buf (desc_cache (ld_os d)) (cache_len + unat wTotalLength) w;
      if cache = 0 then Some (False, err LIBUSBY_ERROR_NO_MEM, w) else do {
      w \<leftarrow> upd_device dev (\<lambda>d. d\<lparr>ld_os := (ld_os d)\<lparr>desc_cache := cache\<rparr>\<rparr>) w;
      b \<leftarrow> bufs w cache;
      b \<leftarrow> wr_block b cache_len header;
      let (r, body, w) = sys_read K fd (unat wTotalLength - 4) w;
      b \<leftarrow> wr_block b (cache_len + 4) body;
      let w = w\<lparr>bufs := (bufs w)(cache \<mapsto> b)\<rparr>;
      if r \<noteq> uint wTotalLength - 4 then Some (False, err LIBUSBY_SUCCESS, w)
      else read_configs K dev fd (cache_len + unat wTotalLength) n w } } })"

text \<open>
  A device that is not in the ring: it is created, enters the ring, reads its descriptors and
  is appended to the list; when one of the last two fails, it is given up again.
\<close>

definition add_device :: "'k kernel \<Rightarrow> nat \<Rightarrow> addr \<Rightarrow> int \<Rightarrow> int \<Rightarrow> int \<Rightarrow> usbyi_device_list \<Rightarrow> 'k lx_world
    \<Rightarrow> (int \<times> usbyi_device_list \<times> 'k lx_world) option" where
  "add_device K sz ctx bus num fd devlist w = do {
     (dev, w) \<leftarrow> usbyi_alloc_device sz zero_lx_device ctx w;
     w \<leftarrow> upd_device dev (\<lambda>d. d\<lparr>ld_os := (ld_os d)\<lparr>busno := bus, devno := num, dev_fd := fd\<rparr>\<rparr>) w;
     m \<leftarrow> usbyi_insert_before_devlist_node (Devnode dev) (Devlist_head ctx) (nodes w);
     let w = w\<lparr>nodes := m\<rparr>;
     let (n, raw, w) = sys_read K fd 18 w;
     w \<leftarrow> upd_device dev (\<lambda>d. d\<lparr>ld_device_desc :=
       device_desc_of_bytes (raw @ drop (length raw) (bytes_of_device_desc (ld_device_desc d)))\<rparr>) w;
     (ok, r, w) \<leftarrow> (if n \<noteq> 18 then Some (False, err LIBUSBY_SUCCESS, w) else do {
       d \<leftarrow> devs w dev;
       read_configs K dev fd 0 (unat (dd_bNumConfigurations (ld_device_desc d))) w });
     if \<not> ok then do {
       w \<leftarrow> libusby_unref_device (linux_usbyb_finalize_device K) dev w;
       Some (r, devlist, w) }
     else do {
       (r, devlist, w) \<leftarrow> usbyi_append_device_list devlist dev w;
       if r < 0 then do {
         w \<leftarrow> libusby_unref_device (linux_usbyb_finalize_device K) dev w;
         Some (r, devlist, w) }
       else Some (r, devlist, w) } }"

text \<open>
  One entry of a bus directory. The first component of the result tells whether the code jumps
  to \<open>error\<close>, from where the mutex is still held and the descriptor still open.
\<close>

definition enum_entry :: "'k kernel \<Rightarrow> nat \<Rightarrow> addr \<Rightarrow> int \<Rightarrow> string \<Rightarrow> string \<Rightarrow> usbyi_device_list \<Rightarrow> 'k lx_world
    \<Rightarrow> (bool \<times> int \<times> int \<times> usbyi_device_list \<times> 'k lx_world) option" where
  "enum_entry K sz ctx bus bus_name name devlist w =
     (case strtol10 name of (num, rest) \<Rightarrow>
      if rest \<noteq> [] then Some (False, err LIBUSBY_SUCCESS, -1, devlist, w) else
      case k_open K (''/dev/bus/usb/'' @ bus_name @ ''/'' @ name) (kern (os w)) of (fd, k) \<Rightarrow>
      let w = set_kern k w in
      if fd = -1 then Some (False, err LIBUSBY_SUCCESS, fd, devlist, w) else do {
      w \<leftarrow> mutex_lock ctx w;
      head \<leftarrow> nodes w (Devlist_head ctx);
      found \<leftarrow> find_device ctx bus num (dn_next head) w;
      case found of
        Some dev \<Rightarrow> do {
          (r, devlist, w) \<leftarrow> usbyi_append_device_list devlist dev w;
          if r < 0 then Some (True, r, fd, devlist, w) else do {
          w \<leftarrow> libusby_ref_device dev w;
          w \<leftarrow> mutex_unlock ctx (sys_close K fd w);
          Some (False, r, fd, devlist, w) } }
      | None \<Rightarrow> do {
          (r, devlist, w) \<leftarrow> add_device K sz ctx bus num fd devlist w;
          w \<leftarrow> mutex_unlock ctx w;
          Some (False, r, fd, devlist, w) } })"

text \<open>The entries of one bus directory, while there is no error.\<close>

fun enum_bus :: "'k kernel \<Rightarrow> nat \<Rightarrow> addr \<Rightarrow> int \<Rightarrow> string \<Rightarrow> string list \<Rightarrow> int \<Rightarrow> usbyi_device_list \<Rightarrow> 'k lx_world
    \<Rightarrow> (bool \<times> int \<times> int \<times> usbyi_device_list \<times> 'k lx_world) option" where
  "enum_bus K sz ctx bus bus_name [] fd devlist w = Some (False, err LIBUSBY_SUCCESS, fd, devlist, w)"
| "enum_bus K sz ctx bus bus_name (name # names) fd devlist w = do {
     (jump, r, fd, devlist, w) \<leftarrow> enum_entry K sz ctx bus bus_name name devlist w;
     if jump \<or> r < 0 then Some (jump, r, fd, devlist, w)
     else enum_bus K sz ctx bus bus_name names fd devlist w }"

text \<open>The bus directories, while there is no error.\<close>

fun enum_buses :: "'k kernel \<Rightarrow> nat \<Rightarrow> addr \<Rightarrow> string list \<Rightarrow> usbyi_device_list \<Rightarrow> 'k lx_world
    \<Rightarrow> (bool \<times> int \<times> int \<times> usbyi_device_list \<times> 'k lx_world) option" where
  "enum_buses K sz ctx [] devlist w = Some (False, err LIBUSBY_SUCCESS, -1, devlist, w)"
| "enum_buses K sz ctx (bus_name # bus_names) devlist w =
     (case strtol10 bus_name of (bus, rest) \<Rightarrow>
      if rest \<noteq> [] then enum_buses K sz ctx bus_names devlist w else
      case k_opendir K (''/dev/bus/usb/'' @ bus_name) (kern (os w)) of
        (None, k) \<Rightarrow> enum_buses K sz ctx bus_names devlist (set_kern k w)
      | (Some names, k) \<Rightarrow> do {
          (jump, r, fd, devlist, w) \<leftarrow> enum_bus K sz ctx bus bus_name names (-1) devlist (set_kern k w);
          if jump \<or> r < 0 then Some (jump, r, fd, devlist, w)
          else enum_buses K sz ctx bus_names devlist w })"

text \<open>An error in \<open>add_device\<close> ends the loops, but the count is returned all the same.\<close>

definition linux_usbyb_get_device_list :: "'k kernel \<Rightarrow> nat \<Rightarrow> addr \<Rightarrow> 'k lx_world
    \<Rightarrow> (int \<times> addr option \<times> 'k lx_world) option" where
  "linux_usbyb_get_device_list K sz ctx w =
     (case k_opendir K ''/dev/bus/usb'' (kern (os w)) of
        (None, k) \<Rightarrow> Some (err LIBUSBY_SUCCESS, Some 0, set_kern k w)
      | (Some bus_names, k) \<Rightarrow> do {
          (jump, r, fd, devlist, w) \<leftarrow> enum_buses K sz ctx bus_names empty_device_list (set_kern k w);
          if \<not> jump then Some (dl_count devlist, Some (dl_list devlist), w) else do {
          w \<leftarrow> mutex_unlock ctx w;
          let w = (if fd \<noteq> -1 then sys_close K fd w else w);
          w \<leftarrow> (if dl_list devlist \<noteq> 0
            then libusby_free_device_list (linux_usbyb_finalize_device K) (dl_list devlist) True w
            else Some w);
          Some (r, None, w) } })"

end
