(* ===== verification/Frontend.thy ===== *)
theory Frontend
  imports Devices Config_Desc Utf8
begin

text \<open>
  The public functions of the library (\<^verbatim>\<open>src/libusby.c\<close>) over an arbitrary
  back end \<open>be\<close>: contexts, devices and handles, transfers, control requests, descriptors
  and configurations, in the order of the file where their calls allow it. The result of a
  function that stores through an output pointer has the stored value as a component, which is
  \<open>None\<close> when the function does not store.
\<close>

section \<open>Contexts and transfers\<close>

definition libusby_init :: "('c, 'd, 'h, 't, 'k) backend \<Rightarrow> ('c, 'd, 'h, 't, 'k) world
    \<Rightarrow> (int \<times> addr option \<times> ('c, 'd, 'h, 't, 'k) world) option" where
  "libusby_init be w = (case new_context (usbyb_context_size be) (zero_context be) w of (res, w) \<Rightarrow>
     if res = 0 then Some (err LIBUSBY_ERROR_NO_MEM, None, w) else do {
     (r, w) \<leftarrow> usbyb_init be res w;
     if r < 0 then do { w \<leftarrow> free_context res w; Some (r, None, w) }
     else Some (err LIBUSBY_SUCCESS, Some res, w) })"

definition libusby_exit :: "('c, 'd, 'h, 't, 'k) backend \<Rightarrow> addr \<Rightarrow> ('c, 'd, 'h, 't, 'k) world
    \<Rightarrow> ('c, 'd, 'h, 't, 'k) world option" where
  "libusby_exit be ctx w = do { w \<leftarrow> usbyb_exit be ctx w; free_context ctx w }"

text \<open>
  \<open>iso_packets - 1\<close> is converted to \<open>size_t\<close> and the size is computed modulo
  \<open>2 ^ 64\<close>: a transfer without packets is one packet descriptor shorter than the structure.
\<close>

definition transfer_alloc_size :: "nat \<Rightarrow> int \<Rightarrow> nat" where
  "transfer_alloc_size sz iso_packets = nat ((int sz + 12 * (iso_packets - 1)) mod 2 ^ 64)"

definition libusby_alloc_transfer :: "('c, 'd, 'h, 't, 'k) backend \<Rightarrow> addr \<Rightarrow> int \<Rightarrow> ('c, 'd, 'h, 't, 'k) world
    \<Rightarrow> (addr \<times> ('c, 'd, 'h, 't, 'k) world) option" where
  "libusby_alloc_transfer be ctx iso_packets w =
     (case new_transfer (transfer_alloc_size (usbyb_transfer_size be) iso_packets)
             (zero_transfer_of (nat iso_packets) (zero_transfer be)) w of (res, w) \<Rightarrow>
     if res = 0 then Some (0, w) else do {
     (r, w) \<leftarrow> usbyb_init_transfer be res w;
     if r < 0 then do { w \<leftarrow> free_transfer res w; Some (0, w) } else do {
     w \<leftarrow> upd_transfer res (\<lambda>t. t\<lparr>it_ctx := ctx, it_num_iso_packets := iso_packets\<rparr>) w;
     Some (usbyi_get_pub_tran (usbyb_transfer_pub_offset be) res, w) } })"

definition libusby_free_transfer :: "('c, 'd, 'h, 't, 'k) backend \<Rightarrow> addr \<Rightarrow> ('c, 'd, 'h, 't, 'k) world
    \<Rightarrow> ('c, 'd, 'h, 't, 'k) world option" where
  "libusby_free_transfer be transfer w = do {
     let trani = usbyi_get_tran (usbyb_transfer_pub_offset be) transfer;
     w \<leftarrow> usbyb_clear_transfer be trani w;
     free_transfer trani w }"

text \<open>The public part of a transfer behind its public pointer.\<close>

definition pub_of :: "('c, 'd, 'h, 't, 'k) backend \<Rightarrow> addr \<Rightarrow> ('c, 'd, 'h, 't, 'k) world \<Rightarrow> libusby_transfer option" where
  "pub_of be transfer w = map_option tr_pub (trans w (usbyi_get_tran (usbyb_transfer_pub_offset be) transfer))"

definition set_pub :: "('c, 'd, 'h, 't, 'k) backend \<Rightarrow> addr \<Rightarrow> (libusby_transfer \<Rightarrow> libusby_transfer)
    \<Rightarrow> ('c, 'd, 'h, 't, 'k) world \<Rightarrow> ('c, 'd, 'h, 't, 'k) world option" where
  "set_pub be transfer f w = upd_transfer (usbyi_get_tran (usbyb_transfer_pub_offset be) transfer) (upd_pub f) w"

definition libusby_fill_bulk_transfer :: "('c, 'd, 'h, 't, 'k) backend \<Rightarrow> addr \<Rightarrow> addr \<Rightarrow> u8 \<Rightarrow> addr \<Rightarrow> int
    \<Rightarrow> nat \<Rightarrow> addr \<Rightarrow> u32 \<Rightarrow> ('c, 'd, 'h, 't, 'k) world \<Rightarrow> ('c, 'd, 'h, 't, 'k) world option" where
  "libusby_fill_bulk_transfer be transfer dev_handle endpoint buffer len callback user_data timeout w = do {
     w \<leftarrow> set_pub be transfer (\<lambda>t. t\<lparr>lt_dev_handle := dev_handle, lt_flags := 0, lt_endpoint := endpoint,
       lt_type := type_code LIBUSBY_TRANSFER_TYPE_BULK, lt_status := status_code LIBUSBY_TRANSFER_COMPLETED,
       lt_length := len, lt_actual_length := 0, lt_callback := callback, lt_user_data := user_data,
       lt_buffer := buffer, lt_timeout := timeout\<rparr>) w;
     p \<leftarrow> pub_of be transfer w;
     if lt_num_iso_packets p \<noteq> 0 then do {
       c_assert (0 \<le> lt_num_iso_packets p \<and> nat (lt_num_iso_packets p) \<le> length (lt_iso_packet_desc p));
       set_pub be transfer (\<lambda>t. t\<lparr>lt_iso_packet_desc :=
         replicate (nat (lt_num_iso_packets p)) zero_iso_packet
         @ drop (nat (lt_num_iso_packets p)) (lt_iso_packet_desc p)\<rparr>) w }
     else Some w }"

text \<open>The length of a control transfer is that of its setup packet and of the data it announces.\<close>

definition libusby_fill_control_transfer :: "('c, 'd, 'h, 't, 'k) backend \<Rightarrow> addr \<Rightarrow> addr \<Rightarrow> addr \<Rightarrow> nat \<Rightarrow> addr
    \<Rightarrow> u32 \<Rightarrow> ('c, 'd, 'h, 't, 'k) world \<Rightarrow> ('c, 'd, 'h, 't, 'k) world option" where
  "libusby_fill_control_transfer be transfer dev_handle buffer callback user_data timeout w = do {
     b \<leftarrow> bufs w buffer;
     b6 \<leftarrow> rd b 6;
     b7 \<leftarrow> rd b 7;
     set_pub be transfer (\<lambda>t. t\<lparr>lt_dev_handle := dev_handle, lt_buffer := buffer, lt_callback := callback,
       lt_user_data := user_data, lt_timeout := timeout, lt_endpoint := 0,
       lt_length := uint (le16 b6 b7) + 8, lt_type := type_code LIBUSBY_TRANSFER_TYPE_CONTROL\<rparr>) w }"

definition libusby_submit_transfer :: "('c, 'd, 'h, 't, 'k) backend \<Rightarrow> addr \<Rightarrow> ('c, 'd, 'h, 't, 'k) world
    \<Rightarrow> (int \<times> ('c, 'd, 'h, 't, 'k) world) option" where
  "libusby_submit_transfer be transfer w =
     usbyb_submit_transfer be (usbyi_get_tran (usbyb_transfer_pub_offset be) transfer) w"

definition libusby_cancel_transfer :: "('c, 'd, 'h, 't, 'k) backend \<Rightarrow> addr \<Rightarrow> ('c, 'd, 'h, 't, 'k) world
    \<Rightarrow> (int \<times> ('c, 'd, 'h, 't, 'k) world) option" where
  "libusby_cancel_transfer be transfer w =
     usbyb_cancel_transfer be (usbyi_get_tran (usbyb_transfer_pub_offset be) transfer) w"

definition libusby_wait_for_transfer :: "('c, 'd, 'h, 't, 'k) backend \<Rightarrow> addr \<Rightarrow> ('c, 'd, 'h, 't, 'k) world
    \<Rightarrow> (int \<times> ('c, 'd, 'h, 't, 'k) world) option" where
  "libusby_wait_for_transfer be transfer w =
     usbyb_wait_for_transfer be (usbyi_get_tran (usbyb_transfer_pub_offset be) transfer) w"

definition libusby_perform_transfer :: "('c, 'd, 'h, 't, 'k) backend \<Rightarrow> addr \<Rightarrow> ('c, 'd, 'h, 't, 'k) world
    \<Rightarrow> (int \<times> ('c, 'd, 'h, 't, 'k) world) option" where
  "libusby_perform_transfer be tran w = do {
     (r, w) \<leftarrow> usbyb_perform_transfer be (usbyi_get_tran (usbyb_transfer_pub_offset be) tran) w;
     if r = err LIBUSBY_ERROR_NOT_SUPPORTED then do {
       (r, w) \<leftarrow> libusby_submit_transfer be tran w;
       if r \<ge> 0 then libusby_wait_for_transfer be tran w else Some (r, w) }
     else Some (r, w) }"

text \<open>The result, the value stored in \<open>*transferred\<close> and the world.\<close>

definition libusby_bulk_transfer :: "('c, 'd, 'h, 't, 'k) backend \<Rightarrow> addr \<Rightarrow> u8 \<Rightarrow> addr \<Rightarrow> int \<Rightarrow> u32
    \<Rightarrow> ('c, 'd, 'h, 't, 'k) world \<Rightarrow> (int \<times> int option \<times> ('c, 'd, 'h, 't, 'k) world) option" where
  "libusby_bulk_transfer be dev_handle endpoint data len timeout w = do {
     dev \<leftarrow> libusby_get_device dev_handle w;
     d \<leftarrow> devs w dev;
     (tran, w) \<leftarrow> libusby_alloc_transfer be (ld_ctx d) 0 w;
     if tran = 0 then Some (err LIBUSBY_ERROR_NO_MEM, None, w) else do {
     w \<leftarrow> libusby_fill_bulk_transfer be tran dev_handle endpoint data len 0 0 timeout w;
     (r, w) \<leftarrow> libusby_perform_transfer be tran w;
     transferred \<leftarrow> (if r \<ge> 0 then map_option (\<lambda>p. Some (lt_actual_length p)) (pub_of be tran w) else Some None);
     w \<leftarrow> libusby_free_transfer be tran w;
     Some (r, transferred, w) } }"

section \<open>Devices and handles\<close>

definition libusby_claim_interface :: "('c, 'd, 'h, 't, 'k) backend \<Rightarrow> addr \<Rightarrow> int \<Rightarrow> ('c, 'd, 'h, 't, 'k) world
    \<Rightarrow> (int \<times> ('c, 'd, 'h, 't, 'k) world) option" where
  "libusby_claim_interface be dev_handle interface_number w = usbyb_claim_interface be dev_handle interface_number w"

definition libusby_release_interface :: "('c, 'd, 'h, 't, 'k) backend \<Rightarrow> addr \<Rightarrow> int \<Rightarrow> ('c, 'd, 'h, 't, 'k) world
    \<Rightarrow> (int \<times> ('c, 'd, 'h, 't, 'k) world) option" where
  "libusby_release_interface be dev_handle interface_number w = usbyb_release_interface be dev_handle interface_number w"

definition libusby_open :: "('c, 'd, 'h, 't, 'k) backend \<Rightarrow> addr \<Rightarrow> ('c, 'd, 'h, 't, 'k) world
    \<Rightarrow> (int \<times> addr option \<times> ('c, 'd, 'h, 't, 'k) world) option" where
  "libusby_open be dev w =
     (case new_handle (usbyb_device_handle_size be) \<lparr> lh_dev = dev, lh_os = zero_device_handle be \<rparr> w of (res, w) \<Rightarrow>
     if res = 0 then Some (err LIBUSBY_ERROR_NO_MEM, None, w) else do {
     (r, w) \<leftarrow> usbyb_open be res w;
     if r < 0 then do { w \<leftarrow> free_handle res w; Some (r, None, w) } else do {
     w \<leftarrow> libusby_ref_device dev w;
     Some (err LIBUSBY_SUCCESS, Some res, w) } })"

definition libusby_close :: "('c, 'd, 'h, 't, 'k) backend \<Rightarrow> addr \<Rightarrow> ('c, 'd, 'h, 't, 'k) world
    \<Rightarrow> ('c, 'd, 'h, 't, 'k) world option" where
  "libusby_close be dev_handle w = do {
     w \<leftarrow> usbyb_close be dev_handle w;
     dev \<leftarrow> libusby_get_device dev_handle w;
     w \<leftarrow> libusby_unref_device (usbyb_finalize_device be) dev w;
     free_handle dev_handle w }"

definition libusby_get_device_list :: "('c, 'd, 'h, 't, 'k) backend \<Rightarrow> addr \<Rightarrow> ('c, 'd, 'h, 't, 'k) world
    \<Rightarrow> (int \<times> addr option \<times> ('c, 'd, 'h, 't, 'k) world) option" where
  "libusby_get_device_list be ctx w = usbyb_get_device_list be ctx w"

section \<open>Control transfers and descriptors\<close>

text \<open>The setup packet stored at the start of a buffer, byte by byte.\<close>

definition setup_packet :: "u8 \<Rightarrow> u8 \<Rightarrow> u16 \<Rightarrow> u16 \<Rightarrow> u16 \<Rightarrow> u8 list" where
  "setup_packet bmRequestType bRequest wValue wIndex wLength =
     [bmRequestType, bRequest, lo8 wValue, hi8 wValue, lo8 wIndex, hi8 wIndex, lo8 wLength, hi8 wLength]"

text \<open>The result of a control transfer, and the memory of the caller to which its data is copied.\<close>

definition control_result :: "('c, 'd, 'h, 't, 'k) backend \<Rightarrow> addr \<Rightarrow> addr \<Rightarrow> int \<Rightarrow> u8 list
    \<Rightarrow> ('c, 'd, 'h, 't, 'k) world \<Rightarrow> (int \<times> u8 list) option" where
  "control_result be tran buffer r data w =
     (if r \<ge> 0 then do {
        p \<leftarrow> pub_of be tran w;
        if lt_status p \<noteq> status_code LIBUSBY_TRANSFER_COMPLETED then Some (err LIBUSBY_ERROR_IO, data)
        else do {
          c_assert (lt_actual_length p \<ge> 8);
          b \<leftarrow> bufs w buffer;
          body \<leftarrow> rd_block b 8 (nat (lt_actual_length p - 8));
          data \<leftarrow> wr_block data 0 body;
          Some (lt_actual_length p - 8, data) } }
      else Some (r, data))"

text \<open>
  \<open>data\<close> is the memory of the caller from the pointer on; the bytes behind the setup
  packet in the block from \<open>malloc\<close> are not initialized.
\<close>

definition libusby_control_transfer :: "('c, 'd, 'h, 't, 'k) backend \<Rightarrow> addr \<Rightarrow> u8 \<Rightarrow> u8 \<Rightarrow> u16 \<Rightarrow> u16 \<Rightarrow> u8 list
    \<Rightarrow> u16 \<Rightarrow> u32 \<Rightarrow> ('c, 'd, 'h, 't, 'k) world \<Rightarrow> (int \<times> u8 list \<times> ('c, 'd, 'h, 't, 'k) world) option" where
  "libusby_control_transfer be dev_handle bmRequestType bRequest wValue wIndex data wLength timeout w = do {
     dev \<leftarrow> libusby_get_device dev_handle w;
     d \<leftarrow> devs w dev;
     (tran, w) \<leftarrow> libusby_alloc_transfer be (ld_ctx d) 0 w;
     if tran = 0 then Some (err LIBUSBY_ERROR_NO_MEM, data, w) else do {
     let (buffer, w) = new_buf (unat wLength + 8) w;
     if buffer = 0 then do {
       w \<leftarrow> libusby_free_transfer be tran w;
       Some (err LIBUSBY_ERROR_NO_MEM, data, w) }
     else do {
     b \<leftarrow> bufs w buffer;
     b \<leftarrow> wr_block b 0 (setup_packet bmRequestType bRequest wValue wIndex wLength);
     let w = w\<lparr>bufs := (bufs w)(buffer \<mapsto> b)\<rparr>;
     w \<leftarrow> libusby_fill_control_transfer be tran dev_handle buffer 0 0 timeout w;
     (r, w) \<leftarrow> libusby_perform_transfer be tran w;
     (r, data) \<leftarrow> control_result be tran buffer r data w;
     w \<leftarrow> free_buf buffer w;
     w \<leftarrow> libusby_free_transfer be tran w;
     Some (r, data, w) } } }"

text \<open>An \<open>int\<close> length passed as \<open>wLength\<close> is converted to 16 bits.\<close>

definition libusby_get_descriptor :: "('c, 'd, 'h, 't, 'k) backend \<Rightarrow> addr \<Rightarrow> u8 \<Rightarrow> u8 \<Rightarrow> u8 list \<Rightarrow> int
    \<Rightarrow> ('c, 'd, 'h, 't, 'k) world \<Rightarrow> (int \<times> u8 list \<times> ('c, 'd, 'h, 't, 'k) world) option" where
  "libusby_get_descriptor be dev_handle desc_type desc_index data len w = do {
     (r, data, w) \<leftarrow> usbyb_get_descriptor be dev_handle desc_type desc_index 0 data len w;
     if r = err LIBUSBY_ERROR_NOT_SUPPORTED
     then libusby_control_transfer be dev_handle 0x80 6 (le16 desc_index desc_type) 0 data (word_of_int len) 0 w
     else Some (r, data, w) }"

definition libusby_get_string_descriptor :: "('c, 'd, 'h, 't, 'k) backend \<Rightarrow> addr \<Rightarrow> u8 \<Rightarrow> u16 \<Rightarrow> u8 list \<Rightarrow> int
    \<Rightarrow> ('c, 'd, 'h, 't, 'k) world \<Rightarrow> (int \<times> u8 list \<times> ('c, 'd, 'h, 't, 'k) world) option" where
  "libusby_get_string_descriptor be dev_handle desc_index langid data len w = do {
     (r, data, w) \<leftarrow> usbyb_get_descriptor be dev_handle 3 desc_index langid data len w;
     if r = err LIBUSBY_ERROR_NOT_SUPPORTED
     then libusby_control_transfer be dev_handle 0x80 6 (ucast desc_index OR 0x300) langid data (word_of_int len) 0 w
     else Some (r, data, w) }"

definition libusby_get_string_descriptor_utf8 :: "('c, 'd, 'h, 't, 'k) backend \<Rightarrow> addr \<Rightarrow> u8 \<Rightarrow> u16 \<Rightarrow> u8 list
    \<Rightarrow> int \<Rightarrow> ('c, 'd, 'h, 't, 'k) world \<Rightarrow> (int \<times> u8 list \<times> ('c, 'd, 'h, 't, 'k) world) option" where
  "libusby_get_string_descriptor_utf8 be dev_handle desc_index langid data len w = do {
     (r, utf16_buf, w) \<leftarrow> libusby_get_string_descriptor be dev_handle desc_index langid (stack_bytes 256 w) 256 w;
     if r < 0 then Some (r, data, w) else do {
     (r, data) \<leftarrow> string_desc_to_utf8 r utf16_buf data len;
     Some (r, data, w) } }"

definition libusby_get_device_descriptor :: "('c, 'd, 'h, 't, 'k) backend \<Rightarrow> addr \<Rightarrow> ('c, 'd, 'h, 't, 'k) world
    \<Rightarrow> (int \<times> libusby_device_descriptor option \<times> ('c, 'd, 'h, 't, 'k) world) option" where
  "libusby_get_device_descriptor be dev_handle w = do {
     dev \<leftarrow> libusby_get_device dev_handle w;
     (r, desc) \<leftarrow> libusby_get_device_descriptor_cached dev w;
     if r = err LIBUSBY_SUCCESS then Some (err LIBUSBY_SUCCESS, desc, w) else do {
     (r, rawdesc, w) \<leftarrow> libusby_get_descriptor be dev_handle 1 0 (stack_bytes 18 w) 18 w;
     if r < 0 then Some (r, None, w) else do {
     d \<leftarrow> devs w dev;
     (r, desc) \<leftarrow> usbyi_sanitize_device_desc (ld_device_desc d) rawdesc;
     w \<leftarrow> upd_device dev (\<lambda>d. d\<lparr>ld_device_desc := desc\<rparr>) w;
     if r < 0 then Some (r, None, w) else Some (err LIBUSBY_SUCCESS, Some desc, w) } } }"

text \<open>
  The common body of the two functions that read a configuration: the length from its header,
  then the whole of it. \<open>get\<close> reads a descriptor of type 2 into a buffer.
\<close>

definition read_config_descriptor :: "(u8 list \<Rightarrow> int \<Rightarrow> ('c, 'd, 'h, 't, 'k) world
      \<Rightarrow> (int \<times> u8 list \<times> ('c, 'd, 'h, 't, 'k) world) option)
    \<Rightarrow> ('c, 'd, 'h, 't, 'k) world \<Rightarrow> (int \<times> addr option \<times> ('c, 'd, 'h, 't, 'k) world) option" where
  "read_config_descriptor get w = do {
     (r, header, w) \<leftarrow> get (stack_bytes 6 w) 6 w;
     if r < 0 then Some (r, None, w) else do {
     h2 \<leftarrow> rd header 2;
     h3 \<leftarrow> rd header 3;
     let wTotalLength = le16 h2 h3;
     let (rawdesc, w) = new_buf (unat wTotalLength) w;
     if rawdesc = 0 then Some (err LIBUSBY_ERROR_NO_MEM, None, w) else do {
     b \<leftarrow> bufs w rawdesc;
     (r, b, w) \<leftarrow> get b (uint wTotalLength) w;
     let w = w\<lparr>bufs := (bufs w)(rawdesc \<mapsto> b)\<rparr>;
     (r, config, w) \<leftarrow> (if r \<ge> 0 then usbyi_sanitize_config_descriptor b (word_of_int r) w
       else Some (r, None, w));
     w \<leftarrow> free_buf rawdesc w;
     Some (r, config, w) } } }"

definition libusby_get_config_descriptor :: "('c, 'd, 'h, 't, 'k) backend \<Rightarrow> addr \<Rightarrow> u8 \<Rightarrow> ('c, 'd, 'h, 't, 'k) world
    \<Rightarrow> (int \<times> addr option \<times> ('c, 'd, 'h, 't, 'k) world) option" where
  "libusby_get_config_descriptor be dev_handle config_index =
     read_config_descriptor (libusby_get_descriptor be dev_handle 2 config_index)"

definition libusby_get_config_descriptor_cached :: "('c, 'd, 'h, 't, 'k) backend \<Rightarrow> addr \<Rightarrow> u8
    \<Rightarrow> ('c, 'd, 'h, 't, 'k) world \<Rightarrow> (int \<times> addr option \<times> ('c, 'd, 'h, 't, 'k) world) option" where
  "libusby_get_config_descriptor_cached be dev config_index =
     read_config_descriptor (usbyb_get_descriptor_cached be dev 2 config_index 0)"

text \<open>The loop over the indices of the configurations.\<close>

fun config_by_value_loop :: "('c, 'd, 'h, 't, 'k) backend \<Rightarrow> addr \<Rightarrow> u8 \<Rightarrow> nat list \<Rightarrow> ('c, 'd, 'h, 't, 'k) world
    \<Rightarrow> (int \<times> addr option \<times> ('c, 'd, 'h, 't, 'k) world) option" where
  "config_by_value_loop be dev_handle config_value [] w = Some (err LIBUSBY_ERROR_NOT_FOUND, None, w)"
| "config_by_value_loop be dev_handle config_value (i # is) w = do {
     (r, config_desc, w) \<leftarrow> libusby_get_config_descriptor be dev_handle (of_nat i) w;
     if r < 0 then Some (r, None, w) else do {
     p \<leftarrow> config_desc;
     c \<leftarrow> cfgs w p;
     if cd_bConfigurationValue c = config_value then Some (err LIBUSBY_SUCCESS, Some p, w) else do {
     w \<leftarrow> libusby_free_config_descriptor p w;
     config_by_value_loop be dev_handle config_value is w } } }"

definition libusby_get_config_descriptor_by_value :: "('c, 'd, 'h, 't, 'k) backend \<Rightarrow> addr \<Rightarrow> u8
    \<Rightarrow> ('c, 'd, 'h, 't, 'k) world \<Rightarrow> (int \<times> addr option \<times> ('c, 'd, 'h, 't, 'k) world) option" where
  "libusby_get_config_descriptor_by_value be dev_handle config_value w = do {
     (r, desc, w) \<leftarrow> libusby_get_device_descriptor be dev_handle w;
     if r < 0 then Some (r, None, w) else do {
     desc \<leftarrow> desc;
     config_by_value_loop be dev_handle config_value [0..<unat (dd_bNumConfigurations desc)] w } }"

section \<open>The active configuration\<close>

definition libusby_get_configuration :: "('c, 'd, 'h, 't, 'k) backend \<Rightarrow> addr \<Rightarrow> ('c, 'd, 'h, 't, 'k) world
    \<Rightarrow> (int \<times> int option \<times> ('c, 'd, 'h, 't, 'k) world) option" where
  "libusby_get_configuration be dev_handle w = do {
     (r, config_value, w) \<leftarrow> usbyb_get_configuration be dev_handle False w;
     if r = err LIBUSBY_ERROR_NOT_SUPPORTED then do {
       (r, data, w) \<leftarrow> libusby_control_transfer be dev_handle 0x80 8 0 0 (stack_bytes 1 w) 1 0 w;
       let r = (if r \<ge> 0 \<and> r \<noteq> 1 then err LIBUSBY_ERROR_IO else r);
       if r = 1 then do { b \<leftarrow> rd data 0; Some (err LIBUSBY_SUCCESS, Some (uint b), w) }
       else Some (r, config_value, w) }
     else Some (r, config_value, w) }"

definition libusby_get_configuration_cached :: "('c, 'd, 'h, 't, 'k) backend \<Rightarrow> addr \<Rightarrow> ('c, 'd, 'h, 't, 'k) world
    \<Rightarrow> (int \<times> int option \<times> ('c, 'd, 'h, 't, 'k) world) option" where
  "libusby_get_configuration_cached be dev_handle w = usbyb_get_configuration be dev_handle True w"

text \<open>The data pointer of the control transfer is null and nothing is copied to it.\<close>

definition libusby_set_configuration :: "('c, 'd, 'h, 't, 'k) backend \<Rightarrow> addr \<Rightarrow> int \<Rightarrow> ('c, 'd, 'h, 't, 'k) world
    \<Rightarrow> (int \<times> ('c, 'd, 'h, 't, 'k) world) option" where
  "libusby_set_configuration be dev_handle config_value w = do {
     (r, w) \<leftarrow> usbyb_set_configuration be dev_handle config_value w;
     if r = err LIBUSBY_ERROR_NOT_SUPPORTED then do {
       (r, _, w) \<leftarrow> libusby_control_transfer be dev_handle 0x80 9 (word_of_int config_value) 0 [] 0 0 w;
       Some (if r = 0 then err LIBUSBY_SUCCESS else err LIBUSBY_ERROR_IO, w) }
     else Some (r, w) }"

definition libusby_get_active_config_descriptor :: "('c, 'd, 'h, 't, 'k) backend \<Rightarrow> addr \<Rightarrow> ('c, 'd, 'h, 't, 'k) world
    \<Rightarrow> (int \<times> addr option \<times> ('c, 'd, 'h, 't, 'k) world) option" where
  "libusby_get_active_config_descriptor be dev_handle w = do {
     (r, active_config, w) \<leftarrow> libusby_get_configuration be dev_handle w;
     if r < 0 then Some (r, None, w) else do {
     v \<leftarrow> active_config;
     libusby_get_config_descriptor_by_value be dev_handle (word_of_int v) w } }"

section \<open>Opening a device by its numbers\<close>

definition matches :: "libusby_device_descriptor \<Rightarrow> u16 \<Rightarrow> u16 \<Rightarrow> bool" where
  "matches desc vendor_id product_id \<longleftrightarrow> dd_idVendor desc = vendor_id \<and> dd_idProduct desc = product_id"

text \<open>The first loop tries the devices whose cached descriptor matches. The handle is 0 when none opens.\<close>

fun open_cached_loop :: "('c, 'd, 'h, 't, 'k) backend \<Rightarrow> u16 \<Rightarrow> u16 \<Rightarrow> addr option list
    \<Rightarrow> ('c, 'd, 'h, 't, 'k) world \<Rightarrow> (addr \<times> ('c, 'd, 'h, 't, 'k) world) option" where
  "open_cached_loop be vid pid [] w = Some (0, w)"
| "open_cached_loop be vid pid (cell # cells) w = do {
     dev \<leftarrow> cell;
     (r, desc) \<leftarrow> libusby_get_device_descriptor_cached dev w;
     if r < 0 then open_cached_loop be vid pid cells w else do {
     desc \<leftarrow> desc;
     if \<not> matches desc vid pid then open_cached_loop be vid pid cells w else do {
     (r, res, w) \<leftarrow> libusby_open be dev w;
     if r < 0 then open_cached_loop be vid pid cells w
     else do { h \<leftarrow> res; if h = 0 then open_cached_loop be vid pid cells w else Some (h, w) } } } }"

text \<open>The second loop opens every device and asks it.\<close>

fun open_probe_loop :: "('c, 'd, 'h, 't, 'k) backend \<Rightarrow> u16 \<Rightarrow> u16 \<Rightarrow> addr option list
    \<Rightarrow> ('c, 'd, 'h, 't, 'k) world \<Rightarrow> (addr \<times> ('c, 'd, 'h, 't, 'k) world) option" where
  "open_probe_loop be vid pid [] w = Some (0, w)"
| "open_probe_loop be vid pid (cell # cells) w = do {
     dev \<leftarrow> cell;
     (r, res, w) \<leftarrow> libusby_open be dev w;
     if r < 0 then open_probe_loop be vid pid cells w else do {
     h \<leftarrow> res;
     (r, desc, w) \<leftarrow> libusby_get_device_descriptor be h w;
     matched \<leftarrow> (if r < 0 then Some False else do { desc \<leftarrow> desc; Some (matches desc vid pid) });
     if matched then Some (h, w)
     else do { w \<leftarrow> libusby_close be h w; open_probe_loop be vid pid cells w } } }"

definition libusby_open_device_with_vid_pid :: "('c, 'd, 'h, 't, 'k) backend \<Rightarrow> addr \<Rightarrow> u16 \<Rightarrow> u16
    \<Rightarrow> ('c, 'd, 'h, 't, 'k) world \<Rightarrow> (addr \<times> ('c, 'd, 'h, 't, 'k) world) option" where
  "libusby_open_device_with_vid_pid be ctx vendor_id product_id w = do {
     (cnt, device_list, w) \<leftarrow> libusby_get_device_list be ctx w;
     if cnt < 0 then Some (0, w) else do {
     let list = (case device_list of None \<Rightarrow> 0 | Some l \<Rightarrow> l);
     cells \<leftarrow> (if cnt = 0 then Some [] else dlists w list);
     cells \<leftarrow> rd_block cells 0 (nat cnt);
     (handle, w) \<leftarrow> open_cached_loop be vendor_id product_id cells w;
     (handle, w) \<leftarrow> (if handle = 0 then open_probe_loop be vendor_id product_id cells w else Some (handle, w));
     w \<leftarrow> libusby_free_device_list (usbyb_finalize_device be) list True w;
     Some (handle, w) } }"

section \<open>The event loop\<close>

definition libusby_run_event_loop :: "('c, 'd, 'h, 't, 'k) backend \<Rightarrow> addr \<Rightarrow> ('c, 'd, 'h, 't, 'k) world
    \<Rightarrow> (int \<times> ('c, 'd, 'h, 't, 'k) world) option" where
  "libusby_run_event_loop be ctx w = usbyb_run_event_loop be ctx w"

definition libusby_stop_event_loop :: "('c, 'd, 'h, 't, 'k) backend \<Rightarrow> addr \<Rightarrow> ('c, 'd, 'h, 't, 'k) world
    \<Rightarrow> ('c, 'd, 'h, 't, 'k) world option" where
  "libusby_stop_event_loop be ctx w = usbyb_stop_event_loop be ctx w"

definition libusby_reset_event_loop :: "('c, 'd, 'h, 't, 'k) backend \<Rightarrow> addr \<Rightarrow> ('c, 'd, 'h, 't, 'k) world
    \<Rightarrow> ('c, 'd, 'h, 't, 'k) world option" where
  "libusby_reset_event_loop be ctx w = usbyb_reset_event_loop be ctx w"

end
