(* ===== verification/Frontend_Refs.thy ===== *)
theory Frontend_Refs
  imports Frontend
begin

text \<open>
  Reference counting through the public functions: the part of the contract of
  \<^verbatim>\<open>src/os/os.h\<close> the front end relies on, as a locale, and what follows for
  opening, closing and searching devices over every back end that keeps it.
\<close>

text \<open>A transfer of \<open>libusby_control_transfer\<close>, which has no callback.\<close>

definition sync_control :: "addr \<Rightarrow> ('c, 'd, 'h, 't, 'k) world \<Rightarrow> bool" where
  "sync_control t w \<longleftrightarrow> (\<exists>x. trans w t = Some x \<and> lt_callback (tr_pub x) = 0 \<and>
     lt_type (tr_pub x) = type_code LIBUSBY_TRANSFER_TYPE_CONTROL)"

text \<open>A list of devices as \<open>libusby_get_device_list\<close> returns it: \<open>n\<close> devices and a null pointer.\<close>

definition list_at :: "('c, 'd, 'h, 't, 'k) world \<Rightarrow> addr \<Rightarrow> addr list \<Rightarrow> bool" where
  "list_at w l xs \<longleftrightarrow> (if xs = [] then l = 0 else l \<noteq> 0 \<and> (\<exists>rest. dlists w l = Some (map Some xs @ Some 0 # rest)))"

text \<open>What a loop of \<open>libusby_open_device_with_vid_pid\<close> leaves: no handle, or one on a match.\<close>

definition search_result :: "u16 \<Rightarrow> u16 \<Rightarrow> ('c, 'd, 'h, 't, 'k) world \<Rightarrow> addr \<Rightarrow> ('c, 'd, 'h, 't, 'k) world \<Rightarrow> bool" where
  "search_result vid pid w h w' \<longleftrightarrow>
     (if h = 0 then targets w' = targets w
      else h \<notin> dom (targets w) \<and> (\<exists>dev d. targets w' = (targets w)(h \<mapsto> dev) \<and>
        descs w' dev = Some d \<and> matches d vid pid))"

lemma search_result_cong: "targets w1 = targets w \<Longrightarrow> search_result vid pid w1 h w' \<Longrightarrow> search_result vid pid w h w'"
  unfolding search_result_def by metis

locale os_contract =
  fixes be :: "('c, 'd, 'h, 't, 'k) backend"
  assumes finalize_keeps: "usbyb_finalize_device be d w = Some w' \<Longrightarrow> keeps_refs w w'"
    and open_keeps: "usbyb_open be h w = Some (r, w') \<Longrightarrow> keeps_refs w w'"
    and close_keeps: "usbyb_close be h w = Some w' \<Longrightarrow> keeps_refs w w'"
    and descriptor_keeps: "usbyb_get_descriptor be h ty ix lang data len w = Some (r, data', w') \<Longrightarrow>
      keeps_refs w w'"
    and init_transfer_keeps: "usbyb_init_transfer be t w = Some (r, w') \<Longrightarrow> keeps_refs w w'"
    and clear_transfer_keeps: "usbyb_clear_transfer be t w = Some w' \<Longrightarrow> keeps_refs w w'"
    and perform_keeps: "usbyb_perform_transfer be t w = Some (r, w') \<Longrightarrow> sync_control t w \<Longrightarrow>
      keeps_refs w w' \<and> r \<noteq> err LIBUSBY_ERROR_NOT_SUPPORTED"
    and list_refs: "usbyb_get_device_list be ctx w = Some (r, l, w') \<Longrightarrow> refs_ok own w \<Longrightarrow>
      targets w' = targets w \<and>
      (if r < 0 then refs_ok own w' \<and> l = None \<and> dlists w' = dlists w
       else \<exists>xs p. l = Some p \<and> list_at w' p xs \<and> 0 \<notin> set xs \<and> length xs = nat r \<and>
         only_array p (dlists w) (dlists w') \<and> refs_ok (\<lambda>d. own d + count_list xs d) w')"
begin

sublocale fin: finalizer "usbyb_finalize_device be"
  by unfold_locales (simp add: finalize_keeps)

subsection \<open>Opening and closing\<close>

lemma open_outcome:
  assumes ok: "refs_ok own w" and run: "libusby_open be dev w = Some (r, res, w')"
  shows "refs_ok own w' \<and> descs w' = descs w \<and> dlists w' = dlists w \<and>
    (if r < 0 then res = None \<and> targets w' = targets w
     else \<exists>h. res = Some h \<and> h \<noteq> 0 \<and> h \<notin> dom (targets w) \<and> targets w' = (targets w)(h \<mapsto> dev))"
proof -
  let ?x = "\<lparr>lh_dev = dev, lh_os = zero_device_handle be\<rparr>"
  obtain res' w1 where new: "new_handle (usbyb_device_handle_size be) ?x w = (res', w1)" by force
  show ?thesis
  proof (cases "res' = 0")
    case True
    then have "r = err LIBUSBY_ERROR_NO_MEM" "res = None" "w' = w1"
      using run new by (auto simp: libusby_open_def)
    moreover have "keeps_refs w w1"
      using new True ok
      by (auto simp: new_handle_def malloc_def Let_def refs_ok_def split: if_splits)
    ultimately show ?thesis using refs_ok_keeps [of w w1 own] ok by (simp add: keeps_refs_def)
  next
    case False
    then have h: "res' = next_addr w" "targets w1 = (targets w)(res' \<mapsto> dev)" "counts w1 = counts w"
      "descs w1 = descs w" "next_addr w < next_addr w1" "dlists w1 = dlists w"
      using new
      by (auto simp: new_handle_def malloc_def Let_def targets_def counts_def descs_def fun_eq_iff split: if_splits)
    from ok have fresh: "res' \<notin> dom (targets w)" by (auto simp: refs_ok_def h(1))
    obtain r1 w2 where w2: "usbyb_open be res' w1 = Some (r1, w2)"
      and rest: "(if r1 < 0 then do { w \<leftarrow> free_handle res' w2; Some (r1, None, w) }
        else do { w \<leftarrow> libusby_ref_device dev w2; Some (err LIBUSBY_SUCCESS, Some res', w) }) = Some (r, res, w')"
      using run new False by (auto simp: libusby_open_def bind_Some_conv)
    have k: "counts w2 = counts w" "targets w2 = (targets w)(res' \<mapsto> dev)" "descs w2 = descs w"
      "next_addr w < next_addr w2" "dlists w2 = dlists w"
      using open_keeps [OF w2] h by (auto simp: keeps_refs_def)
    show ?thesis
    proof (cases "r1 < 0")
      case True
      then obtain w3 where w3: "free_handle res' w2 = Some w3" "r = r1" "res = None" "w' = w3"
        using rest by (auto simp: bind_Some_conv)
      have eqs: "counts w3 = counts w2" "descs w3 = descs w2" "targets w3 = (targets w2)(res' := None)"
        "next_addr w3 = next_addr w2" "dlists w3 = dlists w2"
        using w3(1) False
        by (auto simp: free_handle_def free_block_def counts_def descs_def targets_def fun_eq_iff monad_simps
            split: if_splits)
      have "targets w3 = targets w" using eqs(3) k(2) fresh by (auto simp: fun_eq_iff domIff)
      then have "keeps_refs w w3" using eqs k by (simp add: keeps_refs_def)
      then show ?thesis using refs_ok_keeps [of w w3 own] ok True w3 eqs k \<open>targets w3 = targets w\<close> by simp
    next
      case pos: False
      then have w3: "libusby_ref_device dev w2 = Some w'" "r = err LIBUSBY_SUCCESS" "res = Some res'"
        using rest by (auto simp: bind_Some_conv)
      obtain n where n: "counts w2 dev = Some n" "counts w' = (counts w2)(dev \<mapsto> n + 1)" "targets w' = targets w2"
        "next_addr w' = next_addr w2" "descs w' = descs w2" "dlists w' = dlists w2"
        using ref_device_counts [OF w3(1)] by blast
      have dev: "dev \<noteq> 0" using n(1) k(1) refs_ok_null(1) [OF ok] by (metis option.distinct(1))
      have fin: "finite (dom (targets w))" using ok by (auto simp: refs_ok_def intro: finite_subset)
      have sets: "{a. targets w' a = Some d} = (if d = dev then insert res' {a. targets w a = Some d} else {a. targets w a = Some d})" for d
        using fresh by (auto simp: n(3) k(2))
      have "finite {a. targets w a = Some dev}" by (rule finite_subset [OF _ fin]) auto
      then have refs: "refs own w' d = (if d = dev then Suc (refs own w d) else refs own w d)" for d
        using fresh by (auto simp: refs_def sets)
      have "n = int (refs own w dev)" using n(1) k(1) refs_ok_counts [OF ok, of dev] by (simp split: if_splits)
      then have c': "counts w' = (counts w)(dev := if refs own w' dev = 0 then None else Some (int (refs own w' dev)))"
        using n(2) k(1) refs by (simp add: add.commute)
      have "dl_fresh w" "dom (counts w) \<union> dom (targets w) \<subseteq> {0<..<next_addr w}"
        using ok by (simp_all add: refs_ok_def)
      moreover have "0 < dev \<and> dev < next_addr w" using refs_ok_live [OF ok, of dev n] n(1) k(1) by simp
      moreover have "dl_fresh w'" using dl_fresh_grow [of w w'] calculation(1) k n by simp
      moreover have "dom (counts w') \<union> dom (targets w') \<subseteq> {0<..<next_addr w'}"
        using calculation(2,3) k n h(1) False by (auto simp: c' split: if_splits)
      ultimately have "refs_ok own w'"
        using c' by (intro refs_ok_adjust [OF ok dev]) (auto simp: refs)
      then show ?thesis using w3 n k fresh False by simp
    qed
  qed
qed

lemma close_outcome:
  assumes ok: "refs_ok own w" and run: "libusby_close be h w = Some w'"
  shows "refs_ok own w' \<and> targets w' = (targets w)(h := None) \<and> dlists w' = dlists w \<and>
    (\<forall>d. counts w' d \<noteq> None \<longrightarrow> descs w' d = descs w d)"
proof -
  obtain w1 dev w2 where w1: "usbyb_close be h w = Some w1" "targets w1 h = Some dev"
    and w2: "libusby_unref_device (usbyb_finalize_device be) dev w1 = Some w2"
    and w3: "free_handle h w2 = Some w'"
    using run by (auto simp: libusby_close_def libusby_get_device_def targets_def bind_Some_conv)
  have k: "counts w1 = counts w" "targets w1 = targets w" "descs w1 = descs w" "next_addr w \<le> next_addr w1"
    "dlists w1 = dlists w"
    using close_keeps [OF w1(1)] by (auto simp: keeps_refs_def)
  have "devs w1 0 = None" using refs_ok_null(1) [OF ok] k(1) by (metis counts_def option.map_disc_iff)
  then obtain n where n: "counts w1 dev = Some n" "targets w2 = targets w1" "next_addr w1 \<le> next_addr w2"
    "dlists w2 = dlists w1" "descs w2 = (if n = 1 then (descs w1)(dev := None) else descs w1)"
    "counts w2 = (if n = 1 then (counts w1)(dev := None) else (counts w1)(dev \<mapsto> n - 1))"
    using fin.unref_counts [OF w2] by blast
  have h0: "h \<noteq> 0" using w1(2) ok by (auto simp: k refs_ok_def)
  have e: "counts w' = counts w2" "descs w' = descs w2" "targets w' = (targets w2)(h := None)"
    "next_addr w' = next_addr w2" "dlists w' = dlists w2"
    using w3 h0
    by (auto simp: free_handle_def free_block_def counts_def descs_def targets_def fun_eq_iff monad_simps
        split: if_splits)
  have dev: "dev \<noteq> 0" using n(1) k(1) refs_ok_null(1) [OF ok] by (metis option.distinct(1))
  have fin: "finite (dom (targets w))" using ok by (auto simp: refs_ok_def intro: finite_subset)
  have sets: "{a. targets w' a = Some d} = {a. targets w a = Some d} - {h}" for d
    by (auto simp: e(3) n(2) k(2))
  have fin_dev: "finite {a. targets w a = Some dev}" by (rule finite_subset [OF _ fin]) auto
  have h_in: "h \<in> {a. targets w a = Some dev}" using w1(2) k(2) by simp
  have one: "refs own w dev = Suc (refs own w' dev)"
    using card.remove [OF fin_dev h_in] by (simp add: refs_def sets)
  have other: "refs own w' d = refs own w d" if "d \<noteq> dev" for d
  proof -
    have "h \<notin> {a. targets w a = Some d}" using h_in that by simp
    then show ?thesis by (simp add: refs_def sets)
  qed
  have "n = int (refs own w dev)" using n(1) k(1) refs_ok_counts [OF ok, of dev] by (simp split: if_splits)
  then have "counts w' = (counts w)(dev := if refs own w' dev = 0 then None else Some (int (refs own w' dev)))"
    using n(6) e(1) k(1) one by (cases "n = 1") simp_all
  moreover have "dl_fresh w'" using dl_fresh_grow [of w w'] ok k n(3,4) e by (simp add: refs_ok_def)
  moreover have "dom (counts w') \<union> dom (targets w') \<subseteq> {0<..<next_addr w'}"
    using ok k n e refs_ok_live [OF ok, of dev n] by (auto simp: refs_ok_def split: if_splits)
  ultimately have ok': "refs_ok own w'"
    using other by (intro refs_ok_adjust [OF ok dev])
  moreover have "descs w' d = descs w d" if "counts w' d \<noteq> None" for d
    using that n(5,6) e k by (auto split: if_splits)
  ultimately show ?thesis using e n(2,4) k(2,5) by simp
qed

subsection \<open>Control requests\<close>

lemma alloc_transfer_keeps:
  assumes "libusby_alloc_transfer be ctx n w = Some (t, w')"
  shows "keeps_refs w w'"
proof -
  obtain res w1 where new: "new_transfer (transfer_alloc_size (usbyb_transfer_size be) n)
      (zero_transfer_of (nat n) (zero_transfer be)) w = (res, w1)" by force
  note k1 = new_transfer_keeps_refs [OF new]
  show ?thesis
  proof (cases "res = 0")
    case True
    then show ?thesis using assms new k1 by (simp add: libusby_alloc_transfer_def)
  next
    case False
    then obtain r w2 where w2: "usbyb_init_transfer be res w1 = Some (r, w2)"
      and rest: "(if r < 0 then do { w \<leftarrow> free_transfer res w2; Some (0, w) } else do {
        w \<leftarrow> upd_transfer res (\<lambda>t. t\<lparr>it_ctx := ctx, it_num_iso_packets := n\<rparr>) w2;
        Some (usbyi_get_pub_tran (usbyb_transfer_pub_offset be) res, w) }) = Some (t, w')"
      using assms new by (auto simp: libusby_alloc_transfer_def bind_Some_conv)
    have "keeps_refs w2 w'"
      using rest by (auto simp: bind_Some_conv split: if_splits
          dest: free_transfer_keeps_refs upd_transfer_keeps_refs)
    then show ?thesis using k1 init_transfer_keeps [OF w2] keeps_refs_trans by blast
  qed
qed

lemma free_transfer_keeps:
  "libusby_free_transfer be t w = Some w' \<Longrightarrow> keeps_refs w w'"
  by (auto simp: libusby_free_transfer_def Let_def bind_Some_conv
      dest!: clear_transfer_keeps free_transfer_keeps_refs intro: keeps_refs_trans)

lemma fill_control:
  assumes "libusby_fill_control_transfer be t dev_handle buffer 0 u timeout w = Some w'"
  shows "keeps_refs w w' \<and> sync_control (usbyi_get_tran (usbyb_transfer_pub_offset be) t) w'"
  using assms
  by (auto simp: libusby_fill_control_transfer_def set_pub_def upd_pub_def sync_control_def monad_simps)

lemma perform_control:
  assumes "libusby_perform_transfer be t w = Some (r, w')"
    and "sync_control (usbyi_get_tran (usbyb_transfer_pub_offset be) t) w"
  shows "keeps_refs w w'"
proof -
  obtain r1 w1 where "usbyb_perform_transfer be (usbyi_get_tran (usbyb_transfer_pub_offset be) t) w = Some (r1, w1)"
    and rest: "(if r1 = err LIBUSBY_ERROR_NOT_SUPPORTED then do {
       (r, w) \<leftarrow> libusby_submit_transfer be t w1;
       if r \<ge> 0 then libusby_wait_for_transfer be t w else Some (r, w) }
     else Some (r1, w1)) = Some (r, w')"
    using assms(1) by (auto simp: libusby_perform_transfer_def bind_Some_conv)
  with perform_keeps [OF this(1) assms(2)] show ?thesis by auto
qed

lemma control_transfer_keeps:
  assumes "libusby_control_transfer be dev_handle a b c d data n timeout w = Some (r, data', w')"
  shows "keeps_refs w w'"
proof -
  from assms obtain dev x t w1 where x: "libusby_get_device dev_handle w = Some dev" "devs w dev = Some x"
    "libusby_alloc_transfer be (ld_ctx x) 0 w = Some (t, w1)"
    by (auto simp: libusby_control_transfer_def bind_Some_conv)
  note k1 = alloc_transfer_keeps [OF x(3)]
  show ?thesis
  proof (cases "t = 0")
    case True
    then show ?thesis using assms x k1 by (simp add: libusby_control_transfer_def)
  next
    case t: False
    obtain buffer w2 where w2: "new_buf (unat n + 8) w1 = (buffer, w2)" by force
    note k2 = keeps_refs_trans [OF k1 new_buf_keeps_refs [OF w2]]
    show ?thesis
    proof (cases "buffer = 0")
      case True
      then obtain w3 where "libusby_free_transfer be t w2 = Some w3" "w' = w3"
        using assms x t w2 by (auto simp: libusby_control_transfer_def bind_Some_conv)
      then show ?thesis using k2 free_transfer_keeps keeps_refs_trans by blast
    next
      case False
      with assms x t w2 obtain bs w4 r5 w5 w6 where
        w4: "libusby_fill_control_transfer be t dev_handle buffer 0 0 timeout (w2\<lparr>bufs := (bufs w2)(buffer \<mapsto> bs)\<rparr>) = Some w4"
        and w5: "libusby_perform_transfer be t w4 = Some (r5, w5)"
        and w6: "free_buf buffer w5 = Some w6" and w7: "libusby_free_transfer be t w6 = Some w'"
        by (auto simp: libusby_control_transfer_def Let_def bind_Some_conv)
      have "keeps_refs w2 (w2\<lparr>bufs := (bufs w2)(buffer \<mapsto> bs)\<rparr>)" by (rule keeps_refsI) simp_all
      then have k4: "keeps_refs w w4" using k2 fill_control [OF w4] keeps_refs_trans by blast
      have "keeps_refs w4 w5" using perform_control [OF w5] fill_control [OF w4] by blast
      then show ?thesis
        using k4 free_buf_keeps_refs [OF w6] free_transfer_keeps [OF w7] keeps_refs_trans by blast
    qed
  qed
qed

lemma get_descriptor_keeps:
  assumes "libusby_get_descriptor be h ty ix data n w = Some (r, data', w')"
  shows "keeps_refs w w'"
proof -
  obtain r1 data1 w1 where w1: "usbyb_get_descriptor be h ty ix 0 data n w = Some (r1, data1, w1)"
    and rest: "(if r1 = err LIBUSBY_ERROR_NOT_SUPPORTED
      then libusby_control_transfer be h 0x80 6 (le16 ix ty) 0 data1 (word_of_int n) 0 w1
      else Some (r1, data1, w1)) = Some (r, data', w')"
    using assms by (auto simp: libusby_get_descriptor_def bind_Some_conv)
  note k1 = descriptor_keeps [OF w1]
  show ?thesis
    using rest k1 keeps_refs_trans [OF k1 control_transfer_keeps] by (auto split: if_splits)
qed

text \<open>Reading the device descriptor may fill the cache of the device of the handle, nothing else.\<close>

lemma get_device_descriptor_outcome:
  assumes "libusby_get_device_descriptor be h w = Some (r, desc, w')"
  shows "counts w' = counts w \<and> targets w' = targets w \<and> dlists w' = dlists w \<and> next_addr w \<le> next_addr w' \<and>
    (0 \<le> r \<longrightarrow> (\<exists>dev d. targets w h = Some dev \<and> desc = Some d \<and> descs w' dev = Some d))"
proof -
  obtain dev r1 desc1 where d: "libusby_get_device h w = Some dev"
    and c: "libusby_get_device_descriptor_cached dev w = Some (r1, desc1)"
    using assms by (auto simp: libusby_get_device_descriptor_def bind_Some_conv)
  have h: "targets w h = Some dev" using d by (simp add: libusby_get_device_def targets_def)
  show ?thesis
  proof (cases "r1 = err LIBUSBY_SUCCESS")
    case True
    then have w': "r = err LIBUSBY_SUCCESS" "desc = desc1" "w' = w"
      using assms d c by (auto simp: libusby_get_device_descriptor_def)
    have "\<exists>x. desc1 = Some x \<and> descs w dev = Some x"
      using c True by (auto simp: libusby_get_device_descriptor_cached_def descs_def bind_Some_conv split: if_splits)
    then show ?thesis using h w' by simp
  next
    case False
    then obtain r2 raw w2 where g: "libusby_get_descriptor be h 1 0 (stack_bytes 18 w) 18 w = Some (r2, raw, w2)"
      using assms d c by (auto simp: libusby_get_device_descriptor_def bind_Some_conv)
    note k = get_descriptor_keeps [OF g]
    show ?thesis
    proof (cases "r2 < 0")
      case True
      then have "r = r2" "desc = None" "w' = w2"
        using assms d c False g by (auto simp: libusby_get_device_descriptor_def)
      then show ?thesis using k True by (simp add: keeps_refs_def)
    next
      case pos: False
      then obtain x r3 desc3 w3 where x: "devs w2 dev = Some x"
        "usbyi_sanitize_device_desc (ld_device_desc x) raw = Some (r3, desc3)"
        "upd_device dev (\<lambda>d. d\<lparr>ld_device_desc := desc3\<rparr>) w2 = Some w3"
        and out: "w' = w3" "if r3 < 0 then r = r3 \<and> desc = None else r = err LIBUSBY_SUCCESS \<and> desc = Some desc3"
        using assms d c False g by (auto simp: libusby_get_device_descriptor_def bind_Some_conv split: if_splits)
      have "counts w3 = counts w2 \<and> targets w3 = targets w2 \<and> dlists w3 = dlists w2 \<and> next_addr w3 = next_addr w2
          \<and> descs w3 dev = Some desc3"
        using x by (auto simp: monad_simps counts_def targets_def descs_def fun_eq_iff)
      then show ?thesis using k out h by (auto simp: keeps_refs_def split: if_splits)
    qed
  qed
qed

subsection \<open>The search for a device\<close>

lemma open_cached_loop_outcome:
  assumes "refs_ok own w" "open_cached_loop be vid pid cells w = Some (h, w')"
  shows "refs_ok own w' \<and> dlists w' = dlists w \<and> search_result vid pid w h w'"
  using assms
proof (induction cells arbitrary: w)
  case Nil
  then show ?case by (simp add: search_result_def)
next
  case (Cons cell cells)
  obtain dev r desc where cell: "cell = Some dev" "libusby_get_device_descriptor_cached dev w = Some (r, desc)"
    using Cons.prems(2) by (auto simp: bind_Some_conv)
  show ?case
  proof (cases "r < 0 \<or> \<not> matches (the desc) vid pid")
    case True
    then have "open_cached_loop be vid pid cells w = Some (h, w')"
      using Cons.prems(2) cell by (auto simp: bind_Some_conv split: if_splits)
    then show ?thesis using Cons.IH [OF Cons.prems(1)] by simp
  next
    case False
    then obtain d r2 res w2 where d: "desc = Some d" "matches d vid pid"
      and o: "libusby_open be dev w = Some (r2, res, w2)"
      and rest: "(if r2 < 0 then open_cached_loop be vid pid cells w2
        else do { h \<leftarrow> res; if h = 0 then open_cached_loop be vid pid cells w2 else Some (h, w2) }) = Some (h, w')"
      using Cons.prems(2) cell by (auto simp: bind_Some_conv split: if_splits)
    note out = open_outcome [OF Cons.prems(1) o]
    have dd: "descs w dev = Some d"
      using cell(2) d(1) by (auto simp: libusby_get_device_descriptor_cached_def descs_def bind_Some_conv split: if_splits)
    show ?thesis
    proof (cases "r2 < 0")
      case True
      then show ?thesis
        using Cons.IH [of w2] out rest search_result_cong [of w2 w] by simp
    next
      case False
      then show ?thesis using out rest dd d(2) by (auto simp: search_result_def)
    qed
  qed
qed

lemma open_probe_loop_outcome:
  assumes "refs_ok own w" "open_probe_loop be vid pid cells w = Some (h, w')"
  shows "refs_ok own w' \<and> dlists w' = dlists w \<and> search_result vid pid w h w'"
  using assms
proof (induction cells arbitrary: w)
  case Nil
  then show ?case by (simp add: search_result_def)
next
  case (Cons cell cells)
  obtain dev r res w1 where cell: "cell = Some dev" "libusby_open be dev w = Some (r, res, w1)"
    using Cons.prems(2) by (auto simp: bind_Some_conv)
  note out = open_outcome [OF Cons.prems(1) cell(2)]
  show ?case
  proof (cases "r < 0")
    case True
    then have "open_probe_loop be vid pid cells w1 = Some (h, w')"
      using Cons.prems(2) cell by (simp add: bind_Some_conv)
    then show ?thesis using Cons.IH [of w1] out True search_result_cong [of w1 w] by simp
  next
    case False
    then obtain a where a: "res = Some a" "a \<noteq> 0" "a \<notin> dom (targets w)" "targets w1 = (targets w)(a \<mapsto> dev)"
      using out by auto
    obtain r2 desc w2 matched where g: "libusby_get_device_descriptor be a w1 = Some (r2, desc, w2)"
      and m: "(if r2 < 0 then Some False else do { desc \<leftarrow> desc; Some (matches desc vid pid) }) = Some matched"
      and rest: "(if matched then Some (a, w2)
        else do { w \<leftarrow> libusby_close be a w2; open_probe_loop be vid pid cells w }) = Some (h, w')"
      using Cons.prems(2) cell a(1) False by (auto simp: bind_Some_conv)
    note gd = get_device_descriptor_outcome [OF g]
    have ok2: "refs_ok own w2" using refs_ok_mono [of own w1 w2] out gd dl_fresh_grow [of w1 w2]
      by (metis refs_ok_def)
    show ?thesis
    proof (cases matched)
      case True
      then show ?thesis
        using rest m gd a out ok2 by (auto simp: search_result_def bind_Some_conv split: if_splits)
    next
      case False
      then obtain w3 where w3: "libusby_close be a w2 = Some w3" "open_probe_loop be vid pid cells w3 = Some (h, w')"
        using rest by (auto simp: bind_Some_conv)
      note cl = close_outcome [OF ok2 w3(1)]
      have "targets w3 = targets w" using cl gd a by (auto simp: fun_eq_iff)
      then show ?thesis
        using Cons.IH [of w3] w3(2) cl gd out search_result_cong [of w3 w] by simp
    qed
  qed
qed

lemma open_device_outcome:
  assumes ok: "refs_ok own w" and run: "libusby_open_device_with_vid_pid be ctx vid pid w = Some (h, w')"
  shows "refs_ok own w' \<and> search_result vid pid w h w'"
proof -
  obtain cnt l w1 where list: "usbyb_get_device_list be ctx w = Some (cnt, l, w1)"
    using run by (auto simp: libusby_open_device_with_vid_pid_def libusby_get_device_list_def bind_Some_conv)
  note lr = list_refs [OF list ok]
  show ?thesis
  proof (cases "cnt < 0")
    case True
    then have "h = 0" "w' = w1"
      using run list by (auto simp: libusby_open_device_with_vid_pid_def libusby_get_device_list_def)
    then show ?thesis using lr True by (simp add: search_result_def)
  next
    case False
    then obtain xs p where xs: "l = Some p" "list_at w1 p xs" "0 \<notin> set xs" "length xs = nat cnt"
      "refs_ok (\<lambda>d. own d + count_list xs d) w1"
      using lr by auto
    obtain cells h2 w2 w3 where c: "open_cached_loop be vid pid cells w1 = Some (h2, w2)"
      and pr: "(if h2 = 0 then open_probe_loop be vid pid cells w2 else Some (h2, w2)) = Some (h, w3)"
      and fr: "libusby_free_device_list (usbyb_finalize_device be) p True w3 = Some w'"
      using run list False xs(1)
      by (auto simp: libusby_open_device_with_vid_pid_def libusby_get_device_list_def bind_Some_conv Let_def)
    note cl = open_cached_loop_outcome [OF xs(5) c]
    have res: "refs_ok (\<lambda>d. own d + count_list xs d) w3 \<and> dlists w3 = dlists w1 \<and> search_result vid pid w1 h w3"
    proof (cases "h2 = 0")
      case True
      then have "targets w2 = targets w1" using cl by (simp add: search_result_def)
      then show ?thesis
        using open_probe_loop_outcome [of "\<lambda>d. own d + count_list xs d" w2] cl pr True
          search_result_cong [of w2 w1] by auto
    next
      case False
      then show ?thesis using cl pr by simp
    qed
    have "if xs = [] then p = 0 else p \<noteq> 0 \<and> (\<exists>rest. dlists w3 p = Some (map Some xs @ Some 0 # rest))"
      using xs(2) res by (simp add: list_at_def)
    then have f: "refs_ok own w'" "targets w' = targets w3" "\<And>d. counts w' d \<noteq> None \<Longrightarrow> descs w' d = descs w3 d"
      using fin.free_device_list_outcome [of own xs w3 p w'] res xs(3) fr by auto
    have "search_result vid pid w1 h w'"
    proof (cases "h = 0")
      case True
      then show ?thesis using res f(2) by (simp add: search_result_def)
    next
      case False
      then obtain dev d where d: "h \<notin> dom (targets w1)" "targets w3 = (targets w1)(h \<mapsto> dev)"
        "descs w3 dev = Some d" "matches d vid pid"
        using res by (auto simp: search_result_def)
      have "finite {a. targets w' a = Some dev}"
        by (rule finite_subset [of _ "{0<..<next_addr w'}"]) (use f(1) in \<open>auto simp: refs_ok_def\<close>)
      moreover have "h \<in> {a. targets w' a = Some dev}" using f(2) d(2) by simp
      ultimately have "refs own w' dev \<noteq> 0" by (auto simp: refs_def)
      then have "counts w' dev \<noteq> None" using refs_ok_counts [OF f(1), of dev] by simp
      then have "descs w' dev = Some d" using f(3) d(3) by simp
      then show ?thesis using d f(2) False by (auto simp: search_result_def)
    qed
    then show ?thesis using f(1) search_result_cong [of w1 w] lr by simp
  qed
qed

end

end
