(* ===== verification/Client.thy ===== *)
theory Client
  imports Frontend_Refs
begin

text \<open>
  Clients of the library: the calls a program makes on devices, handles and lists of devices,
  in any order, as a step relation on the world and on the references the client holds. Every
  run keeps the accounting of references, over every back end that keeps the contract.
\<close>

section \<open>The calls\<close>

text \<open>
  The first component of a state counts the references of the client. It may give up only
  references it holds, and hand back a list only with its references or as a bare array; the
  library decides every result.
\<close>

inductive client_step :: "('c, 'd, 'h, 't, 'k) backend \<Rightarrow> (addr \<Rightarrow> nat) \<times> ('c, 'd, 'h, 't, 'k) world
    \<Rightarrow> (addr \<Rightarrow> nat) \<times> ('c, 'd, 'h, 't, 'k) world \<Rightarrow> bool"
  for be where
  ref: "client_step be (own, w) (own(d := Suc (own d)), w')"
    if "libusby_ref_device d w = Some w'"
| unref: "client_step be (own, w) (own(d := own d - 1), w')"
    if "0 < own d" "libusby_unref_device (usbyb_finalize_device be) d w = Some w'"
| open_device: "client_step be (own, w) (own, w')"
    if "libusby_open be d w = Some (r, res, w')"
| close_device: "client_step be (own, w) (own, w')"
    if "libusby_close be h w = Some w'"
| list_failed: "client_step be (own, w) (own, w')"
    if "libusby_get_device_list be ctx w = Some (r, l, w')" "r < 0"
| list_devices: "client_step be (own, w) (\<lambda>d. own d + count_list xs d, w')"
    if "libusby_get_device_list be ctx w = Some (r, Some l, w')" "0 \<le> r" "list_at w' l xs" "0 \<notin> set xs"
| free_list: "client_step be (\<lambda>d. own d + count_list xs d, w) (own, w')"
    if "list_at w l xs" "0 \<notin> set xs"
      "libusby_free_device_list (usbyb_finalize_device be) l True w = Some w'"
| free_array: "client_step be (own, w) (own, w')"
    if "libusby_free_device_list (usbyb_finalize_device be) l False w = Some w'"
| open_by_numbers: "client_step be (own, w) (own, w')"
    if "libusby_open_device_with_vid_pid be ctx vid pid w = Some (h, w')"
| control: "client_step be (own, w) (own, w')"
    if "libusby_control_transfer be h a b c e data n timeout w = Some (r, data', w')"
| descriptor: "client_step be (own, w) (own, w')"
    if "libusby_get_descriptor be h ty ix data len w = Some (r, data', w')"
| device_descriptor: "client_step be (own, w) (own, w')"
    if "libusby_get_device_descriptor be h w = Some (r, desc, w')"

definition client_run :: "('c, 'd, 'h, 't, 'k) backend \<Rightarrow> (addr \<Rightarrow> nat) \<times> ('c, 'd, 'h, 't, 'k) world
    \<Rightarrow> (addr \<Rightarrow> nat) \<times> ('c, 'd, 'h, 't, 'k) world \<Rightarrow> bool" where
  "client_run be = (client_step be)\<^sup>*\<^sup>*"

lemma client_run_refl [simp]: "client_run be s s"
  by (simp add: client_run_def)

lemma client_run_step: "client_step be s t \<Longrightarrow> client_run be t u \<Longrightarrow> client_run be s u"
  unfolding client_run_def by (rule converse_rtranclp_into_rtranclp)

section \<open>The invariant\<close>

text \<open>An array holds one list of devices only: it ends with the first null pointer.\<close>

lemma null_terminated_unique:
  assumes "map Some xs @ Some (0 :: nat) # as = map Some ys @ Some 0 # bs" "0 \<notin> set xs" "0 \<notin> set ys"
  shows "xs = ys"
  using assms
proof (induction xs arbitrary: ys)
  case Nil
  then show ?case by (cases ys) auto
next
  case (Cons x xs)
  then show ?case by (cases ys) auto
qed

lemma list_at_unique:
  assumes "list_at w l xs" "list_at w l ys" "0 \<notin> set xs" "0 \<notin> set ys"
  shows "xs = ys"
  using assms null_terminated_unique [of xs _ ys] by (auto simp: list_at_def split: if_splits)

text \<open>What the accounting gives a client: no handle outlives its device.\<close>

lemma refs_ok_handle_live:
  assumes ok: "refs_ok own w" and h: "targets w h = Some d"
  shows "\<exists>n>0. counts w d = Some n"
proof -
  have "finite {a. targets w a = Some d}"
    by (rule finite_subset [of _ "{0<..<next_addr w}"]) (use ok in \<open>auto simp: refs_ok_def\<close>)
  moreover have "h \<in> {a. targets w a = Some d}" using h by simp
  ultimately have "0 < refs own w d" by (auto simp: refs_def card_gt_0_iff)
  then show ?thesis using refs_ok_counts [OF ok, of d] by simp
qed

lemma refs_ok_owned_live: "refs_ok own w \<Longrightarrow> 0 < own d \<Longrightarrow> \<exists>n>0. counts w d = Some n"
  using refs_ok_counts [of own w d] by (simp add: refs_def)

context os_contract
begin

lemma free_array_keeps:
  assumes ok: "refs_ok own w" and run: "libusby_free_device_list fin l False w = Some w'"
  shows "refs_ok own w'"
proof -
  obtain m where m: "free_block (dlists w) l = Some m" and w': "w' = w\<lparr>dlists := m\<rparr>"
    using run by (auto simp: libusby_free_device_list_def bind_Some_conv)
  have c: "counts w' = counts w" "targets w' = targets w"
    by (simp_all add: w' counts_def targets_def fun_eq_iff)
  have "dl_fresh w'" using ok m by (auto simp: refs_ok_def dl_fresh_def w' free_block_def split: if_splits)
  then show ?thesis by (intro refs_ok_mono [OF ok c]) (simp add: w')
qed

lemma client_step_refs_ok:
  assumes "client_step be s t" "refs_ok (fst s) (snd s)"
  shows "refs_ok (fst t) (snd t)"
  using assms
proof (induction rule: client_step.induct)
  case (ref d w w' own)
  then show ?case unfolding prod.sel by (intro ref_device_refs_ok)
next
  case (unref own d w w')
  then show ?case unfolding prod.sel by (intro fin.client_unref_refs_ok)
next
  case (open_device d w r res w' own)
  then show ?case using open_outcome by simp
next
  case (close_device h w w' own)
  then show ?case using close_outcome by simp
next
  case (list_failed ctx w r l w' own)
  then show ?case using list_refs [of ctx w r l w' own] by (simp add: libusby_get_device_list_def)
next
  case (list_devices ctx w r l w' xs own)
  then obtain ys where "list_at w' l ys" "0 \<notin> set ys" "refs_ok (\<lambda>d. own d + count_list ys d) w'"
    using list_refs [of ctx w r "Some l" w' own] by (auto simp: libusby_get_device_list_def)
  then show ?case using list_at_unique [of w' l xs ys] list_devices by simp
next
  case (free_list w l xs w' own)
  then show ?case
    using fin.free_device_list_outcome [of own xs w l w'] by (simp add: list_at_def)
next
  case (free_array l w w' own)
  then show ?case using free_array_keeps by simp
next
  case (open_by_numbers ctx vid pid w h w' own)
  then show ?case using open_device_outcome by simp
next
  case (control h a b c e data n timeout w r data' w' own)
  then show ?case using control_transfer_keeps refs_ok_keeps by fastforce
next
  case (descriptor h ty ix data len w r data' w' own)
  then show ?case using get_descriptor_keeps refs_ok_keeps by fastforce
next
  case (device_descriptor h w r desc w' own)
  then have w': "counts w' = counts w" "targets w' = targets w" "next_addr w \<le> next_addr w'" "dlists w' = dlists w"
    and ok: "refs_ok own w"
    using get_device_descriptor_outcome [of h w r desc w'] by simp_all
  have "dl_fresh w'" using ok w' dl_fresh_grow [of w w'] by (simp add: refs_ok_def)
  then show ?case using refs_ok_mono [OF ok w'(1-3)] by simp
qed

lemma client_run_refs_ok:
  "client_run be s t \<Longrightarrow> refs_ok (fst s) (snd s) \<Longrightarrow> refs_ok (fst t) (snd t)"
  unfolding client_run_def
  by (induction rule: rtranclp_induct) (auto intro: client_step_refs_ok)

text \<open>No reference is lost: with the same handles and the same references of the client, every
  device has the same count, or is gone, as before.\<close>

lemma client_run_balanced:
  assumes run: "client_run be (own, w) (own, w')" and ok: "refs_ok own w" and same: "targets w' = targets w"
  shows "counts w' = counts w"
proof
  fix d
  have "refs_ok own w'" using client_run_refs_ok [OF run] ok by simp
  moreover have "refs own w' d = refs own w d" by (simp add: refs_def same)
  ultimately show "counts w' d = counts w d" using refs_ok_counts [of own] ok by metis
qed

end

end
