(* ===== verification/Enum_Refs.thy ===== *)
theory Enum_Refs
  imports Frontend_Refs
begin

text \<open>
  References during an enumeration of devices, for the back ends: each of them builds the array
  of \<^verbatim>\<open>usbyb_get_device_list\<close> from devices it finds in the ring of the context
  and from new ones, and when it fails gives all references back and frees the array, so that
  the arrays of the heap are those from before.
\<close>

lemma nodes_keeps [simp]: "keeps_refs w (w\<lparr>nodes := m\<rparr>)"
  by (rule keeps_refsI) simp_all

lemma bufs_keeps [simp]: "keeps_refs w (w\<lparr>bufs := m\<rparr>)"
  by (rule keeps_refsI) simp_all

text \<open>
  The state of the enumeration: \<open>own\<close> are the references of the client and of the list
  being built, \<open>xs\<close> its devices, and \<open>T\<close> the handles and the arrays from before,
  to which the list being built is the only addition.
\<close>

type_synonym enum_start = "(addr \<rightharpoonup> addr) \<times> (addr \<rightharpoonup> addr option list)"

definition enum_inv :: "(addr \<Rightarrow> nat) \<Rightarrow> enum_start \<Rightarrow> usbyi_device_list \<Rightarrow> addr list \<Rightarrow> ('c, 'd, 'h, 't, 'k) world \<Rightarrow> bool" where
  "enum_inv own T ds xs w \<longleftrightarrow> refs_ok own w \<and> dl_inv ds w xs \<and> 0 \<notin> set xs \<and> targets w = fst T \<and>
     only_array (dl_list ds) (snd T) (dlists w)"

lemma dl_inv_dlists: "dlists w' = dlists w \<Longrightarrow> dl_inv ds w' xs = dl_inv ds w xs"
  by (simp add: dl_inv_def)

lemma enum_inv_keeps: "keeps_refs w w' \<Longrightarrow> enum_inv own T ds xs w \<Longrightarrow> enum_inv own T ds xs w'"
  using refs_ok_keeps [of w w' own] dl_inv_dlists [of w' w ds xs] by (simp add: enum_inv_def keeps_refs_def)

lemma enum_append:
  assumes inv: "enum_inv own T ds xs w" and dev: "dev \<noteq> 0"
    and run: "usbyi_append_device_list ds dev w = Some (r, ds', w')"
  shows "r = err LIBUSBY_ERROR_NO_MEM \<and> enum_inv own T ds' xs w' \<or>
    r = err LIBUSBY_SUCCESS \<and> enum_inv own T ds' (xs @ [dev]) w'"
proof -
  have inv': "refs_ok own w" "dl_inv ds w xs" "0 \<notin> set xs" "targets w = fst T"
    "only_array (dl_list ds) (snd T) (dlists w)"
    using inv by (simp_all add: enum_inv_def)
  have fr: "dl_fresh w" using inv'(1) by (simp add: refs_ok_def)
  show ?thesis
    using append_device_list_run [OF inv'(2) fr run]
  proof (elim disjE conjE exE, goal_cases)
    case 1
    then have "keeps_refs w w'" by (auto intro: keeps_refsI)
    then show ?case using enum_inv_keeps [OF _ inv] 1 by simp
  next
    case (2 n l f)
    then have c: "counts w' = counts w" "targets w' = targets w"
      by (simp_all add: counts_def targets_def fun_eq_iff)
    have "refs_ok own w'" by (rule refs_ok_mono [OF inv'(1) c]) (use 2 in simp_all)
    then show ?case using 2 inv' c dev by (simp add: enum_inv_def)
  qed
qed

lemma alloc_device_outcome:
  assumes null: "devs w 0 = None" and run: "usbyi_alloc_device sz z ctx w = Some (dev, w')"
  shows "dev = next_addr w \<and> next_addr w < next_addr w' \<and> dlists w' = dlists w \<and> targets w' = targets w \<and>
    counts w' = (counts w)(dev \<mapsto> 1)"
proof (cases rule: malloc_cases [of sz w])
  case fail
  then have "usbyi_alloc_device sz z ctx w = None"
    using null by (simp add: usbyi_alloc_device_def new_device_def upd_device_def)
  then show ?thesis using run by simp
next
  case ok
  show ?thesis
  proof (cases "next_addr w = 0")
    case True
    then have "usbyi_alloc_device sz z ctx w = None"
      using null ok(1) by (simp add: usbyi_alloc_device_def new_device_def upd_device_def)
    then show ?thesis using run by simp
  next
    case False
    then have "dev = next_addr w" "w' = w\<lparr>n_mallocs := Suc (n_mallocs w), next_addr := next_addr w + max 1 sz,
        nodes := (nodes w)(Devnode dev \<mapsto> null_node),
        devs := (devs w)(dev \<mapsto> \<lparr>ld_ctx = ctx, ld_ref_count = 1, ld_device_desc = zero_device_desc, ld_os = z\<rparr>)\<rparr>"
      using run ok(1) by (auto simp: usbyi_alloc_device_def new_device_def upd_device_def)
    then show ?thesis by (simp add: counts_def targets_def fun_eq_iff)
  qed
qed

lemma enum_alloc:
  assumes inv: "enum_inv own T ds xs w" and run: "usbyi_alloc_device sz z ctx w = Some (dev, w')"
  shows "dev \<noteq> 0 \<and> enum_inv (own(dev := Suc (own dev))) T ds xs w'"
proof -
  have ok: "refs_ok own w" and tg: "targets w = fst T" using inv by (simp_all add: enum_inv_def)
  have new: "dev = next_addr w" and w': "next_addr w < next_addr w'" "dlists w' = dlists w" "targets w' = targets w"
    "counts w' = (counts w)(dev \<mapsto> 1)"
    using alloc_device_outcome [OF refs_ok_null(2) [OF ok] run] by simp_all
  have dev: "dev \<noteq> 0" "counts w dev = None" "dev < next_addr w'"
    using ok new w'(1) by (auto simp: refs_ok_def dl_fresh_def)
  have none: "refs own w dev = 0" using refs_ok_counts [OF ok, of dev] dev(2) by (simp split: if_splits)
  have new_refs: "refs (own(dev := Suc (own dev))) w' d = (if d = dev then Suc (refs own w d) else refs own w d)" for d
    using w' by (simp add: refs_def)
  have "dl_fresh w" "dom (counts w) \<union> dom (targets w) \<subseteq> {0<..<next_addr w}" using ok by (simp_all add: refs_ok_def)
  then have "dom (counts w') \<union> dom (targets w') \<subseteq> {0<..<next_addr w'}" "dl_fresh w'"
    using w' dl_fresh_grow [of w w'] dev by auto
  then have "refs_ok (own(dev := Suc (own dev))) w'"
    by (intro refs_ok_adjust [OF ok dev(1)]) (simp_all add: new_refs none w')
  then show ?thesis using dev(1) inv dl_inv_dlists [OF w'(2), of ds xs] w'(2,3) by (simp add: enum_inv_def)
qed

lemma upd_device_keeps_refs:
  "upd_device p f w = Some w' \<Longrightarrow> (\<And>d. ld_ref_count (f d) = ld_ref_count d) \<Longrightarrow>
    (\<And>d. ld_device_desc (f d) = ld_device_desc d) \<Longrightarrow> keeps_refs w w'"
  by (auto simp: monad_simps intro: keeps_refs_device)

lemma enum_upd_device:
  assumes inv: "enum_inv own T ds xs w" and run: "upd_device p f w = Some w'"
    and f: "\<And>d. ld_ref_count (f d) = ld_ref_count d"
  shows "enum_inv own T ds xs w'"
proof -
  obtain d where "devs w p = Some d" and w': "w' = w\<lparr>devs := (devs w)(p \<mapsto> f d)\<rparr>"
    using run by (auto simp: upd_Some)
  then have c: "counts w' = counts w" "targets w' = targets w" "dlists w' = dlists w" "next_addr w' = next_addr w"
    by (simp_all add: counts_def targets_def fun_eq_iff f)
  have ok: "refs_ok own w" using inv by (simp add: enum_inv_def)
  have "refs_ok own w'"
    by (rule refs_ok_mono [OF ok c(1,2)]) (use ok c dl_fresh_grow [of w w'] in \<open>simp_all add: refs_ok_def\<close>)
  then show ?thesis using inv dl_inv_dlists [OF c(3), of ds xs] c(2,3) by (simp add: enum_inv_def)
qed

lemma own_append: "(\<lambda>d. own d + count_list xs d)(x := Suc (own x + count_list xs x))
    = (\<lambda>d. own d + count_list (xs @ [x]) d)"
  by (auto simp: fun_eq_iff)

text \<open>The references of the list being built, whatever its devices are.\<close>

definition list_refs_inv :: "(addr \<Rightarrow> nat) \<Rightarrow> enum_start \<Rightarrow> usbyi_device_list \<Rightarrow> ('c, 'd, 'h, 't, 'k) world \<Rightarrow> bool" where
  "list_refs_inv own T ds w \<longleftrightarrow> (\<exists>xs. enum_inv (\<lambda>d. own d + count_list xs d) T ds xs w)"

lemma list_refs_inv_keeps: "keeps_refs w w' \<Longrightarrow> list_refs_inv own T ds w \<Longrightarrow> list_refs_inv own T ds w'"
  unfolding list_refs_inv_def by (blast intro: enum_inv_keeps)

lemma dl_inv_list_at:
  assumes "dl_inv ds w xs"
  shows "list_at w (dl_list ds) xs" "dl_count ds = int (length xs)"
proof -
  show "dl_count ds = int (length xs)" using assms by (simp add: dl_inv_def)
  show "list_at w (dl_list ds) xs"
  proof (cases "xs = []")
    case False
    then obtain cells where c: "dl_list ds \<noteq> 0" "dlists w (dl_list ds) = Some cells" "dl_cells cells xs"
      using assms by (auto simp: dl_inv_def)
    have "cells = map Some xs @ Some 0 # drop (Suc (length xs)) cells"
      using c(3) append_take_drop_id [of "Suc (length xs)" cells] by (simp add: dl_cells_def)
    then show ?thesis using c False by (auto simp: list_at_def)
  qed (use assms in \<open>simp add: list_at_def dl_inv_def\<close>)
qed

section \<open>Devices found again, and devices given up\<close>

text \<open>A known device gets one more reference, that of the array.\<close>

lemma known_device_refs:
  assumes inv: "enum_inv (\<lambda>d. own d + count_list xs d) T ds (xs @ [dev]) w"
    and run: "libusby_ref_device dev w = Some w'"
  shows "list_refs_inv own T ds w'"
proof -
  have "refs_ok ((\<lambda>d. own d + count_list xs d)(dev := Suc (own dev + count_list xs dev))) w'"
    using inv by (intro ref_device_refs_ok [OF _ run]) (simp add: enum_inv_def)
  moreover have "targets w' = targets w" "dlists w' = dlists w"
    using ref_device_counts [OF run] by blast+
  ultimately have "enum_inv (\<lambda>d. own d + count_list (xs @ [dev]) d) T ds (xs @ [dev]) w'"
    using inv dl_inv_dlists [of w' w ds "xs @ [dev]"] by (simp add: enum_inv_def own_append)
  then show ?thesis unfolding list_refs_inv_def by blast
qed

context finalizer
begin

lemma enum_unref:
  assumes inv: "enum_inv (own(dev := Suc (own dev))) T ds xs w"
    and run: "libusby_unref_device fin dev w = Some w'"
  shows "enum_inv own T ds xs w'"
proof -
  have ok: "refs_ok (own(dev := Suc (own dev))) w" using inv by (simp add: enum_inv_def)
  have "refs_ok own w'" using client_unref_refs_ok [OF ok _ run] by simp
  moreover have "targets w' = targets w" "dlists w' = dlists w"
    using unref_counts [OF run refs_ok_null(2) [OF ok]] by blast+
  ultimately show ?thesis using inv dl_inv_dlists [of w' w ds xs] by (simp add: enum_inv_def)
qed

text \<open>At the label \<open>error\<close> the array is freed with its references.\<close>

lemma give_up_list:
  assumes inv: "list_refs_inv own T ds w"
    and run: "(if dl_list ds \<noteq> 0 then libusby_free_device_list fin (dl_list ds) True w else Some w) = Some w'"
  shows "refs_ok own w' \<and> targets w' = fst T \<and> dlists w' = snd T"
proof -
  obtain xs where xs: "enum_inv (\<lambda>d. own d + count_list xs d) T ds xs w" using inv by (auto simp: list_refs_inv_def)
  show ?thesis
  proof (cases "xs = []")
    case True
    then show ?thesis using xs run by (auto simp: enum_inv_def dl_inv_def)
  next
    case False
    then have l: "if xs = [] then dl_list ds = 0
      else dl_list ds \<noteq> 0 \<and> (\<exists>rest. dlists w (dl_list ds) = Some (map Some xs @ Some 0 # rest))"
      using dl_inv_list_at(1) [of ds w xs] xs by (simp add: enum_inv_def list_at_def)
    then have "libusby_free_device_list fin (dl_list ds) True w = Some w'" using run False by simp
    from free_device_list_outcome [OF _ _ l this, of own] show ?thesis
      using xs l False only_array_gone [of "dl_list ds" "snd T" "dlists w"] by (simp add: enum_inv_def)
  qed
qed

end

text \<open>The result of a complete enumeration.\<close>

lemma complete_list:
  assumes "list_refs_inv own T ds w"
  shows "targets w = fst T \<and> (\<exists>xs. list_at w (dl_list ds) xs \<and> 0 \<notin> set xs \<and> length xs = nat (dl_count ds) \<and>
    only_array (dl_list ds) (snd T) (dlists w) \<and> refs_ok (\<lambda>d. own d + count_list xs d) w) \<and> 0 \<le> dl_count ds"
proof -
  obtain xs where "enum_inv (\<lambda>d. own d + count_list xs d) T ds xs w" using assms by (auto simp: list_refs_inv_def)
  then show ?thesis using dl_inv_list_at [of ds w xs] by (auto simp: enum_inv_def intro!: exI [of _ xs])
qed

lemma empty_list_refs: "refs_ok own w \<Longrightarrow> list_refs_inv own (targets w, dlists w) empty_device_list w"
  by (auto simp: list_refs_inv_def enum_inv_def empty_device_list_def dl_inv_def intro!: exI [of _ "[]"])

end
