(* ===== verification/Linux_Backend.thy ===== *)
theory Linux_Backend
  imports Linux_Loop Linux_Enum Client Enum_Refs
begin

text \<open>
  The Linux back end as an instance of the interface \<^verbatim>\<open>src/os/os.h\<close>, and the proof
  that it keeps the contract of the front end on references.
\<close>

section \<open>The instance\<close>

definition linux_backend :: "'k kernel \<Rightarrow> object_sizes \<Rightarrow> ('k lx_world \<Rightarrow> 'k lx_world option)
    \<Rightarrow> (nat \<Rightarrow> addr \<Rightarrow> 'k lx_world \<Rightarrow> 'k lx_world option)
    \<Rightarrow> (lx_context, lx_device, lx_handle, lx_transfer, 'k linux_os) backend" where
  "linux_backend K sz env cb = \<lparr>
     zero_context = zero_lx_context, zero_device = zero_lx_device,
     zero_device_handle = zero_lx_handle, zero_transfer = zero_lx_transfer,
     usbyb_context_size = sz_context sz, usbyb_device_size = sz_device sz,
     usbyb_device_handle_size = sz_device_handle sz, usbyb_transfer_size = sz_transfer sz,
     usbyb_transfer_pub_offset = sz_pub_offset sz,
     usbyb_init = linux_usbyb_init K, usbyb_exit = linux_usbyb_exit K,
     usbyb_get_device_list = linux_usbyb_get_device_list K (sz_device sz),
     usbyb_finalize_device = linux_usbyb_finalize_device K,
     usbyb_open = linux_usbyb_open K, usbyb_close = linux_usbyb_close K,
     usbyb_get_descriptor = linux_usbyb_get_descriptor,
     usbyb_get_descriptor_cached = linux_usbyb_get_descriptor_cached,
     usbyb_get_configuration = linux_usbyb_get_configuration,
     usbyb_set_configuration = linux_usbyb_set_configuration K,
     usbyb_claim_interface = linux_usbyb_claim_interface K,
     usbyb_release_interface = linux_usbyb_release_interface K,
     usbyb_perform_transfer = linux_usbyb_perform_transfer K,
     usbyb_submit_transfer = linux_usbyb_submit_transfer K,
     usbyb_cancel_transfer = linux_usbyb_cancel_transfer K,
     usbyb_wait_for_transfer = linux_usbyb_wait_for_transfer K env cb,
     usbyb_run_event_loop = linux_usbyb_run_event_loop K env cb,
     usbyb_stop_event_loop = linux_usbyb_stop_event_loop K,
     usbyb_reset_event_loop = linux_usbyb_reset_event_loop,
     usbyb_init_transfer = linux_usbyb_init_transfer K,
     usbyb_clear_transfer = linux_usbyb_clear_transfer K \<rparr>"

text \<open>Its members.\<close>

lemma linux_backend_simps [simp]:
  "zero_context (linux_backend K sz env cb) = zero_lx_context"
  "zero_device (linux_backend K sz env cb) = zero_lx_device"
  "zero_device_handle (linux_backend K sz env cb) = zero_lx_handle"
  "zero_transfer (linux_backend K sz env cb) = zero_lx_transfer"
  "usbyb_context_size (linux_backend K sz env cb) = sz_context sz"
  "usbyb_device_size (linux_backend K sz env cb) = sz_device sz"
  "usbyb_device_handle_size (linux_backend K sz env cb) = sz_device_handle sz"
  "usbyb_transfer_size (linux_backend K sz env cb) = sz_transfer sz"
  "usbyb_transfer_pub_offset (linux_backend K sz env cb) = sz_pub_offset sz"
  "usbyb_init (linux_backend K sz env cb) = linux_usbyb_init K"
  "usbyb_exit (linux_backend K sz env cb) = linux_usbyb_exit K"
  "usbyb_get_device_list (linux_backend K sz env cb) = linux_usbyb_get_device_list K (sz_device sz)"
  "usbyb_finalize_device (linux_backend K sz env cb) = linux_usbyb_finalize_device K"
  "usbyb_open (linux_backend K sz env cb) = linux_usbyb_open K"
  "usbyb_close (linux_backend K sz env cb) = linux_usbyb_close K"
  "usbyb_get_descriptor (linux_backend K sz env cb) = linux_usbyb_get_descriptor"
  "usbyb_get_descriptor_cached (linux_backend K sz env cb) = linux_usbyb_get_descriptor_cached"
  "usbyb_get_configuration (linux_backend K sz env cb) = linux_usbyb_get_configuration"
  "usbyb_set_configuration (linux_backend K sz env cb) = linux_usbyb_set_configuration K"
  "usbyb_claim_interface (linux_backend K sz env cb) = linux_usbyb_claim_interface K"
  "usbyb_release_interface (linux_backend K sz env cb) = linux_usbyb_release_interface K"
  "usbyb_perform_transfer (linux_backend K sz env cb) = linux_usbyb_perform_transfer K"
  "usbyb_submit_transfer (linux_backend K sz env cb) = linux_usbyb_submit_transfer K"
  "usbyb_cancel_transfer (linux_backend K sz env cb) = linux_usbyb_cancel_transfer K"
  "usbyb_wait_for_transfer (linux_backend K sz env cb) = linux_usbyb_wait_for_transfer K env cb"
  "usbyb_run_event_loop (linux_backend K sz env cb) = linux_usbyb_run_event_loop K env cb"
  "usbyb_stop_event_loop (linux_backend K sz env cb) = linux_usbyb_stop_event_loop K"
  "usbyb_reset_event_loop (linux_backend K sz env cb) = linux_usbyb_reset_event_loop"
  "usbyb_init_transfer (linux_backend K sz env cb) = linux_usbyb_init_transfer K"
  "usbyb_clear_transfer (linux_backend K sz env cb) = linux_usbyb_clear_transfer K"
  by (simp_all add: linux_backend_def)

section \<open>The operations that keep references\<close>

lemma set_kern_frame [simp]:
  "devs (set_kern k w) = devs w" "hnds (set_kern k w) = hnds w" "trans (set_kern k w) = trans w"
  "bufs (set_kern k w) = bufs w" "ctxs (set_kern k w) = ctxs w" "nodes (set_kern k w) = nodes w"
  "dlists (set_kern k w) = dlists w" "next_addr (set_kern k w) = next_addr w"
  "kern (os (set_kern k w)) = k" "wfds (os (set_kern k w)) = wfds (os w)"
  by (simp_all add: set_kern_def)

lemma set_kern_keeps [simp]: "keeps_refs w (set_kern k w)"
  by (rule keeps_refsI) simp_all

lemma sys_close_keeps [simp]: "keeps_refs w (sys_close K fd w)"
  by (simp add: sys_close_def)

lemma mutex_lock_keeps: "mutex_lock ctx w = Some w' \<Longrightarrow> keeps_refs w w'"
  by (auto simp: mutex_lock_def monad_simps)

lemma mutex_unlock_keeps: "mutex_unlock ctx w = Some w' \<Longrightarrow> keeps_refs w w'"
  by (auto simp: mutex_unlock_def monad_simps)

lemma linux_finalize_keeps:
  assumes "linux_usbyb_finalize_device K dev w = Some w'"
  shows "keeps_refs w w'"
proof -
  obtain m d w1 where "devs w dev = Some d" and w1: "free_buf (desc_cache (ld_os d)) (w\<lparr>nodes := m\<rparr>) = Some w1"
    and w': "w' = sys_close K (dev_fd (ld_os d)) w1"
    using assms by (auto simp: linux_usbyb_finalize_device_def bind_Some_conv)
  show ?thesis
    unfolding w' by (rule keeps_refs_trans [OF nodes_keeps keeps_refs_trans [OF free_buf_keeps_refs [OF w1] sys_close_keeps]])
qed

lemma linux_open_keeps:
  assumes run: "linux_usbyb_open K h w = Some (r, w')"
  shows "keeps_refs w w'"
proof -
  obtain x d where x: "hnds w h = Some x" "devs w (lh_dev x) = Some d"
    using run by (auto simp: linux_usbyb_open_def bind_Some_conv)
  obtain fd k where k: "k_open_fd_path K (dev_fd (ld_os d)) (kern (os w)) = (fd, k)" by force
  show ?thesis
  proof (cases "fd = -1")
    case True
    then have "w' = set_kern k w" using run x k by (simp add: linux_usbyb_open_def)
    then show ?thesis by simp
  next
    case False
    then have "upd_handle h (\<lambda>h. h\<lparr>lh_os := (lh_os h)\<lparr>wrfd := fd, active_config_value := -1\<rparr>\<rparr>) (set_kern k w) = Some w'"
      using run x k by (auto simp: linux_usbyb_open_def bind_Some_conv)
    then show ?thesis by (rule keeps_refs_trans [OF set_kern_keeps upd_handle_keeps_refs]) simp
  qed
qed

lemma linux_close_keeps:
  assumes run: "linux_usbyb_close K h w = Some w'"
  shows "keeps_refs w w'"
proof -
  obtain x where x: "hnds w h = Some x" using run by (auto simp: linux_usbyb_close_def bind_Some_conv)
  then have "upd_handle h (\<lambda>h. h\<lparr>lh_os := (lh_os h)\<lparr>wrfd := -1\<rparr>\<rparr>) (sys_close K (wrfd (lh_os x)) w) = Some w'"
    using run by (simp add: linux_usbyb_close_def)
  then show ?thesis by (rule keeps_refs_trans [OF sys_close_keeps upd_handle_keeps_refs]) simp
qed

lemma linux_descriptor_same: "linux_usbyb_get_descriptor h ty ix lang data len w = Some (r, data', w') \<Longrightarrow> w' = w"
  by (auto simp: linux_usbyb_get_descriptor_def linux_usbyb_get_descriptor_cached_def bind_Some_conv split: if_splits)

lemma linux_init_transfer_keeps:
  assumes run: "linux_usbyb_init_transfer K t w = Some (r, w')"
  shows "keeps_refs w w'"
proof -
  obtain q k where k: "k_cond_init K (kern (os w)) = (q, k)" by force
  show ?thesis
  proof (cases "q = 0")
    case False
    then have "w' = set_kern k w" using run k by (simp add: linux_usbyb_init_transfer_def)
    then show ?thesis by simp
  next
    case True
    then have "upd_transfer t (\<lambda>t. t\<lparr>tr_os := (tr_os t)\<lparr>active := 0\<rparr>\<rparr>) (set_kern k w) = Some w'"
      using run k by (simp add: linux_usbyb_init_transfer_def bind_Some_conv)
    then show ?thesis by (rule keeps_refs_trans [OF set_kern_keeps upd_transfer_keeps_refs])
  qed
qed

lemma linux_clear_transfer_keeps: "linux_usbyb_clear_transfer K t w = Some w' \<Longrightarrow> keeps_refs w w'"
  by (auto simp: linux_usbyb_clear_transfer_def bind_Some_conv)

lemma linux_perform_keeps:
  assumes run: "linux_usbyb_perform_transfer K t w = Some (r, w')" and sync: "sync_control t w"
  shows "keeps_refs w w' \<and> r = err LIBUSBY_SUCCESS"
proof -
  obtain x where x: "trans w t = Some x" "lt_type (tr_pub x) = type_code LIBUSBY_TRANSFER_TYPE_CONTROL"
    using sync by (auto simp: sync_control_def)
  obtain b rq h body where b: "bufs w (lt_buffer (tr_pub x)) = Some b" "ctrl_request b = Some rq"
    "hnds w (lt_dev_handle (tr_pub x)) = Some h" "rd_block b 8 (unat (ct_wLength rq)) = Some body"
    using run x by (auto simp: linux_usbyb_perform_transfer_def bind_Some_conv)
  obtain q e body' k where k: "k_control K (wrfd (lh_os h)) rq body (kern (os w)) = (q, e, body', k)"
    by (metis prod_cases4)
  note eqs = run [unfolded linux_usbyb_perform_transfer_def, simplified x b k bind.bind_lunit Let_def prod.case, simplified]
  obtain b' where b': "wr_block b 8 (take (unat (ct_wLength rq)) body') = Some b'"
    using eqs by (auto simp: bind_Some_conv)
  let ?w1 = "set_kern k (w\<lparr>bufs := (bufs w)(lt_buffer (tr_pub x) \<mapsto> b')\<rparr>)"
  have w1: "keeps_refs w ?w1" by (rule keeps_refs_trans [OF bufs_keeps set_kern_keeps])
  have "keeps_refs ?w1 w' \<and> r = err LIBUSBY_SUCCESS"
    using eqs b' by (auto simp: bind_Some_conv upd_transfer_keeps_refs split: if_splits)
  then show ?thesis using keeps_refs_trans [OF w1] by blast
qed

interpretation linux_fin: finalizer "linux_usbyb_finalize_device K" for K
  by unfold_locales (rule linux_finalize_keeps)

section \<open>The list of devices\<close>

lemma realloc_buf_keeps: "realloc_buf old n w = Some (p, w') \<Longrightarrow> keeps_refs w w'"
  using malloc_keeps_refs [of w n]
  by (auto simp: realloc_buf_def bind_Some_conv malloc_def Let_def split: if_splits intro: keeps_refsI)

lemma sys_read_keeps: "sys_read K fd n w = (r, b, w') \<Longrightarrow> keeps_refs w w'"
  by (auto simp: sys_read_def split: prod.splits)

lemma read_configs_keeps: "read_configs K dev fd cache_len n w = Some (ok, r, w') \<Longrightarrow> keeps_refs w w'"
proof (induction n arbitrary: cache_len w)
  case 0
  then show ?case by simp
next
  case (Suc n)
  obtain q hdr w1 where r1: "sys_read K fd 4 w = (q, hdr, w1)" by (metis prod_cases3)
  note k1 = sys_read_keeps [OF r1]
  show ?case
  proof (cases "q = 4")
    case False
    then show ?thesis using Suc.prems r1 k1 by simp
  next
    case True
    obtain lo hi where l: "rd hdr 2 = Some lo" "rd hdr 3 = Some hi"
      using Suc.prems r1 True by (auto simp: bind_Some_conv)
    define tl where "tl = le16 lo hi"
    show ?thesis
    proof (cases "tl < 4")
      case short: True
      then show ?thesis using Suc.prems r1 True l k1 by (simp add: tl_def)
    next
      case long: False
      note p1 = Suc.prems [unfolded read_configs.simps r1 prod.case l Let_def bind.bind_lunit tl_def [symmetric]]
      obtain d cache w2 where d: "devs w1 dev = Some d"
        "realloc_buf (desc_cache (ld_os d)) (cache_len + unat tl) w1 = Some (cache, w2)"
        using p1 True long by (auto simp: bind_Some_conv)
      note k2 = keeps_refs_trans [OF k1 realloc_buf_keeps [OF d(2)]]
      show ?thesis
      proof (cases "cache = 0")
        case no_mem: True
        then show ?thesis using p1 True long d k2 by simp
      next
        case have_mem: False
        obtain w3 b b1 where w3: "upd_device dev (\<lambda>d. d\<lparr>ld_os := (ld_os d)\<lparr>desc_cache := cache\<rparr>\<rparr>) w2 = Some w3"
          "bufs w3 cache = Some b" "wr_block b cache_len hdr = Some b1"
          using p1 True long d have_mem by (auto simp: bind_Some_conv)
        have k3: "keeps_refs w w3" by (rule keeps_refs_trans [OF k2 upd_device_keeps_refs [OF w3(1)]]) simp_all
        obtain q2 body w4 where r4: "sys_read K fd (unat tl - 4) w3 = (q2, body, w4)" by (metis prod_cases3)
        note p2 = p1 [unfolded d w3 r4 prod.case bind.bind_lunit]
        obtain b2 where b2: "wr_block b1 (cache_len + 4) body = Some b2"
          using p2 True long have_mem by (auto simp: bind_Some_conv)
        let ?w5 = "w4\<lparr>bufs := (bufs w4)(cache \<mapsto> b2)\<rparr>"
        have k5: "keeps_refs w ?w5" by (rule keeps_refs_trans [OF keeps_refs_trans [OF k3 sys_read_keeps [OF r4]] bufs_keeps])
        show ?thesis
        proof (cases "q2 = uint tl - 4")
          case False
          then show ?thesis using p2 True long have_mem b2 k5 by auto
        next
          case full: True
          have "read_configs K dev fd (cache_len + unat tl) n ?w5 = Some (ok, r, w')"
            using p2 True long have_mem b2 full by simp
          then show ?thesis by (rule keeps_refs_trans [OF k5 Suc.IH])
        qed
      qed
    qed
  qed
qed

lemma add_device_refs:
  assumes list: "list_refs_inv own T ds w"
    and run: "add_device K sz ctx bus num fd ds w = Some (r, ds', w')"
  shows "list_refs_inv own T ds' w'"
proof -
  obtain xs where inv: "enum_inv (\<lambda>d. own d + count_list xs d) T ds xs w"
    using list by (auto simp: list_refs_inv_def)
  let ?own = "\<lambda>d. own d + count_list xs d"
  obtain dev w1 where w1: "usbyi_alloc_device sz zero_lx_device ctx w = Some (dev, w1)"
    using run by (auto simp: add_device_def bind_Some_conv)
  obtain w2 m where w2: "upd_device dev (\<lambda>d. d\<lparr>ld_os := (ld_os d)\<lparr>busno := bus, devno := num, dev_fd := fd\<rparr>\<rparr>) w1 = Some w2"
    "usbyi_insert_before_devlist_node (Devnode dev) (Devlist_head ctx) (nodes w2) = Some m"
    using run w1 by (auto simp: add_device_def bind_Some_conv)
  obtain q raw w3 where w3: "sys_read K fd 18 (w2\<lparr>nodes := m\<rparr>) = (q, raw, w3)" by (metis prod_cases3)
  note p = run [unfolded add_device_def w1 w2 w3 Let_def prod.case bind.bind_lunit]
  obtain w4 where w4: "upd_device dev (\<lambda>d. d\<lparr>ld_device_desc :=
       device_desc_of_bytes (raw @ drop (length raw) (bytes_of_device_desc (ld_device_desc d)))\<rparr>) w3 = Some w4"
    using p by (auto simp: bind_Some_conv)
  obtain d where d: "q = 18 \<Longrightarrow> devs w4 dev = Some d"
    using p w4 by (cases "q = 18") (auto simp: bind_Some_conv)
  obtain ok e w5 where w5: "(if q \<noteq> 18 then Some (False, err LIBUSBY_SUCCESS, w4)
      else read_configs K dev fd 0 (unat (dd_bNumConfigurations (ld_device_desc d))) w4) = Some (ok, e, w5)"
    using p w4 d by (auto simp: bind_Some_conv split: if_splits)
  let ?own1 = "?own(dev := Suc (?own dev))"
  have inv1: "dev \<noteq> 0" "enum_inv ?own1 T ds xs w1" using enum_alloc [OF inv w1] by simp_all
  have inv2: "enum_inv ?own1 T ds xs w2" by (rule enum_upd_device [OF inv1(2) w2(1)]) simp
  have inv3: "enum_inv ?own1 T ds xs w3"
    by (rule enum_inv_keeps [OF keeps_refs_trans [OF nodes_keeps sys_read_keeps [OF w3]] inv2])
  have inv4: "enum_inv ?own1 T ds xs w4" by (rule enum_upd_device [OF inv3 w4]) simp
  have "keeps_refs w4 w5" using w5 read_configs_keeps by (auto split: if_splits)
  then have inv5: "enum_inv ?own1 T ds xs w5" using inv4 by (rule enum_inv_keeps)
  have rest: "(if \<not> ok then do { w \<leftarrow> libusby_unref_device (linux_usbyb_finalize_device K) dev w5; Some (e, ds, w) }
     else do {
       (r, ds, w) \<leftarrow> usbyi_append_device_list ds dev w5;
       if r < 0 then do {
         w \<leftarrow> libusby_unref_device (linux_usbyb_finalize_device K) dev w;
         Some (r, ds, w) }
       else Some (r, ds, w) }) = Some (r, ds', w')"
    using p w4 d w5 by (cases "q = 18") auto
  show ?thesis
  proof (cases ok)
    case False
    then obtain "libusby_unref_device (linux_usbyb_finalize_device K) dev w5 = Some w'" "ds' = ds"
      using rest by (auto simp: bind_Some_conv)
    then show ?thesis using linux_fin.enum_unref [OF inv5] by (auto simp: list_refs_inv_def)
  next
    case True
    then obtain r6 ds6 w6 where w6: "usbyi_append_device_list ds dev w5 = Some (r6, ds6, w6)"
      "(if r6 < 0 then do { w \<leftarrow> libusby_unref_device (linux_usbyb_finalize_device K) dev w6; Some (r6, ds6, w) }
        else Some (r6, ds6, w6)) = Some (r, ds', w')"
      using rest by (auto simp: bind_Some_conv)
    from enum_append [OF inv5 inv1(1) w6(1)] show ?thesis
    proof (elim disjE conjE)
      assume a: "r6 = err LIBUSBY_ERROR_NO_MEM" "enum_inv ?own1 T ds6 xs w6"
      then obtain "libusby_unref_device (linux_usbyb_finalize_device K) dev w6 = Some w'" "ds' = ds6"
        using w6(2) by (auto simp: bind_Some_conv)
      then show ?thesis using linux_fin.enum_unref [OF a(2)] by (auto simp: list_refs_inv_def)
    next
      assume a: "r6 = err LIBUSBY_SUCCESS" "enum_inv ?own1 T ds6 (xs @ [dev]) w6"
      have "?own1 = (\<lambda>d. own d + count_list (xs @ [dev]) d)" by (rule own_append)
      moreover have "ds6 = ds'" "w6 = w'" using a(1) w6(2) by simp_all
      ultimately show ?thesis unfolding list_refs_inv_def using a(2) by metis
    qed
  qed
qed

lemma find_device_live: 
  assumes "find_device ctx bus num p w = Some (Some dev)"
  shows "devs w dev \<noteq> None"
proof -
  have "\<forall>d. Some dev = Some d \<longrightarrow> devs w d \<noteq> None"
    by (rule find_device.raw_induct [of "\<lambda>ctx bus num p w r. \<forall>d. r = Some d \<longrightarrow> devs w d \<noteq> None", OF _ assms])
      (auto simp: bind_Some_conv split: option.splits devnode_ptr.splits if_splits)
  then show ?thesis by simp
qed

text \<open>A jump to \<open>error\<close> is made with a negative result only.\<close>

lemma enum_entry_refs:
  assumes list: "list_refs_inv own T ds w"
    and run: "enum_entry K sz ctx bus bus_name name ds w = Some (jump, r, fd, ds', w')"
  shows "list_refs_inv own T ds' w' \<and> (jump \<longrightarrow> r < 0)"
proof -
  obtain num rest where num: "strtol10 name = (num, rest)" by force
  show ?thesis
  proof (cases "rest = []")
    case False
    then show ?thesis using run num list by (simp add: enum_entry_def)
  next
    case digits: True
    obtain fd' k where k: "k_open K (''/dev/bus/usb/'' @ bus_name @ ''/'' @ name) (kern (os w)) = (fd', k)" by force
    note p = run [unfolded enum_entry_def num k prod.case Let_def]
    have list1: "list_refs_inv own T ds (set_kern k w)" using list by (rule list_refs_inv_keeps [OF set_kern_keeps])
    show ?thesis
    proof (cases "fd' = -1")
      case True
      then show ?thesis using p digits list1 by auto
    next
      case False
      then obtain w1 head found where w1: "mutex_lock ctx (set_kern k w) = Some w1"
        "nodes w1 (Devlist_head ctx) = Some head" "find_device ctx bus num (dn_next head) w1 = Some found"
        using p digits by (auto simp: bind_Some_conv)
      have list2: "list_refs_inv own T ds w1" by (rule list_refs_inv_keeps [OF mutex_lock_keeps [OF w1(1)] list1])
      show ?thesis
      proof (cases found)
        case None
        then obtain r1 w2 where "add_device K sz ctx bus num fd' ds w1 = Some (r1, ds', w2)"
          "mutex_unlock ctx w2 = Some w'" "\<not> jump"
          using p digits w1 False by (auto simp: bind_Some_conv)
        then show ?thesis
          using list_refs_inv_keeps [OF mutex_unlock_keeps add_device_refs [OF list2]] by simp
      next
        case (Some dev)
        obtain xs where inv: "enum_inv (\<lambda>d. own d + count_list xs d) T ds xs w1"
          using list2 by (auto simp: list_refs_inv_def)
        have dev: "dev \<noteq> 0"
          using find_device_live [of ctx bus num _ w1 dev] w1(3) Some inv refs_ok_null(2) [of _ w1]
          by (metis enum_inv_def)
        obtain r1 ds1 w2 where w2: "usbyi_append_device_list ds dev w1 = Some (r1, ds1, w2)"
          "(if r1 < 0 then Some (True, r1, fd', ds1, w2) else do {
            w \<leftarrow> libusby_ref_device dev w2;
            w \<leftarrow> mutex_unlock ctx (sys_close K fd' w);
            Some (False, r1, fd', ds1, w) }) = Some (jump, r, fd, ds', w')"
          using p digits w1 False Some by (auto simp: bind_Some_conv)
        from enum_append [OF inv dev w2(1)] show ?thesis
        proof (elim disjE conjE)
          assume "r1 = err LIBUSBY_ERROR_NO_MEM" "enum_inv (\<lambda>d. own d + count_list xs d) T ds1 xs w2"
          then show ?thesis using w2(2) by (auto simp: list_refs_inv_def)
        next
          assume a: "r1 = err LIBUSBY_SUCCESS" "enum_inv (\<lambda>d. own d + count_list xs d) T ds1 (xs @ [dev]) w2"
          then obtain w3 where w3: "libusby_ref_device dev w2 = Some w3" "mutex_unlock ctx (sys_close K fd' w3) = Some w'"
            "ds' = ds1" "\<not> jump"
            using w2(2) by (auto simp: bind_Some_conv)
          have "list_refs_inv own T ds1 w3" by (rule known_device_refs [OF a(2) w3(1)])
          then show ?thesis
            using list_refs_inv_keeps [OF keeps_refs_trans [OF sys_close_keeps mutex_unlock_keeps [OF w3(2)]]] w3 by simp
        qed
      qed
    qed
  qed
qed

lemma enum_bus_refs:
  assumes "list_refs_inv own T ds w" "enum_bus K sz ctx bus bus_name names fd ds w = Some (jump, r, fd', ds', w')"
  shows "list_refs_inv own T ds' w' \<and> (jump \<longrightarrow> r < 0)"
  using assms
proof (induction names arbitrary: fd ds w)
  case Nil
  then show ?case by simp
next
  case (Cons name names)
  then obtain j1 r1 fd1 ds1 w1 where e: "enum_entry K sz ctx bus bus_name name ds w = Some (j1, r1, fd1, ds1, w1)"
    "(if j1 \<or> r1 < 0 then Some (j1, r1, fd1, ds1, w1) else enum_bus K sz ctx bus bus_name names fd1 ds1 w1)
      = Some (jump, r, fd', ds', w')"
    by (auto simp: bind_Some_conv)
  note i = enum_entry_refs [OF Cons.prems(1) e(1)]
  show ?case
  proof (cases "j1 \<or> r1 < 0")
    case True
    then show ?thesis using e(2) i by auto
  next
    case False
    then show ?thesis using Cons.IH [of ds1 w1 fd1] e(2) i by simp
  qed
qed

lemma enum_buses_refs:
  assumes "list_refs_inv own T ds w" "enum_buses K sz ctx bus_names ds w = Some (jump, r, fd', ds', w')"
  shows "list_refs_inv own T ds' w' \<and> (jump \<longrightarrow> r < 0)"
  using assms
proof (induction bus_names arbitrary: ds w)
  case Nil
  then show ?case by simp
next
  case (Cons name names)
  obtain bus rest where b: "strtol10 name = (bus, rest)" by force
  obtain e k where k: "k_opendir K (''/dev/bus/usb/'' @ name) (kern (os w)) = (e, k)" by force
  have list1: "list_refs_inv own T ds (set_kern k w)"
    by (rule list_refs_inv_keeps [OF set_kern_keeps Cons.prems(1)])
  note p = Cons.prems(2) [unfolded enum_buses.simps b k prod.case]
  show ?case
  proof (cases "rest \<noteq> [] \<or> e = None")
    case True
    then show ?thesis using p Cons.IH [OF Cons.prems(1)] Cons.IH [OF list1] by (auto split: if_splits)
  next
    case False
    then obtain es where "e = Some es" "rest = []" by auto
    then obtain j1 r1 fd1 ds1 w1 where e: "enum_bus K sz ctx bus name es (-1) ds (set_kern k w) = Some (j1, r1, fd1, ds1, w1)"
      "(if j1 \<or> r1 < 0 then Some (j1, r1, fd1, ds1, w1) else enum_buses K sz ctx names ds1 w1)
        = Some (jump, r, fd', ds', w')"
      using p by (auto simp: bind_Some_conv)
    note i = enum_bus_refs [OF list1 e(1)]
    show ?thesis
    proof (cases "j1 \<or> r1 < 0")
      case True
      then show ?thesis using e(2) i by auto
    next
      case False
      then show ?thesis using Cons.IH [of ds1 w1] e(2) i by simp
    qed
  qed
qed

lemma linux_list_refs:
  assumes run: "linux_usbyb_get_device_list K sz ctx w = Some (r, l, w')" and ok: "refs_ok own w"
  shows "targets w' = targets w \<and>
      (if r < 0 then refs_ok own w' \<and> l = None \<and> dlists w' = dlists w
       else \<exists>xs p. l = Some p \<and> list_at w' p xs \<and> 0 \<notin> set xs \<and> length xs = nat r \<and>
         only_array p (dlists w) (dlists w') \<and> refs_ok (\<lambda>d. own d + count_list xs d) w')"
proof -
  obtain e k where k: "k_opendir K ''/dev/bus/usb'' (kern (os w)) = (e, k)" by force
  have w1: "targets (set_kern k w) = targets w" "refs_ok own (set_kern k w)" "dlists (set_kern k w) = dlists w"
    using refs_ok_keeps [OF set_kern_keeps ok, of k] set_kern_keeps [of w k] by (simp_all add: keeps_refs_def)
  show ?thesis
  proof (cases e)
    case None
    then have "r = 0" "l = Some 0" "w' = set_kern k w" using run k by (simp_all add: linux_usbyb_get_device_list_def)
    then show ?thesis using w1 by (auto simp: list_at_def intro!: exI [of _ "[]"])
  next
    case (Some names)
    obtain jump r1 fd ds w2 where w2: "enum_buses K sz ctx names empty_device_list (set_kern k w) = Some (jump, r1, fd, ds, w2)"
      using run k Some by (auto simp: linux_usbyb_get_device_list_def bind_Some_conv)
    note p = run [unfolded linux_usbyb_get_device_list_def k Some prod.case option.case w2 bind.bind_lunit]
    have "list_refs_inv own (targets w, dlists w) empty_device_list (set_kern k w)"
      using empty_list_refs [OF w1(2)] w1(1,3) by simp
    from enum_buses_refs [OF this w2] have list: "list_refs_inv own (targets w, dlists w) ds w2" and neg: "jump \<Longrightarrow> r1 < 0"
      by blast+
    show ?thesis
    proof (cases jump)
      case False
      then have "r = dl_count ds" "l = Some (dl_list ds)" "w' = w2" using p by simp_all
      then show ?thesis using complete_list [OF list] by auto
    next
      case True
      then obtain w3 w4 where w3: "mutex_unlock ctx w2 = Some w3" "w4 = (if fd \<noteq> -1 then sys_close K fd w3 else w3)"
        "(if dl_list ds \<noteq> 0 then libusby_free_device_list (linux_usbyb_finalize_device K) (dl_list ds) True w4
          else Some w4) = Some w'" "r = r1" "l = None"
        using p by (auto simp: bind_Some_conv Let_def)
      have "keeps_refs w3 w4" by (simp add: w3(2))
      from list_refs_inv_keeps [OF keeps_refs_trans [OF mutex_unlock_keeps [OF w3(1)] this] list]
      have "refs_ok own w' \<and> targets w' = targets w \<and> dlists w' = dlists w"
        using linux_fin.give_up_list [OF _ w3(3)] by simp
      then show ?thesis using neg True w3(4,5) by simp
    qed
  qed
qed

interpretation linux: os_contract "linux_backend K sz env cb" for K sz env cb
proof unfold_locales
qed (auto simp: linux_list_refs linux_finalize_keeps linux_open_keeps linux_close_keeps linux_init_transfer_keeps
    linux_clear_transfer_keeps dest: linux_descriptor_same linux_perform_keeps)

end
