(* ===== verification/Linux_Example.thy ===== *)
theory Linux_Example
  imports Linux_Backend
begin

text \<open>
  One context, device and handle over a kernel in which every call succeeds and no request
  finishes: the concrete state on which the properties of the Linux back end are applied.
\<close>

definition example_kernel :: "unit kernel" where
  "example_kernel = \<lparr>
     k_open_fd_path = (\<lambda>_ k. (7, k)), k_open = (\<lambda>_ k. (8, k)), k_close = (\<lambda>_ k. k),
     k_opendir = (\<lambda>_ k. (None, k)), k_read = (\<lambda>_ n k. (int n, replicate n 0, k)),
     k_pipe = (\<lambda>k. (0, 5, 6, k)), k_write = (\<lambda>_ _ k. (1, k)),
     k_mutex_init = (\<lambda>k. (0, k)), k_mutex_destroy = (\<lambda>k. k),
     k_cond_init = (\<lambda>k. (0, k)), k_cond_destroy = (\<lambda>k. k),
     k_submiturb = (\<lambda>_ _ _ k. (0, 0, k)), k_discardurb = (\<lambda>_ _ k. (0, 0, k)),
     k_reapurbndelay = (\<lambda>_ k. (None, k)), k_control = (\<lambda>_ rq b k. (int (unat (ct_wLength rq)), 0, b, k)),
     k_claiminterface = (\<lambda>_ _ k. (0, 0, k)), k_releaseinterface = (\<lambda>_ _ k. (0, 0, k)),
     k_setconfiguration = (\<lambda>_ _ k. (0, 0, k)), k_poll = (\<lambda>fds k. (0, map (\<lambda>_. 0) fds, k)) \<rparr>"

definition example_sizes :: object_sizes where
  "example_sizes = \<lparr> sz_context = 176, sz_device = 88, sz_device_handle = 16, sz_transfer = 248, sz_pub_offset = 160 \<rparr>"

text \<open>The context is at 1, the device at 2, its handle at 3.\<close>

definition example_device :: "lx_device libusby_device" where
  "example_device = \<lparr> ld_ctx = 1, ld_ref_count = 2,
     ld_device_desc = zero_device_desc\<lparr>dd_bLength := 18, dd_bDescriptorType := 1, dd_idVendor := 0x4242\<rparr>,
     ld_os = \<lparr> busno = 1, devno = 4, dev_fd = 3, desc_cache = 0 \<rparr> \<rparr>"

definition example_handle :: "lx_handle libusby_device_handle" where
  "example_handle = \<lparr> lh_dev = 2, lh_os = \<lparr> wrfd = 7, active_config_value = -1 \<rparr> \<rparr>"

definition example_context :: lx_context where
  "example_context = zero_lx_context\<lparr>loop_enabled := 1, pipe0 := 5, pipe1 := 6\<rparr>"

definition example_world :: "unit lx_world" where
  "example_world = \<lparr> next_addr = 100, n_mallocs = 0, out_of_memory = (\<lambda>_. False),
     cfgs = (\<lambda>_. None), intfs = (\<lambda>_. None), alts = (\<lambda>_. None), endps = (\<lambda>_. None), dlists = (\<lambda>_. None),
     ctxs = [1 \<mapsto> example_context], devs = [2 \<mapsto> example_device], hnds = [3 \<mapsto> example_handle],
     trans = (\<lambda>_. None), bufs = (\<lambda>_. None), junk = (\<lambda>_ _. 0xA5),
     nodes = [Devlist_head 1 \<mapsto> \<lparr>dn_prev = Some (Devnode 2), dn_next = Some (Devnode 2)\<rparr>,
       Devnode 2 \<mapsto> \<lparr>dn_prev = Some (Devlist_head 1), dn_next = Some (Devlist_head 1)\<rparr>],
     os = \<lparr> wfds = (\<lambda>_. None), kern = () \<rparr> \<rparr>"

abbreviation example_backend :: "(lx_context, lx_device, lx_handle, lx_transfer, unit linux_os) backend" where
  "example_backend \<equiv> linux_backend example_kernel example_sizes Some (\<lambda>_ _. Some)"

text \<open>The client holds one reference to the device, the handle another one.\<close>

definition example_own :: "addr \<Rightarrow> nat" where
  "example_own = (\<lambda>_. 0)(2 := 1)"

lemmas example_defs = example_world_def example_device_def example_handle_def example_context_def
  example_kernel_def example_sizes_def zero_lx_context_def

lemma example_counts: "counts example_world = [2 \<mapsto> 2]" "targets example_world = [3 \<mapsto> 2]"
  by (simp_all add: counts_def targets_def example_defs fun_eq_iff)

lemma example_refs_ok: "refs_ok example_own example_world"
proof -
  have "{a. targets example_world a = Some d} = (if d = 2 then {3} else {})" for d
    by (auto simp: example_counts)
  then have "refs example_own example_world d = (if d = 2 then 2 else 0)" for d
    by (simp add: refs_def example_own_def)
  then show ?thesis
    by (auto simp: refs_ok_def example_counts dl_fresh_def) (simp_all add: example_defs)
qed

text \<open>Opening the device once more and closing that handle again.\<close>

lemma example_open:
  "\<exists>w1. libusby_open example_backend 2 example_world = Some (0, Some 100, w1) \<and>
    (\<exists>w2. libusby_close example_backend 100 w1 = Some w2 \<and> targets w2 = targets example_world)"
  by (simp add: libusby_open_def libusby_close_def libusby_get_device_def new_handle_def malloc_def
      libusby_ref_device_def libusby_unref_device_def free_handle_def free_block_def Let_def
      linux_backend_def linux_usbyb_open_def linux_usbyb_close_def sys_close_def set_kern_def
      upd_device_def upd_handle_def c_int_def INT_MIN_def INT_MAX_def example_defs targets_def fun_eq_iff)

end
