(* ===== verification/Linux_Client.thy ===== *)
theory Linux_Client
  imports Linux_Example
begin

text \<open>
  What clients of the library can rely on over the Linux back end, whatever the kernel, the
  other threads and the callbacks do: the facts of the contract of references at its
  interpretation on the back end.
\<close>

section \<open>Runs of a client\<close>

text \<open>
  C1: Reference counting is sound on Linux: after any sequence of calls (references taken and
  given up, devices listed, opened, searched and closed, control requests), whatever the kernel
  answers and whichever allocations fail, each device is live exactly while it is referenced and
  counts its references: those of the client and one for each open handle. So neither a device
  of an open handle nor one the client holds is ever freed. And no reference is lost: a client that
  ends with the handles and the references it started with leaves every count as it was.
\<close>

theorem linux_client_accounting:
  assumes "client_run (linux_backend K sz env cb) (own, w) (own', w')" "refs_ok own w"
  shows "refs_ok own' w' \<and>
    (\<forall>h d. targets w' h = Some d \<longrightarrow> (\<exists>n>0. counts w' d = Some n)) \<and>
    (\<forall>d. 0 < own' d \<longrightarrow> (\<exists>n>0. counts w' d = Some n)) \<and>
    (own' = own \<and> targets w' = targets w \<longrightarrow> counts w' = counts w)"
proof -
  have "refs_ok own' w'" using linux.client_run_refs_ok [OF assms(1)] assms(2) by simp
  then show ?thesis
    using refs_ok_handle_live refs_ok_owned_live linux.client_run_balanced assms by blast
qed

lemma example_run:
  obtains w' where "client_run example_backend (example_own, example_world) (example_own, w')"
    "targets w' = targets example_world"
proof -
  obtain w1 w2 where w1: "libusby_open example_backend 2 example_world = Some (0, Some 100, w1)"
    and w2: "libusby_close example_backend 100 w1 = Some w2" "targets w2 = targets example_world"
    using example_open by blast
  have "client_run example_backend (example_own, example_world) (example_own, w2)"
    by (rule client_run_step [OF client_step.open_device [OF w1]
          client_run_step [OF client_step.close_device [OF w2(1)] client_run_refl]])
  then show thesis using w2(2) that by blast
qed

theorem linux_client_accounting_witness:
  "\<exists>w'. client_run example_backend (example_own, example_world) (example_own, w') \<and>
     refs_ok example_own w' \<and> counts w' = [2 \<mapsto> 2]"
proof -
  obtain w' where run: "client_run example_backend (example_own, example_world) (example_own, w')"
    "targets w' = targets example_world"
    by (rule example_run)
  show ?thesis
    using linux_client_accounting [OF run(1) example_refs_ok] run by (auto simp: example_counts)
qed

section \<open>Listing and searching\<close>

text \<open>
  C15: \<open>libusby_get_device_list\<close> on Linux: a nonnegative result is the number of devices in
  the returned, null-terminated array, which is new and the only array that is left allocated; each
  of its devices holds one reference that belongs to the caller. A negative result leaves the caller
  without an array and without references: nothing is returned, and the array that was being built has been freed,
  so that the arrays of the heap are those from before. No handle changes.
\<close>

theorem linux_device_list:
  assumes "libusby_get_device_list (linux_backend K sz env cb) ctx w = Some (r, l, w')" "refs_ok own w"
  shows "targets w' = targets w \<and>
    (if r < 0 then l = None \<and> dlists w' = dlists w \<and> refs_ok own w'
     else \<exists>xs p. l = Some p \<and> list_at w' p xs \<and> 0 \<notin> set xs \<and> length xs = nat r \<and>
       only_array p (dlists w) (dlists w') \<and> refs_ok (\<lambda>d. own d + count_list xs d) w')"
proof -
  have "usbyb_get_device_list (linux_backend K sz env cb) ctx w = Some (r, l, w')"
    using assms(1) by (simp only: libusby_get_device_list_def)
  from linux.list_refs [OF this assms(2)] show ?thesis by (auto split: if_splits)
qed

text \<open>A kernel with one device node, that of the device of the example.\<close>

definition listing_kernel :: "unit kernel" where
  "listing_kernel = example_kernel\<lparr>k_opendir := (\<lambda>path k.
     (if path = ''/dev/bus/usb'' then Some [''.'', ''001''] else if path = ''/dev/bus/usb/001'' then Some [''..'', ''004'']
      else None, k))\<rparr>"

abbreviation listing_backend :: "(lx_context, lx_device, lx_handle, lx_transfer, unit linux_os) backend" where
  "listing_backend \<equiv> linux_backend listing_kernel example_sizes Some (\<lambda>_ _. Some)"

text \<open>The result and the number of references to the device, with and without memory for the array.\<close>

definition full_world :: "unit lx_world" where
  "full_world = example_world\<lparr>out_of_memory := (\<lambda>_. True)\<rparr>"

lemma example_list:
  "map_option (\<lambda>(r, l, w). (r, l, counts w 2)) (libusby_get_device_list listing_backend 1 example_world)
    = Some (1, Some 100, Some 3)"
  "map_option (\<lambda>(r, l, w). (r, l, counts w 2)) (libusby_get_device_list listing_backend 1 full_world)
    = Some (err LIBUSBY_ERROR_NO_MEM, None, Some 2)"
  by code_simp+

lemma full_refs_ok: "refs_ok example_own full_world"
  by (rule refs_ok_keeps [OF keeps_refsI example_refs_ok]) (simp_all add: full_world_def)

theorem linux_device_list_witness:
  "(\<exists>w' xs. libusby_get_device_list listing_backend 1 example_world = Some (1, Some 100, w') \<and>
     list_at w' 100 xs \<and> length xs = 1 \<and> refs_ok (\<lambda>d. example_own d + count_list xs d) w' \<and>
     only_array 100 (dlists example_world) (dlists w')) \<and>
   (\<exists>w'. libusby_get_device_list listing_backend 1 full_world = Some (err LIBUSBY_ERROR_NO_MEM, None, w') \<and>
     dlists w' = dlists full_world \<and> refs_ok example_own w')"
proof (rule conjI)
  obtain w' where run: "libusby_get_device_list listing_backend 1 example_world = Some (1, Some 100, w')"
    using example_list(1) by auto
  show "\<exists>w' xs. libusby_get_device_list listing_backend 1 example_world = Some (1, Some 100, w') \<and>
     list_at w' 100 xs \<and> length xs = 1 \<and> refs_ok (\<lambda>d. example_own d + count_list xs d) w' \<and>
     only_array 100 (dlists example_world) (dlists w')"
    using linux_device_list [OF run example_refs_ok] run by auto
next
  obtain w' where run: "libusby_get_device_list listing_backend 1 full_world = Some (err LIBUSBY_ERROR_NO_MEM, None, w')"
    using example_list(2) by auto
  show "\<exists>w'. libusby_get_device_list listing_backend 1 full_world = Some (err LIBUSBY_ERROR_NO_MEM, None, w') \<and>
     dlists w' = dlists full_world \<and> refs_ok example_own w'"
    using linux_device_list [OF run full_refs_ok] run by auto
qed

text \<open>
  C16: \<open>libusby_open_device_with_vid_pid\<close> on Linux: a handle it returns is new, and the
  descriptor of its device has the two numbers; otherwise no handle is left open. In both cases
  the references of the caller are what they were: the list it fetches and the handles it tries
  on the way are all given back, although closing a handle or freeing the list may release devices.
\<close>

theorem linux_open_device_with_vid_pid:
  assumes "libusby_open_device_with_vid_pid (linux_backend K sz env cb) ctx vid pid w = Some (h, w')" "refs_ok own w"
  shows "refs_ok own w' \<and>
    (if h = 0 then targets w' = targets w
     else h \<notin> dom (targets w) \<and> (\<exists>dev desc. targets w' = (targets w)(h \<mapsto> dev) \<and>
       descs w' dev = Some desc \<and> dd_idVendor desc = vid \<and> dd_idProduct desc = pid))"
  using linux.open_device_outcome [OF assms(2,1)] unfolding search_result_def matches_def .

lemma example_search:
  "map_option (\<lambda>(h, w). (h, counts w 2)) (libusby_open_device_with_vid_pid listing_backend 1 0x4242 0 example_world)
    = Some (116, Some 3)"
  by code_simp

theorem linux_open_device_with_vid_pid_witness:
  "\<exists>w'. libusby_open_device_with_vid_pid listing_backend 1 0x4242 0 example_world = Some (116, w') \<and>
     refs_ok example_own w' \<and> targets w' = [3 \<mapsto> 2, 116 \<mapsto> 2]"
proof -
  obtain w' where run: "libusby_open_device_with_vid_pid listing_backend 1 0x4242 0 example_world = Some (116, w')"
    and count: "counts w' 2 = Some 3"
    using example_search by auto
  obtain dev where w': "refs_ok example_own w'" "targets w' = (targets example_world)(116 \<mapsto> dev)"
    using linux_open_device_with_vid_pid [OF run example_refs_ok] by auto
  have "dev = 2"
  proof (rule ccontr)
    assume "dev \<noteq> 2"
    then have "{a. targets w' a = Some 2} = {3}" by (auto simp: w'(2) example_counts)
    then have "refs example_own w' 2 = 2" by (simp add: refs_def example_own_def)
    then show False using refs_ok_counts [OF w'(1), of 2] count by simp
  qed
  then show ?thesis using run w' by (simp add: example_counts)
qed

end
