(* ===== verification/Linux_Cache.thy ===== *)
theory Linux_Cache
  imports Linux_Example
begin

text \<open>
  The cache of configuration descriptors of the Linux back end: the enumeration fills it
  (\<^verbatim>\<open>usbyb_get_device_list\<close>) and \<^verbatim>\<open>usbyb_get_descriptor_cached\<close>
  reads it, in \<^verbatim>\<open>src/os/linux_usbfs.c\<close>.
\<close>

section \<open>Representation\<close>

text \<open>The bytes of one configuration: its length is the one its header announces.\<close>

definition config_block :: "u8 list \<Rightarrow> bool" where
  "config_block c \<longleftrightarrow> 4 \<le> length c \<and> unat (le16 (c ! 2) (c ! 3)) = length c"

text \<open>The configurations \<open>cs\<close> one after the other in the block behind \<open>desc_cache\<close>.\<close>

definition cached_configs :: "'k lx_world \<Rightarrow> addr \<Rightarrow> u8 list list \<Rightarrow> bool" where
  "cached_configs w dev cs \<longleftrightarrow> list_all config_block cs \<and> (\<exists>d. devs w dev = Some d \<and>
     (if cs = [] then desc_cache (ld_os d) = 0
      else desc_cache (ld_os d) \<noteq> 0 \<and> bufs w (desc_cache (ld_os d)) = Some (concat cs)))"

section \<open>Reading\<close>

lemma desc_cache_loop_run:
  assumes "list_all config_block cs" "cs \<noteq> [] \<Longrightarrow> bufs w p = Some (pre @ concat cs)" "k + length cs < 2 ^ 64"
    "0 \<le> len" "nat len \<le> length data"
  shows "desc_cache_loop p (length pre) [k..<k + length cs] ix data len w =
    (if k \<le> unat ix \<and> unat ix < k + length cs
     then let c = cs ! (unat ix - k); n = min (nat len) (length c) in Some (int n, take n c @ drop n data)
     else Some (err LIBUSBY_ERROR_INVALID_PARAM, data))"
  using assms
proof (induction cs arbitrary: k pre)
  case Nil
  then show ?case by simp
next
  case (Cons c cs)
  have b: "bufs w p = Some (pre @ c @ concat cs)" and c: "4 \<le> length c" "unat (le16 (c ! 2) (c ! 3)) = length c"
    using Cons.prems(1,2) by (simp_all add: config_block_def)
  have u: "uint (le16 (c ! 2) (c ! 3)) = int (length c)" using c(2) by (metis int_ops uint_nat)
  have rds: "rd (pre @ c @ concat cs) (length pre + 2) = Some (c ! 2)"
    "rd (pre @ c @ concat cs) (length pre + 3) = Some (c ! 3)"
    using c(1) by (simp_all add: nth_append)
  have up: "[k..<k + length (c # cs)] = k # [Suc k..<Suc k + length cs]" by (simp add: upt_rec)
  show ?case
  proof (cases "k = unat ix")
    case True
    define n where "n = min (nat len) (length c)"
    have n: "nat (if len > int (length c) then int (length c) else len) = n"
      "(if len > int (length c) then int (length c) else len) = int n"
      using Cons.prems(4) by (auto simp: n_def)
    have "rd_block (pre @ c @ concat cs) (length pre) n = Some (take n c)"
      by (simp add: rd_block_def n_def)
    moreover have "wr_block data 0 (take n c) = Some (take n c @ drop n data)"
      using Cons.prems(5) by (auto simp: wr_block_def n_def)
    ultimately show ?thesis
      using True rds b u n Cons.prems(4) unfolding up by (auto simp: Let_def n_def)
  next
    case False
    have "desc_cache_loop p (length (pre @ c)) [Suc k..<Suc k + length cs] ix data len w =
      (if Suc k \<le> unat ix \<and> unat ix < Suc k + length cs
       then let c = cs ! (unat ix - Suc k); n = min (nat len) (length c) in Some (int n, take n c @ drop n data)
       else Some (err LIBUSBY_ERROR_INVALID_PARAM, data))"
      by (rule Cons.IH) (use Cons.prems b in simp_all)
    moreover have "cs ! (unat ix - Suc k) = (c # cs) ! (unat ix - k)" if "Suc k \<le> unat ix"
      using that by (simp add: nth_Cons')
    ultimately show ?thesis
      using False rds b c unfolding up by (auto simp: Let_def)
  qed
qed

text \<open>
  C21: The descriptor cache of the Linux back end answers exactly: of a device whose cache
  holds the configurations \<open>cs\<close>, the request for the configuration number \<open>ix\<close> copies as
  many of its bytes as fit in the length given, touches no other byte of the caller, and returns
  their number; a number out of range is an invalid parameter. The cache is never left.
\<close>

theorem linux_cached_descriptor:
  assumes "cached_configs w dev cs" "devs w dev = Some d"
    "unat (dd_bNumConfigurations (ld_device_desc d)) = length cs" "0 \<le> len" "nat len \<le> length data"
  shows "linux_usbyb_get_descriptor_cached dev 2 ix lang data len w =
    (if unat ix < length cs
     then let c = cs ! unat ix; n = min (nat len) (length c) in Some (int n, take n c @ drop n data, w)
     else Some (err LIBUSBY_ERROR_INVALID_PARAM, data, w))"
proof -
  have b: "cs \<noteq> [] \<Longrightarrow> bufs w (desc_cache (ld_os d)) = Some ([] @ concat cs)" and ok: "list_all config_block cs"
    using assms(1,2) by (auto simp: cached_configs_def split: if_splits)
  have "length cs < 256" using assms(3) unat_u8_less [of "dd_bNumConfigurations (ld_device_desc d)"] by simp
  then have "desc_cache_loop (desc_cache (ld_os d)) (length ([] :: u8 list)) [0..<0 + length cs] ix data len w =
    (if 0 \<le> unat ix \<and> unat ix < 0 + length cs
     then let c = cs ! (unat ix - 0); n = min (nat len) (length c) in Some (int n, take n c @ drop n data)
     else Some (err LIBUSBY_ERROR_INVALID_PARAM, data))"
    by (intro desc_cache_loop_run [OF ok b]) (use assms(4,5) in simp_all)
  then show ?thesis
    using assms(2,3) by (simp add: linux_usbyb_get_descriptor_cached_def Let_def)
qed

text \<open>A device with two configurations of five and four bytes.\<close>

definition two_configs :: "u8 list list" where
  "two_configs = [[9, 2, 5, 0, 1], [9, 2, 4, 0]]"

definition cached_world :: "unit lx_world" where
  "cached_world = example_world\<lparr>
     devs := [2 \<mapsto> example_device\<lparr>ld_device_desc := (ld_device_desc example_device)\<lparr>dd_bNumConfigurations := 2\<rparr>,
       ld_os := (ld_os example_device)\<lparr>desc_cache := 50\<rparr>\<rparr>],
     bufs := [50 \<mapsto> [9, 2, 5, 0, 1, 9, 2, 4, 0]]\<rparr>"

lemma two_configs_cached: "cached_configs cached_world 2 two_configs"
  by (simp add: cached_configs_def cached_world_def two_configs_def config_block_def unat_le16)

theorem linux_cached_descriptor_witness:
  "linux_usbyb_get_descriptor_cached 2 2 1 0 [7, 7, 7, 7, 7, 7] 6 cached_world
     = Some (4, [9, 2, 4, 0, 7, 7], cached_world) \<and>
   linux_usbyb_get_descriptor_cached 2 2 2 0 [7, 7] 2 cached_world = Some (-2, [7, 7], cached_world)"
  using linux_cached_descriptor [OF two_configs_cached, of _ 6 "[7, 7, 7, 7, 7, 7]" 1 0]
    linux_cached_descriptor [OF two_configs_cached, of _ 2 "[7, 7]" 2 0]
  by (simp add: cached_world_def two_configs_def)

section \<open>Filling\<close>

lemma sys_read_frame:
  assumes "sys_read K fd n w = (r, b, w')"
  shows "devs w' = devs w" "bufs w' = bufs w" "next_addr w' = next_addr w" "length b \<le> n"
    "length b \<le> nat r"
  using assms by (auto simp: sys_read_def split: prod.splits)

lemma realloc_buf_outcome:
  assumes "realloc_buf old n w = Some (p, w')"
  shows "devs w' = devs w \<and> next_addr w \<le> next_addr w' \<and>
    (if p = 0 then bufs w' = bufs w
     else p = next_addr w \<and> p < next_addr w' \<and> (\<exists>b g. (if old = 0 then b = [] else bufs w old = Some b) \<and>
       bufs w' = (bufs w)(old := None, p \<mapsto> take n b @ g) \<and> length g = n - length b))"
proof -
  obtain b where b: "(if old = 0 then Some [] else bufs w old) = Some b"
    using assms by (auto simp: realloc_buf_def bind_Some_conv)
  then have b': "if old = 0 then b = [] else bufs w old = Some b" by (auto split: if_splits)
  show ?thesis
  proof (cases rule: malloc_cases [of n w])
    case fail
    then show ?thesis using assms b by (auto simp: realloc_buf_def)
  next
    case ok
    then show ?thesis
      using assms b b' by (auto simp: realloc_buf_def Let_def split: if_splits)
  qed
qed

lemma read_configs_cached:
  assumes "read_configs K dev fd (length (concat cs)) n w = Some (True, r, w')" "cached_configs w dev cs"
  shows "\<exists>cs'. length cs' = n \<and> cached_configs w' dev (cs @ cs')"
  using assms
proof (induction n arbitrary: cs w)
  case 0
  then show ?case by (intro exI [of _ "[]"]) simp
next
  case (Suc n)
  obtain q hdr w1 where r1: "sys_read K fd 4 w = (q, hdr, w1)" by (metis prod_cases3)
  note f1 = sys_read_frame [OF r1]
  have q: "q = 4" using Suc.prems(1) r1 by (simp split: if_splits)
  obtain lo hi where l: "rd hdr 2 = Some lo" "rd hdr 3 = Some hi"
    using Suc.prems(1) r1 q by (auto simp: bind_Some_conv)
  have hdr: "length hdr = 4" "hdr ! 2 = lo" "hdr ! 3 = hi" using l f1(4) by (auto simp: rd_Some)
  define tl where "tl = le16 lo hi"
  note p1 = Suc.prems(1) [unfolded read_configs.simps r1 prod.case l Let_def bind.bind_lunit tl_def [symmetric]]
  have long: "\<not> tl < 4" using p1 q by (auto split: if_splits)
  then have long': "4 \<le> unat tl" by (simp add: word_less_nat_alt)
  obtain d cache w2 where d: "devs w1 dev = Some d"
    "realloc_buf (desc_cache (ld_os d)) (length (concat cs) + unat tl) w1 = Some (cache, w2)"
    using p1 q long by (auto simp: bind_Some_conv)
  have cache: "cache \<noteq> 0" using p1 q long d by (auto split: if_splits)
  obtain w3 b b1 where w3: "upd_device dev (\<lambda>d. d\<lparr>ld_os := (ld_os d)\<lparr>desc_cache := cache\<rparr>\<rparr>) w2 = Some w3"
    "bufs w3 cache = Some b" "wr_block b (length (concat cs)) hdr = Some b1"
    using p1 q long d cache by (auto simp: bind_Some_conv split: if_splits)
  obtain q2 body w4 where r4: "sys_read K fd (unat tl - 4) w3 = (q2, body, w4)" by (metis prod_cases3)
  note f4 = sys_read_frame [OF r4]
  note p2 = p1 [unfolded d w3 r4 prod.case bind.bind_lunit]
  obtain b2 where b2: "wr_block b1 (length (concat cs) + 4) body = Some b2"
    using p2 q long cache by (auto simp: bind_Some_conv)
  let ?w5 = "w4\<lparr>bufs := (bufs w4)(cache \<mapsto> b2)\<rparr>"
  have run: "read_configs K dev fd (length (concat cs) + unat tl) n ?w5 = Some (True, r, w')"
    using p2 q long cache b2 by (auto split: if_splits)
  \<comment> \<open>the block read so far\<close>
  obtain old g where old: "if desc_cache (ld_os d) = 0 then old = [] else bufs w1 (desc_cache (ld_os d)) = Some old"
    and bw2: "bufs w2 = (bufs w1)(desc_cache (ld_os d) := None, cache \<mapsto> take (length (concat cs) + unat tl) old @ g)"
    and g: "length g = length (concat cs) + unat tl - length old" and dw2: "devs w2 = devs w1"
    using realloc_buf_outcome [OF d(2)] cache by auto
  have "old = concat cs"
    using Suc.prems(2) d(1) old f1(1,2) by (auto simp: cached_configs_def split: if_splits)
  then have g': "length g = unat tl" using g by simp
  have w3': "bufs w3 = bufs w2" "devs w3 = (devs w1)(dev \<mapsto> d\<lparr>ld_os := (ld_os d)\<lparr>desc_cache := cache\<rparr>\<rparr>)"
    using w3(1) d(1) dw2 by (auto simp: upd_Some)
  have b: "b = concat cs @ g" using w3(2) \<open>old = concat cs\<close> by (simp add: w3'(1) bw2)
  have b1: "b1 = concat cs @ hdr @ drop 4 g" using w3(3) hdr(1) by (simp add: b wr_block_Some)
  define c where "c = hdr @ body @ drop (4 + length body) g"
  have b2': "b2 = concat cs @ c" using b2 hdr(1) by (simp add: b1 c_def wr_block_Some add.commute)
  have lenc: "length c = unat tl" using f4(4) long' g' hdr(1) by (simp add: c_def)
  have ok: "config_block c"
    using long' lenc hdr by (simp add: config_block_def c_def nth_append tl_def)
  have "cached_configs ?w5 dev (cs @ [c])"
    using Suc.prems(2) ok cache b2' by (simp add: cached_configs_def f4 w3')
  moreover have "length (concat cs) + unat tl = length (concat (cs @ [c]))" by (simp add: lenc)
  ultimately obtain cs' where "length cs' = n" "cached_configs w' dev ((cs @ [c]) @ cs')"
    using Suc.IH [of "cs @ [c]" ?w5] run by auto
  then show ?case by (intro exI [of _ "c # cs'"]) simp
qed

text \<open>
  C20: The enumeration fills the cache the way it is read: when \<open>usbyb_get_device_list\<close> has
  read all configurations of a device, whatever the device answers (its lengths are trusted
  only after a check, and a short read ends the loop), the cache holds as many well-formed
  configurations as the descriptor of the device announces. By the property of the cached
  descriptors above, every one of them can then be retrieved without leaving the block.
\<close>

theorem linux_cache_filled:
  assumes "devs w dev = Some d" "desc_cache (ld_os d) = 0"
    "read_configs K dev fd 0 (unat (dd_bNumConfigurations (ld_device_desc d))) w = Some (True, r, w')"
  shows "\<exists>cs d'. cached_configs w' dev cs \<and> devs w' dev = Some d' \<and>
    unat (dd_bNumConfigurations (ld_device_desc d')) = length cs"
proof -
  have "cached_configs w dev []" using assms(1,2) by (simp add: cached_configs_def)
  then obtain cs where cs: "length cs = unat (dd_bNumConfigurations (ld_device_desc d))" "cached_configs w' dev cs"
    using read_configs_cached [of K dev fd "[]" _ w r w'] assms(3) by auto
  then obtain d' where d': "devs w' dev = Some d'" by (auto simp: cached_configs_def)
  have "descs w' dev = descs w dev" using read_configs_keeps [OF assms(3)] by (simp add: keeps_refs_def)
  then have "ld_device_desc d' = ld_device_desc d" using d' assms(1) by (simp add: descs_def)
  then show ?thesis using cs d' by auto
qed

text \<open>A device file that answers every read with a configuration of six bytes.\<close>

definition six_byte_kernel :: "unit kernel" where
  "six_byte_kernel = example_kernel\<lparr>k_read := (\<lambda>_ n k. (int n, if n = 4 then [9, 2, 6, 0] else replicate n 1, k))\<rparr>"

definition uncached_world :: "unit lx_world" where
  "uncached_world = example_world\<lparr>devs := [2 \<mapsto> example_device\<lparr>ld_device_desc :=
     (ld_device_desc example_device)\<lparr>dd_bNumConfigurations := 2\<rparr>\<rparr>]\<rparr>"

lemma six_byte_run:
  "map_option (\<lambda>(ok, r, w). (ok, r)) (read_configs six_byte_kernel 2 3 0 2 uncached_world) = Some (True, 0)"
  by code_simp

theorem linux_cache_filled_witness:
  "\<exists>w' cs. read_configs six_byte_kernel 2 3 0 2 uncached_world = Some (True, 0, w') \<and>
     cached_configs w' 2 cs \<and> length cs = 2"
proof -
  obtain w' where run: "read_configs six_byte_kernel 2 3 0 2 uncached_world = Some (True, 0, w')"
    using six_byte_run by auto
  obtain d where d: "devs uncached_world 2 = Some d" "desc_cache (ld_os d) = 0"
    "unat (dd_bNumConfigurations (ld_device_desc d)) = 2"
    by (simp add: uncached_world_def example_defs)
  have num: "descs w' 2 = descs uncached_world 2" using read_configs_keeps [OF run] by (simp add: keeps_refs_def)
  show ?thesis
    using linux_cache_filled [OF d(1,2), of six_byte_kernel 3 0 w'] run d num
    by (auto simp: descs_def)
qed

end
