(* ===== verification/Transfer_Steps.thy ===== *)
theory Transfer_Steps
  imports Frontend
begin

text \<open>
  The synchronous transfers of the front end step by step
  (\<^verbatim>\<open>libusby_bulk_transfer\<close> and \<^verbatim>\<open>libusby_control_transfer\<close>
  in \<^verbatim>\<open>src/libusby.c\<close>), over any back end: what allocation and filling leave, and
  how the steps compose.
\<close>

section \<open>Allocation and filling\<close>

lemma new_transfer_frame:
  assumes "new_transfer n t w = (p, w')"
  shows "bufs w' = bufs w \<and> hnds w' = hnds w \<and> devs w' = devs w \<and> ctxs w' = ctxs w \<and> nodes w' = nodes w \<and>
    os w' = os w \<and> junk w' = junk w \<and> (if p = 0 then trans w' = trans w else p = next_addr w \<and> trans w' = (trans w)(p \<mapsto> t))"
  using assms by (cases rule: malloc_cases [of n w]) (auto simp: new_transfer_def)

lemma new_buf_ok:
  assumes "plenty w" "0 < next_addr w"
  shows "new_buf n w = (next_addr w, w\<lparr>next_addr := next_addr w + max 1 n, n_mallocs := Suc (n_mallocs w),
      bufs := (bufs w)(next_addr w \<mapsto> map (junk w (n_mallocs w)) [0..<n])\<rparr>)"
  using assms by (simp add: new_buf_def malloc_def plenty_def Let_def)

text \<open>The public parts of the transfers of the two functions.\<close>

definition bulk_pub :: "addr \<Rightarrow> u8 \<Rightarrow> addr \<Rightarrow> int \<Rightarrow> u32 \<Rightarrow> libusby_transfer" where
  "bulk_pub h ep data len timeout = (zero_transfer_pub 0)\<lparr>lt_dev_handle := h, lt_endpoint := ep,
     lt_type := type_code LIBUSBY_TRANSFER_TYPE_BULK, lt_length := len, lt_buffer := data, lt_timeout := timeout\<rparr>"

definition control_pub :: "addr \<Rightarrow> addr \<Rightarrow> u16 \<Rightarrow> u32 \<Rightarrow> libusby_transfer" where
  "control_pub h buffer n timeout = (zero_transfer_pub 0)\<lparr>lt_dev_handle := h, lt_buffer := buffer, lt_timeout := timeout,
     lt_length := uint n + 8, lt_type := type_code LIBUSBY_TRANSFER_TYPE_CONTROL\<rparr>"

lemma bulk_pub_simps [simp]:
  "lt_type (bulk_pub h ep data len timeout) = type_code LIBUSBY_TRANSFER_TYPE_BULK"
  "lt_dev_handle (bulk_pub h ep data len timeout) = h" "lt_buffer (bulk_pub h ep data len timeout) = data"
  "lt_length (bulk_pub h ep data len timeout) = len" "lt_actual_length (bulk_pub h ep data len timeout) = 0"
  "lt_callback (bulk_pub h ep data len timeout) = 0" "lt_endpoint (bulk_pub h ep data len timeout) = ep"
  by (simp_all add: bulk_pub_def zero_transfer_pub_def)

lemma control_pub_simps [simp]:
  "lt_type (control_pub h a n timeout) = type_code LIBUSBY_TRANSFER_TYPE_CONTROL"
  "lt_dev_handle (control_pub h a n timeout) = h" "lt_buffer (control_pub h a n timeout) = a"
  "lt_callback (control_pub h a n timeout) = 0" "lt_length (control_pub h a n timeout) = uint n + 8"
  by (simp_all add: control_pub_def zero_transfer_pub_def)

lemma fill_bulk_fresh:
  assumes "trans w t = Some x" "tr_pub x = zero_transfer_pub 0"
  shows "libusby_fill_bulk_transfer be (t + usbyb_transfer_pub_offset be) h ep data len 0 0 timeout w =
    Some (w\<lparr>trans := (trans w)(t \<mapsto> x\<lparr>tr_pub := bulk_pub h ep data len timeout\<rparr>)\<rparr>)"
  using assms
  by (simp add: libusby_fill_bulk_transfer_def set_pub_def pub_of_def usbyi_get_tran_def upd_transfer_def upd_pub_def
      bulk_pub_def zero_transfer_pub_def)

lemma length_setup_packet [simp]: "length (setup_packet rt rq v i n) = 8"
  by (simp add: setup_packet_def)

lemma setup_packet_length_bytes: "setup_packet rt rq v i n ! 6 = lo8 n" "setup_packet rt rq v i n ! 7 = hi8 n"
  by (simp_all add: setup_packet_def)

lemma fill_control_fresh:
  assumes "trans w t = Some x" "tr_pub x = zero_transfer_pub 0" "bufs w a = Some (setup_packet rt rq v i n @ bs)"
  shows "libusby_fill_control_transfer be (t + usbyb_transfer_pub_offset be) h a 0 0 timeout w =
    Some (w\<lparr>trans := (trans w)(t \<mapsto> x\<lparr>tr_pub := control_pub h a n timeout\<rparr>)\<rparr>)"
  using assms
  by (simp add: libusby_fill_control_transfer_def nth_append setup_packet_length_bytes rd_def set_pub_def
      usbyi_get_tran_def upd_transfer_def upd_pub_def control_pub_def zero_transfer_pub_def)

section \<open>Bulk transfers\<close>

lemma bulk_transfer_cases:
  assumes "libusby_bulk_transfer be h ep data len timeout w = Some (r, transferred, w')"
  obtains (no_mem) x d where "hnds w h = Some x" "devs w (lh_dev x) = Some d"
      "libusby_alloc_transfer be (ld_ctx d) 0 w = Some (0, w')" "r = err LIBUSBY_ERROR_NO_MEM" "transferred = None"
  | (run) x d tran w1 w2 w3 where "hnds w h = Some x" "devs w (lh_dev x) = Some d"
      "libusby_alloc_transfer be (ld_ctx d) 0 w = Some (tran, w1)" "tran \<noteq> 0"
      "libusby_fill_bulk_transfer be tran h ep data len 0 0 timeout w1 = Some w2"
      "libusby_perform_transfer be tran w2 = Some (r, w3)" "libusby_free_transfer be tran w3 = Some w'"
      "if 0 \<le> r then \<exists>p. pub_of be tran w3 = Some p \<and> transferred = Some (lt_actual_length p) else transferred = None"
proof -
  obtain x d where d: "hnds w h = Some x" "devs w (lh_dev x) = Some d"
    using assms by (auto simp: libusby_bulk_transfer_def libusby_get_device_def bind_Some_conv)
  obtain tran w1 where w1: "libusby_alloc_transfer be (ld_ctx d) 0 w = Some (tran, w1)"
    using assms d by (auto simp: libusby_bulk_transfer_def libusby_get_device_def bind_Some_conv)
  note p = assms [unfolded libusby_bulk_transfer_def libusby_get_device_def d(1) option.map bind.bind_lunit d(2) w1 prod.case]
  show thesis
  proof (cases "tran = 0")
    case True
    then show thesis using p w1 d by (intro no_mem) simp_all
  next
    case False
    then obtain w2 r3 w3 where w2: "libusby_fill_bulk_transfer be tran h ep data len 0 0 timeout w1 = Some w2"
      "libusby_perform_transfer be tran w2 = Some (r3, w3)"
      using p by (auto simp: bind_Some_conv)
    then have "r3 = r" "libusby_free_transfer be tran w3 = Some w'"
      "if 0 \<le> r then \<exists>p. pub_of be tran w3 = Some p \<and> transferred = Some (lt_actual_length p) else transferred = None"
      using p False by (auto simp: bind_Some_conv split: if_splits)
    then show thesis using run [OF d w1 False w2(1)] w2(2) by simp
  qed
qed

section \<open>Control transfers\<close>

text \<open>The composition of a run from its steps.\<close>

lemma control_transfer_run:
  assumes "hnds w h = Some x" "devs w (lh_dev x) = Some d" "libusby_alloc_transfer be (ld_ctx d) 0 w = Some (t, w1)" "t \<noteq> 0"
    "new_buf (unat n + 8) w1 = (a, w2)" "a \<noteq> 0" "bufs w2 a = Some b" "wr_block b 0 (setup_packet rt rq v i n) = Some b1"
    "libusby_fill_control_transfer be t h a 0 0 timeout (w2\<lparr>bufs := (bufs w2)(a \<mapsto> b1)\<rparr>) = Some w3"
    "libusby_perform_transfer be t w3 = Some (r, w4)" "control_result be t a r data w4 = Some (r', data')"
    "free_buf a w4 = Some w5" "libusby_free_transfer be t w5 = Some w'"
  shows "libusby_control_transfer be h rt rq v i data n timeout w = Some (r', data', w')"
  using assms by (simp add: libusby_control_transfer_def libusby_get_device_def)

text \<open>The world when the request is made, after the allocation of the transfer \<open>t\<close> as \<open>z\<close> in \<open>w\<close>.\<close>

definition control_ready :: "addr \<Rightarrow> 't usbyb_transfer \<Rightarrow> libusby_transfer \<Rightarrow> u8 list \<Rightarrow> nat \<Rightarrow> ('c, 'd, 'h, 't, 'k) world
    \<Rightarrow> ('c, 'd, 'h, 't, 'k) world" where
  "control_ready t z pub stp n w = w\<lparr>next_addr := next_addr w + max 1 (n + 8), n_mallocs := Suc (n_mallocs w),
     bufs := (bufs w)(next_addr w \<mapsto> stp @ map (junk w (n_mallocs w)) [8..<8 + n]),
     trans := (trans w)(t \<mapsto> z\<lparr>tr_pub := pub\<rparr>)\<rparr>"

lemma control_transfer_ready:
  assumes "hnds w h = Some x" "devs w (lh_dev x) = Some d"
    "libusby_alloc_transfer be (ld_ctx d) 0 w = Some (t + usbyb_transfer_pub_offset be, w1)" "t \<noteq> 0"
    "trans w1 t = Some z" "tr_pub z = zero_transfer_pub 0" "plenty w1" "0 < next_addr w1"
    "libusby_perform_transfer be (t + usbyb_transfer_pub_offset be)
       (control_ready t z (control_pub h (next_addr w1) n timeout) (setup_packet rt rq v i n) (unat n) w1) = Some (r, w4)"
    "control_result be (t + usbyb_transfer_pub_offset be) (next_addr w1) r data w4 = Some (r', data')"
    "free_buf (next_addr w1) w4 = Some w5" "libusby_free_transfer be (t + usbyb_transfer_pub_offset be) w5 = Some w'"
  shows "libusby_control_transfer be h rt rq v i data n timeout w = Some (r', data', w')"
proof -
  let ?a = "next_addr w1" and ?stp = "setup_packet rt rq v i n" and ?junk = "map (junk w1 (n_mallocs w1))"
  define w2 where "w2 = w1\<lparr>next_addr := ?a + max 1 (unat n + 8), n_mallocs := Suc (n_mallocs w1),
    bufs := (bufs w1)(?a \<mapsto> ?junk [0..<unat n + 8])\<rparr>"
  have buf: "new_buf (unat n + 8) w1 = (?a, w2)" using new_buf_ok [OF assms(7,8)] by (simp add: w2_def)
  have wr: "wr_block (?junk [0..<unat n + 8]) 0 ?stp = Some (?stp @ ?junk [8..<8 + unat n])"
    by (simp add: wr_block_def drop_map add.commute)
  have "libusby_fill_control_transfer be (t + usbyb_transfer_pub_offset be) h ?a 0 0 timeout
      (w2\<lparr>bufs := (bufs w2)(?a \<mapsto> ?stp @ ?junk [8..<8 + unat n])\<rparr>)
    = Some (control_ready t z (control_pub h ?a n timeout) ?stp (unat n) w1)"
    using fill_control_fresh [of "w2\<lparr>bufs := (bufs w2)(?a \<mapsto> ?stp @ ?junk [8..<8 + unat n])\<rparr>" t z ?a rt rq v i n
        "?junk [8..<8 + unat n]" be h timeout] assms(5,6)
    by (simp add: w2_def control_ready_def)
  moreover have "bufs w2 ?a = Some (?junk [0..<unat n + 8])" by (simp add: w2_def)
  ultimately show ?thesis
    using control_transfer_run [OF assms(1-3) _ buf _ _ wr _ assms(9-12)] assms(4,8) by simp
qed

text \<open>What the result depends on: of the memory of the caller only the size matters.\<close>

lemma control_result_size:
  assumes "control_result be t a r data w = Some (r', res)" "length data2 = length data"
  shows "\<exists>res2. control_result be t a r data2 w = Some (r', res2)"
  using assms by (auto simp: control_result_def bind_Some_conv wr_block_Some c_assert_Some split: if_splits)

text \<open>A call either ends before the request is made, whatever the memory of the caller is, or is such a run.\<close>

lemma control_transfer_cases:
  assumes call: "libusby_control_transfer be h rt rq v i data n timeout w = Some (r', res, w')"
  obtains (early) "\<And>data2. libusby_control_transfer be h rt rq v i data2 n timeout w = Some (r', data2, w')"
  | (run) x d t w1 a w2 b b1 w3 r w4 w5 where
    "hnds w h = Some x" "devs w (lh_dev x) = Some d" "libusby_alloc_transfer be (ld_ctx d) 0 w = Some (t, w1)" "t \<noteq> 0"
    "new_buf (unat n + 8) w1 = (a, w2)" "a \<noteq> 0" "bufs w2 a = Some b" "wr_block b 0 (setup_packet rt rq v i n) = Some b1"
    "libusby_fill_control_transfer be t h a 0 0 timeout (w2\<lparr>bufs := (bufs w2)(a \<mapsto> b1)\<rparr>) = Some w3"
    "libusby_perform_transfer be t w3 = Some (r, w4)" "control_result be t a r data w4 = Some (r', res)"
    "free_buf a w4 = Some w5" "libusby_free_transfer be t w5 = Some w'"
proof -
  obtain x d where d: "hnds w h = Some x" "devs w (lh_dev x) = Some d"
    using call by (auto simp: libusby_control_transfer_def libusby_get_device_def bind_Some_conv)
  obtain t w1 where w1: "libusby_alloc_transfer be (ld_ctx d) 0 w = Some (t, w1)"
    using call d by (auto simp: libusby_control_transfer_def libusby_get_device_def bind_Some_conv)
  obtain a w2 where w2: "new_buf (unat n + 8) w1 = (a, w2)" by force
  note eqs = libusby_control_transfer_def libusby_get_device_def d(1) option.map d(2) w1 w2 Let_def prod.case bind.bind_lunit
  note p = call [unfolded eqs]
  show thesis
  proof (cases "t = 0 \<or> a = 0")
    case True
    then show thesis using p by (intro early) (auto simp: eqs bind_Some_conv)
  next
    case False
    then obtain b b1 where b: "bufs w2 a = Some b" "wr_block b 0 (setup_packet rt rq v i n) = Some b1"
      using p by (auto simp: bind_Some_conv)
    obtain w3 r w4 where w3: "libusby_fill_control_transfer be t h a 0 0 timeout (w2\<lparr>bufs := (bufs w2)(a \<mapsto> b1)\<rparr>) = Some w3"
      "libusby_perform_transfer be t w3 = Some (r, w4)"
      using p False b by (auto simp: bind_Some_conv)
    obtain w5 where w5: "control_result be t a r data w4 = Some (r', res)" "free_buf a w4 = Some w5"
      "libusby_free_transfer be t w5 = Some w'"
      using p False b w3 by (auto simp: bind_Some_conv)
    show thesis by (rule run [OF d w1 _ w2 _ b w3 w5]) (use False in simp_all)
  qed
qed

end
