(* ===== verification/Linux_Sync.thy ===== *)
theory Linux_Sync
  imports Linux_Example Transfer_Steps
begin

text \<open>
  Synchronous transfers over the Linux back end: submission followed by the wait
  (\<^verbatim>\<open>libusby_bulk_transfer\<close>), and control transfers.
\<close>

section \<open>What submission changes\<close>

text \<open>Only the table of watched descriptors of one context, and the allocator.\<close>

definition table_only :: "addr \<Rightarrow> 'k lx_world \<Rightarrow> 'k lx_world \<Rightarrow> bool" where
  "table_only ctx w w' \<longleftrightarrow> devs w' = devs w \<and> hnds w' = hnds w \<and> trans w' = trans w \<and> bufs w' = bufs w \<and>
     nodes w' = nodes w \<and> dlists w' = dlists w \<and> kern (os w') = kern (os w) \<and>
     (\<exists>c a n m. ctxs w ctx = Some c \<and>
       ctxs w' = (ctxs w)(ctx \<mapsto> c\<lparr>watched_fds := a, watched_fd_count := n, watched_fd_capacity := m\<rparr>))"

lemma table_only_refl: "ctxs w ctx = Some c \<Longrightarrow> table_only ctx w w"
  unfolding table_only_def
  by (simp, rule exI [of _ "watched_fds c"], rule exI [of _ "watched_fd_count c"],
      rule exI [of _ "watched_fd_capacity c"]) (simp add: fun_eq_iff)

lemma table_only_trans: "table_only ctx w1 w2 \<Longrightarrow> table_only ctx w2 w3 \<Longrightarrow> table_only ctx w1 w3"
  by (auto simp: table_only_def) blast

lemma set_wfds_frame [simp]:
  "devs (set_wfds m w) = devs w" "hnds (set_wfds m w) = hnds w" "trans (set_wfds m w) = trans w"
  "bufs (set_wfds m w) = bufs w" "ctxs (set_wfds m w) = ctxs w" "nodes (set_wfds m w) = nodes w"
  "dlists (set_wfds m w) = dlists w" "next_addr (set_wfds m w) = next_addr w"
  "kern (os (set_wfds m w)) = kern (os w)" "wfds (os (set_wfds m w)) = m"
  by (simp_all add: set_wfds_def)

lemma table_only_set_wfds: "table_only ctx w w' \<Longrightarrow> table_only ctx w (set_wfds m w')"
  by (simp add: table_only_def)

lemma table_only_upd_context:
  assumes "table_only ctx w w1" "upd_context ctx f w1 = Some w'"
    "\<And>c. \<exists>a n m. f c = c\<lparr>watched_fds := a, watched_fd_count := n, watched_fd_capacity := m\<rparr>"
  shows "table_only ctx w w'"
proof -
  obtain c where c: "ctxs w1 ctx = Some c" "w' = w1\<lparr>ctxs := (ctxs w1)(ctx \<mapsto> f c)\<rparr>"
    using assms(2) by (auto simp: upd_Some)
  obtain a n m where "f c = c\<lparr>watched_fds := a, watched_fd_count := n, watched_fd_capacity := m\<rparr>"
    using assms(3) by blast
  then have "table_only ctx w1 w'" using c by (auto simp: table_only_def)
  then show ?thesis using assms(1) table_only_trans by blast
qed

lemma unwatch_table_only:
  assumes "usbfs_unwatch_fd ctx i w = Some w'"
  shows "table_only ctx w w'"
proof -
  obtain c arr e n arr1 where c: "ctxs w ctx = Some c" "wfds (os w) (watched_fds c) = Some arr"
    "rd arr i = Some (Some e)" "c_int (wf_refcount e - 1) = Some n"
    "wr arr i (Some (e\<lparr>wf_refcount := n\<rparr>)) = Some arr1"
    using assms by (auto simp: usbfs_unwatch_fd_def bind_Some_conv)
  define w1 where "w1 = set_wfds ((wfds (os w))(watched_fds c \<mapsto> arr1)) w"
  have t1: "table_only ctx w w1" unfolding w1_def by (rule table_only_set_wfds [OF table_only_refl [OF c(1)]])
  have rest: "(if n = 0 then do {
       count \<leftarrow> c_int (watched_fd_count c - 1);
       w \<leftarrow> upd_context ctx (\<lambda>c. c\<lparr>watched_fd_count := count\<rparr>) w1;
       if count \<noteq> 0 then do {
         c_assert (0 \<le> count);
         last_cell \<leftarrow> rd arr1 (nat count);
         arr \<leftarrow> wr arr1 i last_cell;
         Some (set_wfds ((wfds (os w))(watched_fds c \<mapsto> arr)) w) }
       else Some w }
     else Some w1) = Some w'"
    using assms unfolding usbfs_unwatch_fd_def w1_def by (simp only: c bind.bind_lunit Let_def)
  show ?thesis
  proof (cases "n = 0")
    case False
    then show ?thesis using rest t1 by simp
  next
    case True
    then obtain count w2 where w2: "upd_context ctx (\<lambda>c. c\<lparr>watched_fd_count := count\<rparr>) w1 = Some w2"
      and w': "w' = w2 \<or> (\<exists>m. w' = set_wfds m w2)"
      using rest by (auto simp: bind_Some_conv split: if_splits)
    have "table_only ctx w w2"
    proof (rule table_only_upd_context [OF t1 w2])
      show "\<exists>a n m. c\<lparr>watched_fd_count := count\<rparr> = c\<lparr>watched_fds := a, watched_fd_count := n, watched_fd_capacity := m\<rparr>" for c
        by (intro exI [of _ "watched_fds c"] exI [of _ count] exI [of _ "watched_fd_capacity c"]) simp
    qed
    then show ?thesis using w' table_only_set_wfds by blast
  qed
qed

lemma realloc_watched_frame:
  assumes "realloc_watched old n w = Some (p, w')"
  shows "devs w' = devs w" "hnds w' = hnds w" "trans w' = trans w" "bufs w' = bufs w" "ctxs w' = ctxs w"
    "nodes w' = nodes w" "dlists w' = dlists w" "kern (os w') = kern (os w)"
proof -
  obtain es where es: "(if old = 0 then Some [] else wfds (os w) old) = Some es"
    using assms by (auto simp: realloc_watched_def bind_Some_conv)
  have "snd (malloc (8 * n) w) = w' \<or> (\<exists>m. w' = set_wfds m (snd (malloc (8 * n) w)))"
    using assms es by (cases "malloc (8 * n) w") (auto simp: realloc_watched_def split: if_splits)
  moreover have "\<exists>a k. snd (malloc (8 * n) w) = w\<lparr>next_addr := a, n_mallocs := k\<rparr>"
  proof (cases rule: malloc_cases [of "8 * n" w])
    case fail
    then show ?thesis by (intro exI [of _ "next_addr w"] exI [of _ "Suc (n_mallocs w)"]) simp
  next
    case ok
    then show ?thesis
      by (intro exI [of _ "next_addr w + max 1 (8 * n)"] exI [of _ "Suc (n_mallocs w)"]) simp
  qed
  ultimately show "devs w' = devs w" "hnds w' = hnds w" "trans w' = trans w" "bufs w' = bufs w" "ctxs w' = ctxs w"
    "nodes w' = nodes w" "dlists w' = dlists w" "kern (os w') = kern (os w)"
    by auto
qed

lemma grow_table_only:
  assumes run: "grow_watched ctx w = Some (r, w')"
  shows "table_only ctx w w'"
proof -
  obtain c where c: "ctxs w ctx = Some c" using run by (auto simp: grow_watched_def bind_Some_conv)
  note t0 = table_only_refl [OF c]
  show ?thesis
  proof (cases "watched_fd_count c = watched_fd_capacity c")
    case False
    then show ?thesis using run c t0 by (simp add: grow_watched_def)
  next
    case True
    then obtain cap p w2 where w2: "realloc_watched (watched_fds c) (nat cap) w = Some (p, w2)"
      "upd_context ctx (\<lambda>c. c\<lparr>watched_fds := p, watched_fd_capacity := cap\<rparr>) w2 = Some w'"
      using run c by (auto simp: grow_watched_def bind_Some_conv Let_def)
    have t2: "table_only ctx w w2" using realloc_watched_frame [OF w2(1)] t0 by (simp add: table_only_def)
    show ?thesis
    proof (rule table_only_upd_context [OF t2 w2(2)])
      show "\<exists>a n m. c\<lparr>watched_fds := p, watched_fd_capacity := cap\<rparr>
          = c\<lparr>watched_fds := a, watched_fd_count := n, watched_fd_capacity := m\<rparr>" for c
        by (intro exI [of _ p] exI [of _ "watched_fd_count c"] exI [of _ cap]) simp
    qed
  qed
qed

lemma store_table_only:
  assumes run: "store_watched ctx i fd w = Some w'"
  shows "table_only ctx w w'"
proof -
  obtain c count w2 m where c: "ctxs w ctx = Some c"
    and w2: "upd_context ctx (\<lambda>c. c\<lparr>watched_fd_count := count\<rparr>) w = Some w2" "w' = set_wfds m w2"
    using run by (auto simp: store_watched_def bind_Some_conv)
  have "table_only ctx w w2"
  proof (rule table_only_upd_context [OF table_only_refl [OF c] w2(1)])
    show "\<exists>a n m. c\<lparr>watched_fd_count := count\<rparr> = c\<lparr>watched_fds := a, watched_fd_count := n, watched_fd_capacity := m\<rparr>" for c
      by (intro exI [of _ "watched_fds c"] exI [of _ count] exI [of _ "watched_fd_capacity c"]) simp
  qed
  then show ?thesis unfolding w2(2) by (rule table_only_set_wfds)
qed

lemma watch_table_only:
  assumes run: "watch_fd ctx fd w = Some (r, i, w')"
  shows "table_only ctx w w'"
proof -
  obtain c where c: "ctxs w ctx = Some c" using run by (auto simp: watch_fd_def bind_Some_conv)
  have "w' = w \<or> (\<exists>w1. grow_watched ctx w = Some (r, w1) \<and> store_watched ctx i fd w1 = Some w')"
    using run by (auto simp: watch_fd_def bind_Some_conv c_assert_Some split: if_splits)
  then show ?thesis
    using table_only_refl [OF c] table_only_trans [OF grow_table_only store_table_only] by blast
qed

text \<open>The request of a transfer.\<close>

definition urb_of :: "addr \<Rightarrow> libusby_transfer \<Rightarrow> int \<Rightarrow> usbdevfs_urb" where
  "urb_of t p ty = zero_urb\<lparr>ur_type := ty, ur_endpoint := lt_endpoint p, ur_buffer := lt_buffer p,
     ur_buffer_length := lt_length p, ur_usercontext := t\<rparr>"

lemma watch_fd_result: "watch_fd ctx fd w = Some (r, i, w') \<Longrightarrow> r = err LIBUSBY_SUCCESS \<or> r = err LIBUSBY_ERROR_NO_MEM"
  by (auto simp: watch_fd_def grow_watched_def Let_def bind_Some_conv split: if_splits)

text \<open>The part of a submission under the mutex, with the request \<open>rq\<close> of the transfer.\<close>

definition submit_locked :: "'k kernel \<Rightarrow> addr \<Rightarrow> int \<Rightarrow> addr \<Rightarrow> usbdevfs_urb \<Rightarrow> 'k lx_world \<Rightarrow> (int \<times> 'k lx_world) option" where
  "submit_locked K ctx fd t rq w = do {
     w \<leftarrow> mutex_lock ctx w;
     (r, i, w) \<leftarrow> watch_fd ctx fd w;
     (r, w) \<leftarrow> (if r \<ge> 0 then do {
         let (q, e, k) = k_submiturb K fd t rq (kern (os w));
         let w = set_kern k w;
         if q < 0 then do { w \<leftarrow> usbfs_unwatch_fd ctx i w; Some (usbfs_error e, w) }
         else Some (r, w) }
       else Some (r, w));
     c \<leftarrow> ctxs w ctx;
     w \<leftarrow> (if r \<ge> 0 \<and> loop_locked c \<noteq> 0 then
         upd_transfer t (\<lambda>t. t\<lparr>tr_os := (tr_os t)\<lparr>active := 1\<rparr>\<rparr>)
           (set_kern (snd (k_write K (pipe1 c) [117] (kern (os w)))) w)
       else Some w);
     w \<leftarrow> mutex_unlock ctx w;
     Some (r, w) }"

lemma submit_locked_run:
  assumes run: "linux_usbyb_submit_transfer K t w = Some (r, w')"
    and x: "trans w t = Some x" "hnds w (lt_dev_handle (tr_pub x)) = Some h" "devs w (lh_dev h) = Some d"
    and ty: "urb_type (lt_type (tr_pub x)) = Some ty"
  shows "it_ctx x = ld_ctx d"
    "submit_locked K (ld_ctx d) (wrfd (lh_os h)) t (urb_of t (tr_pub x) ty)
      (w\<lparr>trans := (trans w)(t \<mapsto> x\<lparr>tr_os := (tr_os x)\<lparr>req := urb_of t (tr_pub x) ty\<rparr>\<rparr>)\<rparr>) = Some (r, w')"
proof -
  show it: "it_ctx x = ld_ctx d"
    using run x by (simp add: linux_usbyb_submit_transfer_def Let_def bind_Some_conv c_assert_def split: if_splits)
  show "submit_locked K (ld_ctx d) (wrfd (lh_os h)) t (urb_of t (tr_pub x) ty)
      (w\<lparr>trans := (trans w)(t \<mapsto> x\<lparr>tr_os := (tr_os x)\<lparr>req := urb_of t (tr_pub x) ty\<rparr>\<rparr>)\<rparr>) = Some (r, w')"
    using run x ty it unfolding urb_of_def submit_locked_def linux_usbyb_submit_transfer_def
    by (simp add: upd_transfer_def c_assert_def Let_def cong: if_cong)
qed

lemma submit_idle:
  assumes run: "linux_usbyb_submit_transfer K t w = Some (r, w')"
    and x: "trans w t = Some x" "hnds w (lt_dev_handle (tr_pub x)) = Some h" "devs w (lh_dev h) = Some d"
    and ty: "urb_type (lt_type (tr_pub x)) = Some ty"
    and c: "ctxs w (ld_ctx d) = Some c" "loop_locked c = 0"
  shows "bufs w' = bufs w \<and> hnds w' = hnds w \<and> devs w' = devs w \<and>
    trans w' = (trans w)(t \<mapsto> x\<lparr>tr_os := (tr_os x)\<lparr>req := urb_of t (tr_pub x) ty\<rparr>\<rparr>) \<and> it_ctx x = ld_ctx d \<and>
    (\<exists>c'. ctxs w' (ld_ctx d) = Some c' \<and> loop_locked c' = 0 \<and> \<not> ctx_mutex c') \<and>
    (0 \<le> r \<longrightarrow> r = err LIBUSBY_SUCCESS \<and>
      (\<exists>q e. k_submiturb K (wrfd (lh_os h)) t (urb_of t (tr_pub x) ty) (kern (os w)) = (q, e, kern (os w')) \<and> 0 \<le> q))"
proof -
  let ?ctx = "ld_ctx d" and ?fd = "wrfd (lh_os h)" and ?rq = "urb_of t (tr_pub x) ty"
  let ?x = "x\<lparr>tr_os := (tr_os x)\<lparr>req := ?rq\<rparr>\<rparr>"
  define w1 where "w1 = w\<lparr>trans := (trans w)(t \<mapsto> ?x)\<rparr>"
  note it = submit_locked_run(1) [OF run x ty]
  note run1 = submit_locked_run(2) [OF run x ty, folded w1_def, unfolded submit_locked_def]
  obtain w2 where w2: "mutex_lock ?ctx w1 = Some w2" using run1 by (auto simp: bind_Some_conv)
  then have w2': "w2 = w1\<lparr>ctxs := (ctxs w1)(?ctx \<mapsto> c\<lparr>ctx_mutex := True\<rparr>)\<rparr>"
    using c by (auto simp: mutex_lock_def upd_context_def bind_Some_conv c_assert_Some w1_def)
  obtain r3 i w3 where w3: "watch_fd ?ctx ?fd w2 = Some (r3, i, w3)" using run1 w2 by (auto simp: bind_Some_conv)
  obtain q e k where k: "k_submiturb K ?fd t ?rq (kern (os w3)) = (q, e, k)" by (metis prod_cases3)
  obtain r4 w4 where w4: "(if r3 \<ge> 0 then
           if q < 0 then do { w \<leftarrow> usbfs_unwatch_fd ?ctx i (set_kern k w3); Some (usbfs_error e, w) }
           else Some (r3, set_kern k w3)
         else Some (r3, w3)) = Some (r4, w4)"
    using run1 w2 w3 k by (auto simp: bind_Some_conv Let_def cong: if_cong)
  note t3 = watch_table_only [OF w3]
  have t4: "table_only ?ctx w2 w4 \<or> (\<exists>k' w3'. table_only ?ctx w2 w3' \<and> table_only ?ctx (set_kern k' w3') w4)"
  proof (cases "r3 \<ge> 0 \<and> q < 0")
    case True
    then have "usbfs_unwatch_fd ?ctx i (set_kern k w3) = Some w4" using w4 by (auto simp: bind_Some_conv)
    from unwatch_table_only [OF this] show ?thesis using t3 by blast
  next
    case False
    then have "w4 = w3 \<or> w4 = set_kern k w3" using w4 by (auto split: if_splits)
    moreover obtain c3 where "ctxs w3 ?ctx = Some c3" using t3 by (auto simp: table_only_def)
    then have "table_only ?ctx (set_kern k w3) (set_kern k w3)" by (intro table_only_refl [of _ _ c3]) simp
    ultimately show ?thesis using t3 by auto
  qed
  have frame: "bufs w4 = bufs w \<and> hnds w4 = hnds w \<and> devs w4 = devs w \<and> trans w4 = trans w1 \<and>
    (\<exists>c4. ctxs w4 ?ctx = Some c4 \<and> loop_locked c4 = 0 \<and> ctx_mutex c4)"
    using t4 c(2) by (auto simp: table_only_def w2' w1_def)
  then obtain c4 where c4: "ctxs w4 ?ctx = Some c4" "loop_locked c4 = 0" "ctx_mutex c4" by blast
  have w5: "mutex_unlock ?ctx w4 = Some w'" "r = r4"
    using run1 w2 w3 k w4 c4 by (auto simp: bind_Some_conv Let_def cong: if_cong)
  then have w': "w' = w4\<lparr>ctxs := (ctxs w4)(?ctx \<mapsto> c4\<lparr>ctx_mutex := False\<rparr>)\<rparr>"
    using c4 by (auto simp: mutex_unlock_def upd_context_def bind_Some_conv c_assert_Some)
  have "r = err LIBUSBY_SUCCESS \<and> kern (os w') = k \<and> 0 \<le> q" if "0 \<le> r"
  proof -
    have "usbfs_error e < 0" by (simp add: usbfs_error_def)
    then show ?thesis
      using that w4 w5(2) watch_fd_result [OF w3] by (auto simp: w' bind_Some_conv split: if_splits)
  qed
  moreover have "kern (os w3) = kern (os w)" using t3 by (simp add: table_only_def w2' w1_def)
  ultimately show ?thesis using frame it k c4 by (auto simp: w' w1_def)
qed

lemma wait_inactive_done: "trans w t = Some x \<Longrightarrow> active (tr_os x) = 0 \<Longrightarrow> wait_inactive env ctx t w = Some w"
  by (subst wait_inactive.simps) simp

lemma wait_unlocked_done: "ctxs w ctx = Some c \<Longrightarrow> loop_locked c = 0 \<Longrightarrow> wait_unlocked env ctx w = Some w"
  by (subst wait_unlocked.simps) simp

lemma event_loop_inactive:
  "ctxs w ctx = Some c \<Longrightarrow> trans w t = Some x \<Longrightarrow> active (tr_os x) = 0 \<Longrightarrow>
    event_loop K env cb ctx (Some t) cap r w = Some (r, w)"
  by (subst event_loop.simps) (simp add: still_waiting_def)

text \<open>The wait for a transfer that is not active, outside of any event loop.\<close>

lemma wait_idle:
  assumes "trans w t = Some x" "active (tr_os x) = 0"
    "ctxs w (it_ctx x) = Some c" "loop_locked c = 0" "\<not> ctx_mutex c"
  shows "\<exists>w'. linux_usbyb_wait_for_transfer K env cb t w = Some (err LIBUSBY_SUCCESS, w') \<and>
    trans w' = trans w \<and> bufs w' = bufs w \<and> kern (os w') = kern (os w)"
  using assms
  by (simp add: linux_usbyb_wait_for_transfer_def usbfs_run_event_loop_impl_def mutex_lock_def mutex_unlock_def
      upd_context_def event_loop_inactive wait_inactive_done wait_unlocked_done)

section \<open>Bulk transfers\<close>

text \<open>Allocation and release of a transfer.\<close>

lemma linux_alloc_transfer:
  assumes "libusby_alloc_transfer (linux_backend K sz env cb) ctx 0 w = Some (tran, w')"
  shows "bufs w' = bufs w \<and> hnds w' = hnds w \<and> devs w' = devs w \<and> ctxs w' = ctxs w \<and>
    (tran = 0 \<or> (\<exists>t. tran = t + sz_pub_offset sz \<and> t \<noteq> 0 \<and>
      trans w' = (trans w)(t \<mapsto> (zero_transfer_of 0 zero_lx_transfer)\<lparr>it_ctx := ctx\<rparr>)))"
proof -
  obtain p w1 where new: "new_transfer (transfer_alloc_size (sz_transfer sz) 0) (zero_transfer_of 0 zero_lx_transfer) w = (p, w1)"
    by force
  note f = new_transfer_frame [OF new]
  obtain q k where k: "k_cond_init K (kern (os w1)) = (q, k)" by force
  show ?thesis
  proof (cases "p = 0")
    case True
    then show ?thesis using assms new f by (simp add: libusby_alloc_transfer_def)
  next
    case False
    show ?thesis
    proof (cases "q = 0")
      case ok: True
      have "zero_transfer_of 0 zero_lx_transfer\<lparr>tr_os := zero_lx_transfer\<lparr>active := 0\<rparr>, it_ctx := ctx, it_num_iso_packets := 0\<rparr>
          = (zero_transfer_of 0 zero_lx_transfer)\<lparr>it_ctx := ctx\<rparr>"
        by (simp add: zero_transfer_of_def zero_lx_transfer_def)
      then show ?thesis
        using assms new f False k ok
        by (auto simp: libusby_alloc_transfer_def linux_usbyb_init_transfer_def upd_transfer_def usbyi_get_pub_tran_def
            zero_transfer_of_def zero_lx_transfer_def)
    next
      case False
      then show ?thesis
        using assms new f \<open>p \<noteq> 0\<close> k
        by (auto simp: libusby_alloc_transfer_def linux_usbyb_init_transfer_def free_transfer_def bind_Some_conv)
    qed
  qed
qed

lemma linux_free_transfer:
  assumes "libusby_free_transfer (linux_backend K sz env cb) (t + sz_pub_offset sz) w = Some w'" "t \<noteq> 0"
  shows "w' = (set_kern (k_cond_destroy K (kern (os w))) w)\<lparr>trans := (trans w)(t := None)\<rparr>"
  using assms
  by (auto simp: set_kern_def libusby_free_transfer_def usbyi_get_tran_def linux_usbyb_clear_transfer_def free_transfer_def
      free_block_def bind_Some_conv split: if_splits)

text \<open>Submission and wait, for a bulk transfer that is not active.\<close>

lemma linux_bulk_perform:
  assumes y: "trans w t = Some y" "tr_pub y = bulk_pub h ep data len timeout" "active (tr_os y) = 0"
    and x: "hnds w h = Some x" "devs w (lh_dev x) = Some d" "ctxs w (ld_ctx d) = Some c" "loop_locked c = 0"
    and run: "libusby_perform_transfer (linux_backend K sz env cb) (t + sz_pub_offset sz) w = Some (r, w')"
  shows "bufs w' = bufs w \<and> (\<exists>y'. trans w' t = Some y' \<and> tr_pub y' = tr_pub y) \<and>
    (0 \<le> r \<longrightarrow> r = err LIBUSBY_SUCCESS \<and>
      (\<exists>q e. k_submiturb K (wrfd (lh_os x)) t (urb_of t (tr_pub y) 3) (kern (os w)) = (q, e, kern (os w')) \<and> 0 \<le> q))"
proof -
  let ?y = "y\<lparr>tr_os := (tr_os y)\<lparr>req := urb_of t (tr_pub y) 3\<rparr>\<rparr>"
  have "linux_usbyb_perform_transfer K t w = Some (err LIBUSBY_ERROR_NOT_SUPPORTED, w)"
    using y by (simp add: linux_usbyb_perform_transfer_def)
  then have "(do { (r, w) \<leftarrow> linux_usbyb_submit_transfer K t w;
      if r \<ge> 0 then linux_usbyb_wait_for_transfer K env cb t w else Some (r, w) }) = Some (r, w')"
    using run by (simp add: libusby_perform_transfer_def libusby_submit_transfer_def libusby_wait_for_transfer_def
        usbyi_get_tran_def cong: if_cong)
  then obtain r1 w1 where sub: "linux_usbyb_submit_transfer K t w = Some (r1, w1)"
    and rest: "(if r1 \<ge> 0 then linux_usbyb_wait_for_transfer K env cb t w1 else Some (r1, w1)) = Some (r, w')"
    by (auto simp: bind_Some_conv)
  have "urb_type (lt_type (tr_pub y)) = Some 3" by (simp add: y urb_type_def)
  then have s: "bufs w1 = bufs w" "trans w1 t = Some ?y" "it_ctx y = ld_ctx d"
    "\<exists>c'. ctxs w1 (ld_ctx d) = Some c' \<and> loop_locked c' = 0 \<and> \<not> ctx_mutex c'"
    "0 \<le> r1 \<Longrightarrow> r1 = err LIBUSBY_SUCCESS \<and>
      (\<exists>q e. k_submiturb K (wrfd (lh_os x)) t (urb_of t (tr_pub y) 3) (kern (os w)) = (q, e, kern (os w1)) \<and> 0 \<le> q)"
    using submit_idle [OF sub y(1), of x d 3 c] x y(2) by simp_all
  obtain c' where c': "ctxs w1 (ld_ctx d) = Some c'" "loop_locked c' = 0" "\<not> ctx_mutex c'" using s(4) by blast
  obtain w2 where w2: "linux_usbyb_wait_for_transfer K env cb t w1 = Some (err LIBUSBY_SUCCESS, w2)"
    "trans w2 = trans w1" "bufs w2 = bufs w1" "kern (os w2) = kern (os w1)"
    using wait_idle [OF s(2), of c' K env cb] y(3) s(3) c' by auto
  show ?thesis using rest s(1,2,5) w2 by (cases "0 \<le> r1") auto
qed

text \<open>
  C12: A synchronous bulk transfer on Linux does not wait for the device: started outside of an
  event loop it returns as soon as the request is submitted, reports success with 0 bytes
  transferred whatever the device does, leaves the buffer of the caller as it was, and frees the
  transfer while the kernel still owns the request, which names it and that buffer: after the
  submission the kernel only destroys the condition variable of the transfer. The reason is
  that \<open>usbyb_submit_transfer\<close> makes a transfer active only when the event loop is locked, and
  \<open>usbyb_wait_for_transfer\<close> waits only for an active one.
\<close>

theorem linux_bulk_transfer_does_not_wait:
  assumes "libusby_bulk_transfer (linux_backend K sz env cb) h ep data len timeout w = Some (r, transferred, w')"
    "hnds w h = Some x" "devs w (lh_dev x) = Some d" "ctxs w (ld_ctx d) = Some c" "loop_locked c = 0"
  shows "bufs w' = bufs w \<and>
    (if r < 0 then transferred = None
     else r = err LIBUSBY_SUCCESS \<and> transferred = Some 0 \<and>
       (\<exists>t q e rq k k'. k_submiturb K (wrfd (lh_os x)) t rq k = (q, e, k') \<and> 0 \<le> q \<and>
         ur_usercontext rq = t \<and> ur_buffer rq = data \<and> trans w' t = None \<and> kern (os w') = k_cond_destroy K k'))"
  using assms(1)
proof (cases rule: bulk_transfer_cases)
  case (no_mem x' d')
  then show ?thesis using linux_alloc_transfer [OF no_mem(3)] by simp
next
  case (run x' d' tran w1 w2 w3)
  have same: "x' = x" "d' = d" using run(1,2) assms(2,3) by simp_all
  note al = linux_alloc_transfer [OF run(3)]
  then obtain t where t: "tran = t + sz_pub_offset sz" "t \<noteq> 0"
    "trans w1 = (trans w)(t \<mapsto> (zero_transfer_of 0 zero_lx_transfer)\<lparr>it_ctx := ld_ctx d\<rparr>)"
    using run(4) same by blast
  define z where "z = (zero_transfer_of 0 zero_lx_transfer)\<lparr>it_ctx := ld_ctx d\<rparr>"
  define y where "y = z\<lparr>tr_pub := bulk_pub h ep data len timeout\<rparr>"
  have z: "trans w1 t = Some z" "tr_pub z = zero_transfer_pub 0" using t(3) by (simp_all add: z_def zero_transfer_of_def)
  have "w2 = w1\<lparr>trans := (trans w1)(t \<mapsto> y)\<rparr>"
    using fill_bulk_fresh [OF z, of "linux_backend K sz env cb" h ep data len timeout] run(5) by (simp add: t(1) y_def)
  then have y: "trans w2 t = Some y" "bufs w2 = bufs w" "hnds w2 = hnds w" "devs w2 = devs w" "ctxs w2 = ctxs w"
    using al by simp_all
  have y': "tr_pub y = bulk_pub h ep data len timeout" "active (tr_os y) = 0"
    by (simp_all add: y_def z_def zero_transfer_of_def zero_lx_transfer_def)
  have ex: "hnds w2 h = Some x" "devs w2 (lh_dev x) = Some d" "ctxs w2 (ld_ctx d) = Some c"
    using assms(2-4) y by simp_all
  note p' = linux_bulk_perform [OF y(1) y' ex assms(5) run(6) [unfolded t(1)], unfolded y(2)]
  have w': "w' = (set_kern (k_cond_destroy K (kern (os w3))) w3)\<lparr>trans := (trans w3)(t := None)\<rparr>"
    using linux_free_transfer [of K sz env cb t w3 w'] run(7) t by simp
  have "pub_of (linux_backend K sz env cb) tran w3 = Some (bulk_pub h ep data len timeout)"
    using p' y'(1) by (auto simp: pub_of_def usbyi_get_tran_def t(1))
  then have tr: "transferred = (if 0 \<le> r then Some 0 else None)" using run(8) by (auto split: if_splits)
  have "ur_usercontext (urb_of t (tr_pub y) 3) = t" "ur_buffer (urb_of t (tr_pub y) 3) = data"
    by (simp_all add: urb_of_def y'(1))
  moreover have "trans w' t = None" "kern (os w') = k_cond_destroy K (kern (os w3))" "bufs w' = bufs w3"
    by (simp_all add: w' set_kern_def)
  ultimately have "0 \<le> r \<Longrightarrow> \<exists>t q e rq k k'. k_submiturb K (wrfd (lh_os x)) t rq k = (q, e, k') \<and> 0 \<le> q \<and>
      ur_usercontext rq = t \<and> ur_buffer rq = data \<and> trans w' t = None \<and> kern (os w') = k_cond_destroy K k'"
    using p' by blast
  then show ?thesis using p' tr by (auto simp: w' set_kern_def)
qed

lemma example_bulk:
  "map_option (\<lambda>(r, n, w). (r, n)) (libusby_bulk_transfer example_backend 3 0x81 90 16 0 example_world) = Some (0, Some 0)"
  by code_simp

theorem linux_bulk_transfer_does_not_wait_witness:
  "\<exists>w'. libusby_bulk_transfer example_backend 3 0x81 90 16 0 example_world = Some (0, Some 0, w') \<and>
    bufs w' = bufs example_world \<and>
    (\<exists>t q e rq k k'. k_submiturb example_kernel 7 t rq k = (q, e, k') \<and> 0 \<le> q \<and>
       ur_usercontext rq = t \<and> ur_buffer rq = 90 \<and> trans w' t = None)"
proof -
  obtain w' where run: "libusby_bulk_transfer example_backend 3 0x81 90 16 0 example_world = Some (0, Some 0, w')"
    using example_bulk by auto
  have ex: "hnds example_world 3 = Some example_handle" "devs example_world (lh_dev example_handle) = Some example_device"
    "ctxs example_world (ld_ctx example_device) = Some example_context" "loop_locked example_context = 0"
    "wrfd (lh_os example_handle) = 7"
    by (simp_all add: example_defs)
  show ?thesis using linux_bulk_transfer_does_not_wait [OF run ex(1-4)] run by (simp add: ex(5))
qed

end
