(* ===== verification/Linux_Control.thy ===== *)
theory Linux_Control
  imports Linux_Sync
begin

text \<open>
  Control transfers: what the device is sent (\<^verbatim>\<open>libusby_control_transfer\<close> in
  \<^verbatim>\<open>src/libusby.c\<close>), over every back end, and the whole request over the Linux
  back end (\<^verbatim>\<open>usbyb_perform_transfer\<close> in \<^verbatim>\<open>src/os/linux_usbfs.c\<close>).
\<close>

section \<open>The data stage of an output request\<close>

text \<open>
  C18: The data of a control transfer is never sent: over every back end, the memory of the
  caller has no influence on the result of \<open>libusby_control_transfer\<close> and on anything the back
  end or the operating system is given; two calls that differ only in it return the same value
  in the same world. The request carries the uninitialized bytes of the block from
  \<open>malloc\<close> in its place, and the memory is overwritten after an output request as after
  an input request.
\<close>

theorem control_data_not_sent:
  assumes "libusby_control_transfer be h rt rq v i data n timeout w = Some (r, res, w')" "length data2 = length data"
  shows "\<exists>res2. libusby_control_transfer be h rt rq v i data2 n timeout w = Some (r, res2, w')"
  using assms(1)
proof (cases rule: control_transfer_cases)
  case early
  then show ?thesis by blast
next
  case (run x d t w1 a w2 b b1 w3 q w4 w5)
  obtain res2 where "control_result be t a q data2 w4 = Some (r, res2)"
    using control_result_size [OF run(11) assms(2)] by blast
  then show ?thesis using control_transfer_run [OF run(1-10) _ run(12,13)] by blast
qed

lemma example_control_out:
  "map_option (\<lambda>(r, data, w). (r, data)) (libusby_control_transfer example_backend 3 0x40 1 2 3 [1, 2, 3] 3 0 example_world)
    = Some (3, [0xA5, 0xA5, 0xA5])"
  by code_simp

theorem control_data_not_sent_witness:
  "\<exists>w' res2. libusby_control_transfer example_backend 3 0x40 1 2 3 [1, 2, 3] 3 0 example_world
       = Some (3, [0xA5, 0xA5, 0xA5], w') \<and>
     libusby_control_transfer example_backend 3 0x40 1 2 3 [4, 5, 6] 3 0 example_world = Some (3, res2, w')"
proof -
  obtain w' where run: "libusby_control_transfer example_backend 3 0x40 1 2 3 [1, 2, 3] 3 0 example_world
      = Some (3, [0xA5, 0xA5, 0xA5], w')"
    using example_control_out by auto
  show ?thesis using control_data_not_sent [OF run, of "[4, 5, 6]"] run by simp
qed

section \<open>Control transfers on Linux\<close>

text \<open>The setup packet and the request the Linux back end makes of it.\<close>

lemma ctrl_request_setup:
  "ctrl_request (setup_packet rt rq v i n @ bs) = Some \<lparr> ct_bRequestType = rt, ct_bRequest = rq,
     ct_wValue = v, ct_wIndex = i, ct_wLength = n, ct_timeout = 0 \<rparr>"
  by (simp add: ctrl_request_def setup_packet_def rd_def)

text \<open>The steps, with memory available.\<close>

lemma linux_alloc_ok:
  assumes "plenty w" "0 < next_addr w" "k_cond_init K (kern (os w)) = (0, k)"
  shows "libusby_alloc_transfer (linux_backend K sz env cb) ctx 0 w = Some (next_addr w + sz_pub_offset sz,
    w\<lparr>next_addr := next_addr w + max 1 (transfer_alloc_size (sz_transfer sz) 0), n_mallocs := Suc (n_mallocs w),
      trans := (trans w)(next_addr w \<mapsto> (zero_transfer_of 0 zero_lx_transfer)\<lparr>it_ctx := ctx\<rparr>),
      os := (os w)\<lparr>kern := k\<rparr>\<rparr>)"
  using assms
  by (simp add: libusby_alloc_transfer_def new_transfer_def malloc_def plenty_def Let_def linux_usbyb_init_transfer_def
      upd_transfer_def usbyi_get_pub_tran_def zero_transfer_of_def zero_lx_transfer_def set_kern_def)

definition control_done :: "int \<Rightarrow> int \<Rightarrow> libusby_transfer \<Rightarrow> libusby_transfer" where
  "control_done q e p = (if q < 0 then p\<lparr>lt_status := status_code (control_status e)\<rparr>
    else p\<lparr>lt_actual_length := q + 8, lt_status := status_code LIBUSBY_TRANSFER_COMPLETED\<rparr>)"

lemma linux_perform_control:
  assumes "trans w t = Some z" "tr_pub z = control_pub h a n timeout" "hnds w h = Some x"
    "bufs w a = Some (setup_packet rt rq v i n @ bs)" "length bs = unat n"
    "k_control K (wrfd (lh_os x)) \<lparr>ct_bRequestType = rt, ct_bRequest = rq, ct_wValue = v, ct_wIndex = i,
       ct_wLength = n, ct_timeout = 0\<rparr> bs (kern (os w)) = (q, e, body, k)"
    "length body = unat n" "q \<le> int (unat n)"
  shows "libusby_perform_transfer (linux_backend K sz env cb) (t + sz_pub_offset sz) w = Some (err LIBUSBY_SUCCESS,
    w\<lparr>bufs := (bufs w)(a \<mapsto> setup_packet rt rq v i n @ body), os := (os w)\<lparr>kern := k\<rparr>,
      trans := (trans w)(t \<mapsto> z\<lparr>tr_pub := control_done q e (control_pub h a n timeout)\<rparr>)\<rparr>)"
proof -
  have "q + 8 \<le> INT_MAX" using assms(8) unat_u16_less [of n] unfolding INT_MAX_def by linarith
  then show ?thesis
    using assms
    by (cases "q < 0")
      (simp_all add: libusby_perform_transfer_def usbyi_get_tran_def linux_usbyb_perform_transfer_def ctrl_request_setup
        rd_block_def wr_block_def c_int_def INT_MIN_def control_done_def upd_transfer_def upd_pub_def set_kern_def)
qed

lemma linux_control_copy:
  assumes "pub_of be tran w = Some (control_done q e p)" "bufs w a = Some (setup_packet rt rq v i n @ body)"
    "q \<le> int (length body)" "q \<le> int (length data)"
  shows "control_result be tran a (err LIBUSBY_SUCCESS) data w =
    Some (if q < 0 then err LIBUSBY_ERROR_IO else q, if q < 0 then data else take (nat q) body @ drop (nat q) data)"
proof (cases "q < 0")
  case True
  then show ?thesis using assms(1) by (simp add: control_result_def control_done_def control_status_def)
next
  case False
  have fits: "nat q \<le> length body" "nat q \<le> length data" using assms(3,4) by (simp_all only: nat_le_iff)
  then have "rd_block (setup_packet rt rq v i n @ body) 8 (nat q) = Some (take (nat q) body)"
    "wr_block data 0 (take (nat q) body) = Some (take (nat q) body @ drop (nat q) data)"
    by (simp_all add: rd_block_def wr_block_def min_absorb2)
  then show ?thesis using False assms(1,2) by (simp add: control_result_def control_done_def c_assert_def)
qed

text \<open>
  C8: A control transfer on Linux, completely: with memory available, the kernel is asked once,
  for exactly the request type, request, value, index and length of the caller, with no timeout,
  and with the uninitialized contents of the buffer as its data. A failed request is an I/O error
  and leaves the memory of the caller alone; otherwise the bytes the kernel delivered are at the
  start of that memory and their number is the result. The transfer and the buffer are freed again,
  for which the kernel only destroys the condition variable of the transfer.
\<close>

theorem linux_control_transfer:
  assumes "hnds w h = Some x" "devs w (lh_dev x) = Some d" "plenty w" "0 < next_addr w"
    "\<forall>a \<ge> next_addr w. bufs w a = None \<and> trans w a = None"
    "k_cond_init K (kern (os w)) = (0, k1)"
    "k_control K (wrfd (lh_os x)) \<lparr>ct_bRequestType = rt, ct_bRequest = rq, ct_wValue = v, ct_wIndex = i,
       ct_wLength = n, ct_timeout = 0\<rparr> (map (junk w (Suc (n_mallocs w))) [8..<8 + unat n]) k1 = (q, e, body, k2)"
    "length body = unat n" "q \<le> int (unat n)" "q \<le> int (length data)"
  shows "\<exists>w'. libusby_control_transfer (linux_backend K sz env cb) h rt rq v i data n timeout w =
      Some (if q < 0 then err LIBUSBY_ERROR_IO else q,
        if q < 0 then data else take (nat q) body @ drop (nat q) data, w') \<and>
    kern (os w') = k_cond_destroy K k2 \<and> bufs w' = bufs w \<and> trans w' = trans w \<and> devs w' = devs w \<and> hnds w' = hnds w"
proof -
  let ?be = "linux_backend K sz env cb" and ?off = "sz_pub_offset sz" and ?t = "next_addr w" and ?p = "control_pub h"
  let ?stp = "setup_packet rt rq v i n" and ?z = "(zero_transfer_of 0 zero_lx_transfer)\<lparr>it_ctx := ld_ctx d\<rparr>"
  define a where "a = ?t + max 1 (transfer_alloc_size (sz_transfer sz) 0)"
  define w1 where "w1 = w\<lparr>next_addr := a, n_mallocs := Suc (n_mallocs w), trans := (trans w)(?t \<mapsto> ?z), os := (os w)\<lparr>kern := k1\<rparr>\<rparr>"
  define w3 where "w3 = control_ready ?t ?z (?p a n timeout) ?stp (unat n) w1"
  define w4 where "w4 = w3\<lparr>bufs := (bufs w)(a \<mapsto> ?stp @ body), os := (os w)\<lparr>kern := k2\<rparr>,
    trans := (trans w)(?t \<mapsto> ?z\<lparr>tr_pub := control_done q e (?p a n timeout)\<rparr>)\<rparr>"
  define w5 where "w5 = w4\<lparr>bufs := bufs w, trans := trans w, os := (os w)\<lparr>kern := k_cond_destroy K k2\<rparr>\<rparr>"
  note w_defs = w5_def w4_def w3_def control_ready_def w1_def
  have a: "a \<noteq> 0" "?t + ?off \<noteq> 0" "?t \<noteq> 0" using assms(4) by (auto simp: a_def)
  have fresh: "(bufs w)(a := None) = bufs w" "(trans w)(?t := None) = trans w"
    using assms(5) by (auto simp: fun_eq_iff a_def)
  have al: "libusby_alloc_transfer ?be (ld_ctx d) 0 w = Some (?t + usbyb_transfer_pub_offset ?be, w1)"
    by (simp add: linux_alloc_ok [OF assms(3,4,6)] w1_def a_def)
  have w1: "next_addr w1 = a" "trans w1 ?t = Some ?z" "tr_pub ?z = zero_transfer_pub 0" "plenty w1" "0 < next_addr w1"
    using a(1) assms(3) by (simp_all add: w1_def zero_transfer_of_def plenty_def)
  have "libusby_perform_transfer ?be (?t + ?off) w3 = Some (err LIBUSBY_SUCCESS, w4)"
    using linux_perform_control [of w3 ?t "?z\<lparr>tr_pub := ?p a n timeout\<rparr>" h a n timeout x rt rq v i
        "map (junk w (Suc (n_mallocs w))) [8..<8 + unat n]" K q e body k2 sz env cb] assms
    by (simp add: w_defs)
  moreover have "pub_of ?be (?t + ?off) w4 = Some (control_done q e (?p a n timeout))" "bufs w4 a = Some (?stp @ body)"
    by (simp_all add: pub_of_def usbyi_get_tran_def w4_def)
  then have "control_result ?be (?t + ?off) a (err LIBUSBY_SUCCESS) data w4 = Some (if q < 0 then err LIBUSBY_ERROR_IO else q,
      if q < 0 then data else take (nat q) body @ drop (nat q) data)"
    using assms(8-10) by (intro linux_control_copy) simp_all
  moreover have "free_buf a w4 = Some (w4\<lparr>bufs := bufs w\<rparr>)"
    using a(1) fresh(1) by (simp add: free_buf_def free_block_def w4_def)
  moreover have "libusby_free_transfer ?be (?t + ?off) (w4\<lparr>bufs := bufs w\<rparr>) = Some w5"
    using a(3) fresh(2)
    by (simp add: libusby_free_transfer_def usbyi_get_tran_def linux_usbyb_clear_transfer_def free_transfer_def
        free_block_def set_kern_def w4_def w5_def)
  ultimately have "libusby_control_transfer ?be h rt rq v i data n timeout w = Some (if q < 0 then err LIBUSBY_ERROR_IO else q,
      if q < 0 then data else take (nat q) body @ drop (nat q) data, w5)"
    using control_transfer_ready [OF assms(1,2) al a(3) w1(2-5)] by (simp add: w1(1) w3_def)
  then show ?thesis by (simp add: w_defs)
qed

theorem linux_control_transfer_witness:
  "\<exists>w'. libusby_control_transfer example_backend 3 0x80 6 0x100 0 [0, 0, 0] 2 0 example_world
     = Some (2, [0xA5, 0xA5, 0], w') \<and> bufs w' = bufs example_world"
proof -
  have ex: "hnds example_world 3 = Some example_handle" "devs example_world (lh_dev example_handle) = Some example_device"
    "plenty example_world" "0 < next_addr example_world"
    "\<forall>a \<ge> next_addr example_world. bufs example_world a = None \<and> trans example_world a = None"
    "k_cond_init example_kernel (kern (os example_world)) = (0, ())"
    "k_control example_kernel (wrfd (lh_os example_handle)) \<lparr>ct_bRequestType = 0x80, ct_bRequest = 6, ct_wValue = 0x100,
       ct_wIndex = 0, ct_wLength = 2, ct_timeout = 0\<rparr>
       (map (junk example_world (Suc (n_mallocs example_world))) [8..<8 + unat (2 :: u16)]) () = (2, 0, [0xA5, 0xA5], ())"
    by (simp_all add: example_defs plenty_def upt_rec)
  show ?thesis
    using linux_control_transfer [OF ex, of "[0, 0, 0]" example_sizes Some "\<lambda>_ _. Some" 0] by auto
qed

end
