(* ===== verification/Linux_Watch.thy ===== *)
theory Linux_Watch
  imports Linux_Sync
begin

text \<open>
  The table of watched file descriptors of a context of the Linux back end as a state machine:
  a descriptor enters it when a transfer is submitted and is given up when one completes or its
  submission fails (\<^verbatim>\<open>usbyb_submit_transfer\<close>, \<^verbatim>\<open>usbfs_unwatch_fd\<close>,
  \<^verbatim>\<open>usbfs_run_event_loop_impl\<close> in \<^verbatim>\<open>src/os/linux_usbfs.c\<close>).
\<close>

section \<open>Steps\<close>

text \<open>The members of a context that make the table: its array, its length, its capacity.\<close>

definition table_of :: "addr \<Rightarrow> 'k lx_world \<Rightarrow> (addr \<times> int \<times> int) option" where
  "table_of ctx w = map_option (\<lambda>c. (watched_fds c, watched_fd_count c, watched_fd_capacity c)) (ctxs w ctx)"

text \<open>Everything else in the library and in the kernel may change at any time.\<close>

inductive table_step :: "addr \<Rightarrow> 'k lx_world \<Rightarrow> 'k lx_world \<Rightarrow> bool" for ctx where
  watch: "table_step ctx w w'" if "watch_fd ctx fd w = Some (r, i, w')"
| unwatch: "table_step ctx w w'" if "usbfs_unwatch_fd ctx i w = Some w'"
| elsewhere: "table_step ctx w w'" if "wfds (os w') = wfds (os w)" "table_of ctx w' = table_of ctx w"

definition table_run :: "addr \<Rightarrow> 'k lx_world \<Rightarrow> 'k lx_world \<Rightarrow> bool" where
  "table_run ctx = (table_step ctx)\<^sup>*\<^sup>*"

section \<open>The table as a list\<close>

text \<open>The entries in use, in an array whose other elements were never stored.\<close>

definition table_shape :: "(addr \<rightharpoonup> watched_fd option list) \<Rightarrow> addr \<Rightarrow> int \<Rightarrow> int \<Rightarrow> watched_fd list \<Rightarrow> bool" where
  "table_shape W a count cap es \<longleftrightarrow> W 0 = None \<and> count = int (length es) \<and>
     (if cap = 0 then es = [] \<and> a = 0
      else a \<noteq> 0 \<and> (\<exists>n. W a = Some (map Some es @ replicate n None) \<and> cap = int (length es + n)))"

definition watched_table :: "addr \<Rightarrow> 'k lx_world \<Rightarrow> watched_fd list \<Rightarrow> bool" where
  "watched_table ctx w es \<longleftrightarrow> (\<exists>a count cap. table_of ctx w = Some (a, count, cap) \<and> table_shape (wfds (os w)) a count cap es)"

lemma find_watched_result:
  "find_watched (map Some es @ rest) fd k n = Some i \<Longrightarrow> k + n = length es \<Longrightarrow> i \<le> length es"
proof (induction n arbitrary: k)
  case 0
  then show ?case by simp
next
  case (Suc n)
  then have "rd (map Some es @ rest) k = Some (Some (es ! k))" by (simp add: rd_def nth_append)
  then show ?case using Suc by (auto split: if_splits)
qed

text \<open>The array after \<open>realloc\<close>.\<close>

lemma realloc_watched_grown:
  assumes "realloc_watched old m w = Some (p, w')" "if old = 0 then arr = [] else wfds (os w) old = Some arr"
    "p \<noteq> 0" "length arr \<le> m"
  shows "wfds (os w') = (wfds (os w))(old := None, p \<mapsto> arr @ replicate (m - length arr) None)"
proof -
  have "take m (arr @ replicate (m - length arr) None) = arr @ replicate (m - length arr) None"
    using assms(4) by simp
  then show ?thesis
    using assms(1-3) by (cases rule: malloc_cases [of "8 * m" w])
      (auto simp: realloc_watched_def set_wfds_def split: if_splits)
qed

lemma realloc_watched_null:
  "realloc_watched old m w = Some (0, w') \<Longrightarrow> wfds (os w') = wfds (os w)"
  by (cases rule: malloc_cases [of "8 * m" w]) (auto simp: realloc_watched_def bind_Some_conv split: if_splits)

text \<open>
  A full table grows, or its array becomes the null pointer, through which nothing can be stored.
\<close>

lemma grow_watched_table:
  assumes tab: "watched_table ctx w es" and run: "grow_watched ctx w = Some (r, w1)"
  shows "(\<exists>a cap n. table_of ctx w1 = Some (a, int (length es), cap) \<and> a \<noteq> 0 \<and> cap = int (length es + n) \<and>
      wfds (os w1) 0 = None \<and> wfds (os w1) a = Some (map Some es @ replicate n None) \<and> cap \<noteq> 0) \<or>
    (\<exists>n cap. table_of ctx w1 = Some (0, n, cap) \<and> wfds (os w1) 0 = None)"
proof -
  obtain c where c: "ctxs w ctx = Some c"
    and sh: "table_shape (wfds (os w)) (watched_fds c) (watched_fd_count c) (watched_fd_capacity c) es"
    using tab by (auto simp: watched_table_def table_of_def)
  show ?thesis
  proof (cases "watched_fd_count c = watched_fd_capacity c")
    case False
    then have "w1 = w" using run c by (simp add: grow_watched_def)
    then show ?thesis using c sh False by (auto simp: table_shape_def table_of_def split: if_splits)
  next
    case full: True
    define cap where "cap = (if watched_fd_capacity c = 0 then 4 else watched_fd_capacity c * 3 div 2)"
    obtain p w2 where w2: "realloc_watched (watched_fds c) (nat cap) w = Some (p, w2)"
      "upd_context ctx (\<lambda>c. c\<lparr>watched_fds := p, watched_fd_capacity := cap\<rparr>) w2 = Some w1"
      using run c full by (auto simp: grow_watched_def bind_Some_conv c_int_Some Let_def cap_def)
    have "ctxs w2 ctx = Some c" using realloc_watched_frame(5) [OF w2(1)] c by simp
    then have t1: "table_of ctx w1 = Some (p, int (length es), cap)" and W1: "wfds (os w1) = wfds (os w2)"
      using w2(2) sh by (auto simp: upd_Some table_of_def table_shape_def)
    show ?thesis
    proof (cases "p = 0")
      case True
      then have "wfds (os w2) = wfds (os w)" using realloc_watched_null w2(1) by blast
      then show ?thesis using True t1 W1 sh by (simp add: table_shape_def)
    next
      case False
      have arr: "if watched_fds c = 0 then map Some es = [] else wfds (os w) (watched_fds c) = Some (map Some es)"
        using sh full by (auto simp: table_shape_def split: if_splits)
      have k: "0 \<le> watched_fd_capacity c" "int (length es) = watched_fd_capacity c"
        using sh full by (auto simp: table_shape_def split: if_splits)
      have "watched_fd_capacity c \<le> cap \<and> 0 < cap" using k(1) by (auto simp: cap_def)
      then have len: "length es \<le> nat cap" "0 < cap" using k(2) by linarith+
      have "wfds (os w2) = (wfds (os w))(watched_fds c := None, p \<mapsto> map Some es @ replicate (nat cap - length es) None)"
        using realloc_watched_grown [OF w2(1) arr False] len(1) by simp
      then show ?thesis
        using t1 W1 sh False len by (auto simp: table_shape_def intro!: exI [of _ "nat cap - length es"])
    qed
  qed
qed

text \<open>Watching appends an entry without references, unless there is one for the descriptor.\<close>

lemma watch_table:
  assumes tab: "watched_table ctx w es" and run: "watch_fd ctx fd w = Some (r, i, w')"
  shows "watched_table ctx w' es \<or> watched_table ctx w' (es @ [\<lparr>wf_fd = fd, wf_refcount = 0\<rparr>])"
proof -
  obtain c where c: "ctxs w ctx = Some c"
    and sh: "table_shape (wfds (os w)) (watched_fds c) (watched_fd_count c) (watched_fd_capacity c) es"
    using tab by (auto simp: watched_table_def table_of_def)
  obtain arr i0 where a: "(if watched_fd_count c = 0 then Some [] else wfds (os w) (watched_fds c)) = Some arr"
    "find_watched arr fd 0 (nat (watched_fd_count c)) = Some i0"
    using run c by (auto simp: watch_fd_def bind_Some_conv c_assert_Some)
  have cnt: "watched_fd_count c = int (length es)" using sh by (simp add: table_shape_def)
  show ?thesis
  proof (cases "i0 = length es")
    case False
    then have "w' = w" using run c a cnt by (auto simp: watch_fd_def c_assert_def split: if_splits)
    then show ?thesis using tab by simp
  next
    case True
    obtain r1 w1 where w1: "grow_watched ctx w = Some (r1, w1)" "store_watched ctx i0 fd w1 = Some w'"
      using run c a cnt True by (auto simp: watch_fd_def c_assert_def bind_Some_conv)
    obtain c1 where c1: "ctxs w1 ctx = Some c1" using w1(2) by (auto simp: store_watched_def bind_Some_conv)
    from w1(2) c1 obtain arr1 arr2 where s: "wfds (os w1) (watched_fds c1) = Some arr1" "i0 < length arr1"
      "arr2 = arr1[i0 := Some \<lparr>wf_fd = fd, wf_refcount = 0\<rparr>]"
      "wfds (os w') = (wfds (os w1))(watched_fds c1 \<mapsto> arr2)"
      "table_of ctx w' = Some (watched_fds c1, watched_fd_count c1 + 1, watched_fd_capacity c1)"
      by (auto simp: store_watched_def bind_Some_conv upd_Some wr_Some c_int_Some set_wfds_def table_of_def)
    from grow_watched_table [OF tab w1(1)] s(1) c1 obtain n where n: "watched_fds c1 \<noteq> 0" "watched_fd_count c1 = int (length es)"
      "watched_fd_capacity c1 = int (length es + n)" "wfds (os w1) 0 = None" "arr1 = map Some es @ replicate n None"
      by (auto simp: table_of_def)
    then obtain m where m: "n = Suc m" using s(2) True by (cases n) auto
    have "arr2 = map Some (es @ [\<lparr>wf_fd = fd, wf_refcount = 0\<rparr>]) @ replicate m None"
      by (simp add: s(3) n(5) m True list_update_append)
    then have "table_shape (wfds (os w')) (watched_fds c1) (watched_fd_count c1 + 1) (watched_fd_capacity c1)
        (es @ [\<lparr>wf_fd = fd, wf_refcount = 0\<rparr>])"
      using n s(4) m by (simp add: table_shape_def)
    then show ?thesis using s(5) by (auto simp: watched_table_def)
  qed
qed

text \<open>Giving up a descriptor without references takes its count below zero, never to zero.\<close>

lemma unwatch_table:
  assumes tab: "watched_table ctx w es" and neg: "list_all (\<lambda>e. wf_refcount e \<le> 0) es"
    and run: "usbfs_unwatch_fd ctx i w = Some w'"
  shows "i < length es \<and> watched_table ctx w' (es[i := (es ! i)\<lparr>wf_refcount := wf_refcount (es ! i) - 1\<rparr>])"
proof -
  obtain c where c: "ctxs w ctx = Some c"
    and sh: "table_shape (wfds (os w)) (watched_fds c) (watched_fd_count c) (watched_fd_capacity c) es"
    using tab by (auto simp: watched_table_def table_of_def)
  obtain arr e where a: "wfds (os w) (watched_fds c) = Some arr" "rd arr i = Some (Some e)"
    using run c by (auto simp: usbfs_unwatch_fd_def bind_Some_conv)
  obtain n where n: "arr = map Some es @ replicate n None" "watched_fds c \<noteq> 0" "watched_fd_capacity c = int (length es + n)"
    "watched_fd_count c = int (length es)" "wfds (os w) 0 = None"
    using sh a(1) by (auto simp: table_shape_def split: if_splits)
  have i: "i < length es" "e = es ! i" using a(2) by (auto simp: n(1) rd_Some nth_append split: if_splits)
  then have "wf_refcount e \<le> 0" using neg by (simp add: list_all_length)
  then have w': "w' = set_wfds ((wfds (os w))(watched_fds c \<mapsto> arr[i := Some (e\<lparr>wf_refcount := wf_refcount e - 1\<rparr>)])) w"
    using run c a i(1) by (auto simp: usbfs_unwatch_fd_def bind_Some_conv c_int_Some wr_Some n(1) Let_def)
  have "arr[i := Some (e\<lparr>wf_refcount := wf_refcount e - 1\<rparr>)]
      = map Some (es[i := (es ! i)\<lparr>wf_refcount := wf_refcount (es ! i) - 1\<rparr>]) @ replicate n None"
    using i by (simp add: n(1) list_update_append map_update)
  then have "table_shape (wfds (os w')) (watched_fds c) (watched_fd_count c) (watched_fd_capacity c)
      (es[i := (es ! i)\<lparr>wf_refcount := wf_refcount (es ! i) - 1\<rparr>])"
    using n i(1) by (simp add: table_shape_def w')
  moreover have "table_of ctx w' = Some (watched_fds c, watched_fd_count c, watched_fd_capacity c)"
    by (simp add: w' table_of_def c)
  ultimately show ?thesis using i(1) by (auto simp: watched_table_def)
qed

section \<open>Runs\<close>

lemma table_step_grows:
  assumes "table_step ctx w w'" "watched_table ctx w es" "list_all (\<lambda>e. wf_refcount e \<le> 0) es"
  shows "\<exists>es'. watched_table ctx w' es' \<and> list_all (\<lambda>e. wf_refcount e \<le> 0) es' \<and>
    (\<exists>more. map wf_fd es' = map wf_fd es @ more)"
  using assms
proof cases
  case (watch fd r i)
  then show ?thesis using watch_table [OF assms(2) watch] assms(3) by auto
next
  case (unwatch i)
  let ?e = "(es ! i)\<lparr>wf_refcount := wf_refcount (es ! i) - 1\<rparr>"
  have i: "i < length es" "watched_table ctx w' (es[i := ?e])" using unwatch_table [OF assms(2,3) unwatch] by simp_all
  then have "map wf_fd (es[i := ?e]) = map wf_fd es" by (simp add: map_update list_update_same_conv)
  moreover have "list_all (\<lambda>e. wf_refcount e \<le> 0) (es[i := ?e])"
    using assms(3) i(1) by (auto simp: list_all_length nth_list_update)
  ultimately show ?thesis using i(2) by (intro exI [of _ "es[i := ?e]"]) simp
next
  case elsewhere
  then have "watched_table ctx w' es" using assms(2) by (simp add: watched_table_def)
  then show ?thesis using assms(3) by auto
qed

text \<open>
  C22: A watched descriptor is watched for ever: in every run from a table whose entries have no
  references (as that of a new context, and as the code creates every entry), no submission
  and no completion ever removes an entry; the polled descriptors only grow at the end. The
  count of an entry starts at 0, is never incremented and is decremented with each completed
  transfer, so that it never reaches the 0 on which \<open>usbfs_unwatch_fd\<close> would remove it. The
  event loop keeps polling the descriptors of closed handles.
\<close>

theorem linux_watched_never_removed:
  assumes "table_run ctx w w'" "watched_table ctx w es" "list_all (\<lambda>e. wf_refcount e \<le> 0) es"
  shows "\<exists>es'. watched_table ctx w' es' \<and> list_all (\<lambda>e. wf_refcount e \<le> 0) es' \<and>
    (\<exists>more. map wf_fd es' = map wf_fd es @ more)"
  using assms(1) unfolding table_run_def
proof (induction rule: rtranclp_induct)
  case base
  then show ?case using assms(2,3) by auto
next
  case (step w1 w2)
  then obtain es1 more where es1: "watched_table ctx w1 es1" "list_all (\<lambda>e. wf_refcount e \<le> 0) es1"
    "map wf_fd es1 = map wf_fd es @ more"
    by blast
  from table_step_grows [OF step(2) es1(1,2)] es1(3) show ?case by auto
qed

text \<open>A submission and its completion leave the descriptor 7 in the table, with the count -1.\<close>

lemma example_watch:
  "map_option (\<lambda>(r, i, w). (r, i)) (watch_fd 1 7 example_world) = Some (0, 0)"
  "map_option (\<lambda>w. map_option watched_fd_count (ctxs w 1))
    (watch_fd 1 7 example_world \<bind> (\<lambda>(r, i, w). usbfs_unwatch_fd 1 i w)) = Some (Some 1)"
  by code_simp+

theorem linux_watched_never_removed_witness:
  "\<exists>w' es'. table_run 1 example_world w' \<and> watched_table 1 w' es' \<and> list_all (\<lambda>e. wf_refcount e \<le> 0) es' \<and> length es' = 1"
proof -
  obtain w1 where w1: "watch_fd 1 7 example_world = Some (0, 0, w1)" using example_watch(1) by auto
  then obtain w2 where w2: "usbfs_unwatch_fd 1 0 w1 = Some w2" "map_option watched_fd_count (ctxs w2 1) = Some 1"
    using example_watch(2) by auto
  have "table_run 1 example_world w2"
    unfolding table_run_def
    by (rule rtranclp.rtrancl_into_rtrancl [OF r_into_rtranclp [where r = "table_step 1", OF table_step.watch [OF w1]]
          table_step.unwatch [OF w2(1)]])
  moreover have "watched_table 1 example_world []"
    by (simp add: watched_table_def table_of_def table_shape_def example_defs)
  ultimately obtain es where "watched_table 1 w2 es" "list_all (\<lambda>e. wf_refcount e \<le> 0) es"
    using linux_watched_never_removed [of 1 example_world w2 "[]"] by auto
  moreover from this(1) have "length es = 1" using w2(2) by (auto simp: watched_table_def table_of_def table_shape_def)
  ultimately show ?thesis using \<open>table_run 1 example_world w2\<close> by blast
qed

end
