(* ===== verification/Linux_Events.thy ===== *)
theory Linux_Events
  imports Linux_Sync
begin

text \<open>
  Contexts, the event loop, configurations and known devices of the Linux back end: what stops
  the loop, what completes a transfer, what initialization and exit leave, what a configuration
  that was set reads back as, and the search of the enumeration in the ring of devices.
\<close>

section \<open>Stopping the event loop\<close>

lemma wait_unlocked_disabled: "ctxs w ctx = Some c \<Longrightarrow> loop_enabled c = 0 \<Longrightarrow> wait_unlocked env ctx w = Some w"
  by (subst wait_unlocked.simps) simp

lemma event_loop_disabled:
  "ctxs w ctx = Some c \<Longrightarrow> loop_enabled c = 0 \<Longrightarrow> event_loop K env cb ctx None cap r w = Some (r, w)"
  by (subst event_loop.simps) (simp add: still_waiting_def)

text \<open>The two members that decide whether a run ends at once: the flag of the loop, and the mutex.\<close>

definition loop_flags :: "addr \<Rightarrow> 'k lx_world \<Rightarrow> (int \<times> bool) option" where
  "loop_flags ctx w = map_option (\<lambda>c. (loop_enabled c, ctx_mutex c)) (ctxs w ctx)"

lemma loop_flags_Some:
  "loop_flags ctx w = Some (e, m) \<longleftrightarrow> (\<exists>c. ctxs w ctx = Some c \<and> loop_enabled c = e \<and> ctx_mutex c = m)"
  by (auto simp: loop_flags_def)

lemma loop_flags_cong: "ctxs w' = ctxs w \<Longrightarrow> loop_flags ctx w' = loop_flags ctx w"
  by (simp add: loop_flags_def)

lemma lock_flags:
  assumes "mutex_lock ctx w = Some w'"
  shows "\<exists>e. loop_flags ctx w = Some (e, False) \<and> (\<forall>c. loop_flags c w' = (if c = ctx then Some (e, True) else loop_flags c w))"
  using assms by (auto simp: mutex_lock_def bind_Some_conv c_assert_Some upd_Some loop_flags_def)

lemma unlock_flags:
  assumes "mutex_unlock ctx w = Some w'"
  shows "\<exists>e. loop_flags ctx w = Some (e, True) \<and> (\<forall>c. loop_flags c w' = (if c = ctx then Some (e, False) else loop_flags c w))"
  using assms by (auto simp: mutex_unlock_def bind_Some_conv c_assert_Some upd_Some loop_flags_def)

lemma table_only_flags: "table_only ctx w w' \<Longrightarrow> loop_flags c w' = loop_flags c w"
  by (auto simp: table_only_def loop_flags_def)

text \<open>Submission, to whichever context it is, takes the mutex, gives it back, and does not touch the flag of the loop.\<close>

lemma submit_flags:
  assumes run: "linux_usbyb_submit_transfer K t w = Some (r, w')"
  shows "loop_flags ctx w' = loop_flags ctx w"
proof -
  obtain x h d where x: "trans w t = Some x" "hnds w (lt_dev_handle (tr_pub x)) = Some h" "devs w (lh_dev h) = Some d"
    and it: "ld_ctx d = it_ctx x"
    using run by (auto simp: linux_usbyb_submit_transfer_def Let_def bind_Some_conv c_assert_Some)
  let ?dc = "it_ctx x" and ?fd = "wrfd (lh_os h)"
  show ?thesis
  proof (cases "urb_type (lt_type (tr_pub x))")
    case None
    then show ?thesis using run x it
      by (auto simp: linux_usbyb_submit_transfer_def Let_def bind_Some_conv upd_Some loop_flags_def)
  next
    case (Some ty)
    define w1 where "w1 = w\<lparr>trans := (trans w)(t \<mapsto> x\<lparr>tr_os := (tr_os x)\<lparr>req := urb_of t (tr_pub x) ty\<rparr>\<rparr>)\<rparr>"
    note rest = submit_locked_run(2) [OF run x Some, unfolded it, folded w1_def, unfolded submit_locked_def]
    obtain w2 r3 i w3 where w2: "mutex_lock ?dc w1 = Some w2" and w3: "watch_fd ?dc ?fd w2 = Some (r3, i, w3)"
      using rest by (auto simp: bind_Some_conv)
    obtain q e k where k: "k_submiturb K ?fd t (urb_of t (tr_pub x) ty) (kern (os w3)) = (q, e, k)" by (metis prod_cases3)
    obtain r4 w4 where w4: "(if r3 \<ge> 0 then if q < 0 then do { w \<leftarrow> usbfs_unwatch_fd ?dc i (set_kern k w3); Some (usbfs_error e, w) }
           else Some (r3, set_kern k w3) else Some (r3, w3)) = Some (r4, w4)"
      using rest w2 w3 k by (auto simp: bind_Some_conv Let_def cong: if_cong)
    obtain c where c: "ctxs w4 ?dc = Some c"
      using rest w2 w3 k w4 by (auto simp: bind_Some_conv Let_def cong: if_cong)
    obtain w5 where w5: "(if r4 \<ge> 0 \<and> loop_locked c \<noteq> 0 then
           upd_transfer t (\<lambda>t. t\<lparr>tr_os := (tr_os t)\<lparr>active := 1\<rparr>\<rparr>) (set_kern (snd (k_write K (pipe1 c) [117] (kern (os w4)))) w4)
         else Some w4) = Some w5" "mutex_unlock ?dc w5 = Some w'"
      using rest w2 w3 k w4 c by (auto simp: bind_Some_conv Let_def cong: if_cong)
    have "loop_flags c' w5 = loop_flags c' w4" for c'
      using w5(1) by (auto simp: upd_Some loop_flags_def split: if_splits)
    moreover have "loop_flags c' w4 = loop_flags c' w3" for c'
    proof (cases "r3 \<ge> 0 \<and> q < 0")
      case True
      then have "usbfs_unwatch_fd ?dc i (set_kern k w3) = Some w4" using w4 by (auto simp: bind_Some_conv)
      from table_only_flags [OF unwatch_table_only [OF this]] show ?thesis by (simp add: loop_flags_def)
    next
      case False
      then show ?thesis using w4 by (auto simp: loop_flags_def split: if_splits)
    qed
    moreover have "loop_flags c' w3 = loop_flags c' w2" for c' by (rule table_only_flags [OF watch_table_only [OF w3]])
    moreover have "loop_flags c' w1 = loop_flags c' w" for c' by (rule loop_flags_cong) (simp add: w1_def)
    ultimately show ?thesis using lock_flags [OF w2] unlock_flags [OF w5(2)] by auto
  qed
qed

text \<open>
  What can happen between a stop and a reset: runs of the loop, further stops, submissions and
  cancellations on any context, and whatever else leaves the two members as they are.
\<close>

type_synonym 'k lx_backend = "(lx_context, lx_device, lx_handle, lx_transfer, 'k linux_os) backend"

inductive stopped_step :: "'k lx_backend \<Rightarrow> addr \<Rightarrow> 'k lx_world \<Rightarrow> 'k lx_world \<Rightarrow> bool" for be ctx where
  run: "stopped_step be ctx w w'" if "libusby_run_event_loop be ctx w = Some (r, w')"
| stop: "stopped_step be ctx w w'" if "libusby_stop_event_loop be ctx w = Some w'"
| submit: "stopped_step be ctx w w'" if "libusby_submit_transfer be tran w = Some (r, w')"
| cancel: "stopped_step be ctx w w'" if "libusby_cancel_transfer be tran w = Some (r, w')"
| elsewhere: "stopped_step be ctx w w'" if "loop_flags ctx w' = loop_flags ctx w"

lemma ioctl_result_ctxs: "ioctl_result x w = (r, w') \<Longrightarrow> ctxs w' = ctxs w"
  by (cases x) (auto simp: ioctl_result_def)

lemma stop_flags:
  assumes "libusby_stop_event_loop (linux_backend K sz env cb) ctx w = Some w'"
  shows "loop_flags ctx w' = Some (0, False)"
  using assms
  by (auto simp: libusby_stop_event_loop_def linux_usbyb_stop_event_loop_def mutex_lock_def mutex_unlock_def
      upd_context_def loop_flags_def c_assert_def Let_def bind_Some_conv split: if_splits)

text \<open>A run then changes nothing but the mark that a loop is running, which it leaves cleared.\<close>

lemma run_stopped:
  assumes "loop_flags ctx w = Some (0, False)"
  shows "\<exists>c. ctxs w ctx = Some c \<and> loop_enabled c = 0 \<and> \<not> ctx_mutex c \<and>
    libusby_run_event_loop (linux_backend K sz env cb) ctx w =
      Some (err LIBUSBY_SUCCESS, w\<lparr>ctxs := (ctxs w)(ctx \<mapsto> c\<lparr>loop_locked := 0\<rparr>)\<rparr>)"
proof -
  obtain c where c: "ctxs w ctx = Some c" "loop_enabled c = 0" "\<not> ctx_mutex c" using assms by (auto simp: loop_flags_def)
  have same: "c\<lparr>loop_locked := 0, ctx_mutex := False\<rparr> = c\<lparr>loop_locked := 0\<rparr>" using c(3) by (cases c) simp
  have "libusby_run_event_loop (linux_backend K sz env cb) ctx w =
      Some (err LIBUSBY_SUCCESS, w\<lparr>ctxs := (ctxs w)(ctx \<mapsto> c\<lparr>loop_locked := 0, ctx_mutex := False\<rparr>)\<rparr>)"
    using c
    by (simp add: libusby_run_event_loop_def linux_usbyb_run_event_loop_def usbfs_run_event_loop_impl_def
        mutex_lock_def mutex_unlock_def upd_context_def event_loop_disabled wait_unlocked_disabled)
  then show ?thesis using c unfolding same by blast
qed

lemma stopped_step_flags:
  assumes "stopped_step (linux_backend K sz env cb) ctx w w'" "loop_flags ctx w = Some (0, False)"
  shows "loop_flags ctx w' = Some (0, False)"
  using assms(1)
proof cases
  case (run r)
  then show ?thesis using run_stopped [OF assms(2), of K sz env cb] by (auto simp: loop_flags_def)
next
  case stop
  then show ?thesis by (rule stop_flags)
next
  case (submit tran r)
  then have "linux_usbyb_submit_transfer K (usbyi_get_tran (sz_pub_offset sz) tran) w = Some (r, w')"
    by (simp add: libusby_submit_transfer_def)
  from submit_flags [OF this] assms(2) show ?thesis by simp
next
  case (cancel tran r)
  then have "ctxs w' = ctxs w"
    by (auto simp: libusby_cancel_transfer_def linux_usbyb_cancel_transfer_def bind_Some_conv dest: ioctl_result_ctxs)
  then show ?thesis using assms(2) by (simp add: loop_flags_def)
qed (use assms(2) in simp)

lemma reset_enables:
  assumes "loop_flags ctx w = Some (e, False)"
  shows "\<exists>w'. libusby_reset_event_loop (linux_backend K sz env cb) ctx w = Some w' \<and> loop_flags ctx w' = Some (1, False)"
  using assms
  by (auto simp: libusby_reset_event_loop_def linux_usbyb_reset_event_loop_def mutex_lock_def mutex_unlock_def
      upd_context_def loop_flags_def c_assert_def)

text \<open>
  C19: A stop request is not lost: after \<open>libusby_stop_event_loop\<close>, whether or not a loop was
  running, each call of \<open>libusby_run_event_loop\<close> returns success, at once and without waiting, a system
  call or a callback, and changes nothing but the mark of a running loop, until
  \<open>libusby_reset_event_loop\<close>: however often it has run since, whatever has been submitted and
  cancelled, and whatever other threads have done, as long as they neither reset the loop nor keep
  its mutex. The reset is then defined and enables the loop again.
\<close>

theorem linux_stop_ends_loop:
  assumes "libusby_stop_event_loop (linux_backend K sz env cb) ctx w = Some w1"
    "(stopped_step (linux_backend K sz env cb) ctx)\<^sup>*\<^sup>* w1 w2"
  shows "(\<exists>c w3. libusby_run_event_loop (linux_backend K sz env cb) ctx w2 = Some (err LIBUSBY_SUCCESS, w3) \<and>
      ctxs w2 ctx = Some c \<and> w3 = w2\<lparr>ctxs := (ctxs w2)(ctx \<mapsto> c\<lparr>loop_locked := 0\<rparr>)\<rparr> \<and>
      stopped_step (linux_backend K sz env cb) ctx w2 w3) \<and>
    (\<exists>w4. libusby_reset_event_loop (linux_backend K sz env cb) ctx w2 = Some w4 \<and> loop_flags ctx w4 = Some (1, False))"
proof -
  have "loop_flags ctx w2 = Some (0, False)"
    using assms(2)
  proof (induction rule: rtranclp_induct)
    case base
    show ?case using stop_flags [OF assms(1)] .
  next
    case (step u v)
    then show ?case by (intro stopped_step_flags [OF step(2)])
  qed
  then show ?thesis using run_stopped [of ctx w2 K sz env cb] reset_enables [of ctx w2 0 K sz env cb] stopped_step.run by metis
qed

lemma example_stop: "map_option (\<lambda>w. 0) (libusby_stop_event_loop example_backend 1 example_world) = Some (0 :: nat)"
  by code_simp

text \<open>Two runs after one stop.\<close>

theorem linux_stop_ends_loop_witness:
  "\<exists>w1 w2 w3. libusby_stop_event_loop example_backend 1 example_world = Some w1 \<and>
     libusby_run_event_loop example_backend 1 w1 = Some (err LIBUSBY_SUCCESS, w2) \<and>
     libusby_run_event_loop example_backend 1 w2 = Some (err LIBUSBY_SUCCESS, w3)"
proof -
  obtain w1 where w1: "libusby_stop_event_loop example_backend 1 example_world = Some w1" using example_stop by auto
  obtain w2 where w2: "libusby_run_event_loop example_backend 1 w1 = Some (err LIBUSBY_SUCCESS, w2)"
    "stopped_step example_backend 1 w1 w2"
    using linux_stop_ends_loop [OF w1 rtranclp.rtrancl_refl] by blast
  then show ?thesis using linux_stop_ends_loop [OF w1 r_into_rtranclp [where r = "stopped_step example_backend 1", OF w2(2)]] w1 by blast
qed

section \<open>Completion\<close>

lemma unwatch_frame: "usbfs_unwatch_fd ctx i w = Some w' \<Longrightarrow> trans w' = trans w \<and> kern (os w') = kern (os w) \<and> bufs w' = bufs w"
  by (drule unwatch_table_only) (simp add: table_only_def)

text \<open>
  C35: The event loop completes a reaped transfer without a callback exactly so: it is no longer
  active, its actual length is what the kernel reported, plus the 8 bytes of the setup packet
  of a control transfer, and its status is left as it was when the kernel reports no error. When the
  kernel does, its status becomes \<open>LIBUSBY_ERROR_IO\<close>, which is not a value of
  \<open>libusby_transfer_status\<close>. No other transfer changes.
\<close>

theorem linux_completion:
  assumes "complete_transfer cb ctx i t w = Some w'" "trans w t = Some x" "lt_callback (tr_pub x) = 0"
  shows "\<exists>y. trans w' = (trans w)(t \<mapsto> y) \<and> active (tr_os y) = 0 \<and>
    lt_actual_length (tr_pub y) = ur_actual_length (req (tr_os x)) +
      (if lt_type (tr_pub x) = type_code LIBUSBY_TRANSFER_TYPE_CONTROL then 8 else 0) \<and>
    (if ur_status (req (tr_os x)) = 0 then lt_status (tr_pub y) = lt_status (tr_pub x)
     else lt_status (tr_pub y) = err LIBUSBY_ERROR_IO \<and> lt_status (tr_pub y) \<notin> range status_code)"
proof -
  define n where "n = ur_actual_length (req (tr_os x)) +
    (if lt_type (tr_pub x) = type_code LIBUSBY_TRANSFER_TYPE_CONTROL then 8 else 0)"
  define p where "p = (tr_pub x)\<lparr>lt_actual_length := n,
    lt_status := (if ur_status (req (tr_os x)) \<noteq> 0 then err LIBUSBY_ERROR_IO else lt_status (tr_pub x))\<rparr>"
  define w1 where "w1 = w\<lparr>trans := (trans w)(t \<mapsto> x\<lparr>tr_pub := p\<rparr>)\<rparr>"
  have "c_int n \<noteq> None" using assms(1,2) by (auto simp: complete_transfer_def bind_Some_conv n_def)
  then have n: "c_int n = Some n" by (auto simp: c_int_def split: if_splits)
  have upd: "upd_transfer t (upd_pub (\<lambda>p. p\<lparr>lt_actual_length := n,
      lt_status := (if ur_status (req (tr_os x)) \<noteq> 0 then err LIBUSBY_ERROR_IO else lt_status p)\<rparr>)) w = Some w1"
    using assms(2) by (simp add: upd_transfer_def upd_pub_def w1_def p_def)
  have run: "(do {
     w \<leftarrow> mutex_lock ctx w1;
     w \<leftarrow> upd_transfer t (\<lambda>t. t\<lparr>tr_os := (tr_os t)\<lparr>active := 2\<rparr>\<rparr>) w;
     x \<leftarrow> trans w t;
     w \<leftarrow> (if active (tr_os x) = 2 then upd_transfer t (\<lambda>t. t\<lparr>tr_os := (tr_os t)\<lparr>active := 0\<rparr>\<rparr>) w else Some w);
     w \<leftarrow> usbfs_unwatch_fd ctx i w;
     mutex_unlock ctx w }) = Some w'"
    using assms(1) unfolding complete_transfer_def assms(2) bind.bind_lunit n_def [symmetric] n upd assms(3) by simp
  obtain w2 where w2: "mutex_lock ctx w1 = Some w2" "trans w2 = trans w1"
    using run by (auto simp: bind_Some_conv mutex_lock_def upd_Some)
  define y where "y = x\<lparr>tr_pub := p, tr_os := (tr_os x)\<lparr>active := 0\<rparr>\<rparr>"
  define w3 where "w3 = w2\<lparr>trans := (trans w)(t \<mapsto> y)\<rparr>"
  obtain w4 where w4: "usbfs_unwatch_fd ctx i w3 = Some w4" "mutex_unlock ctx w4 = Some w'"
    using run w2 by (auto simp: bind_Some_conv upd_transfer_def w1_def w3_def y_def)
  have "trans w' = trans w4" using w4(2) by (auto simp: mutex_unlock_def upd_Some bind_Some_conv)
  then have "trans w' = (trans w)(t \<mapsto> y)" using unwatch_frame [OF w4(1)] by (simp add: w3_def)
  moreover have "err LIBUSBY_ERROR_IO \<notin> range status_code"
  proof
    assume "err LIBUSBY_ERROR_IO \<in> range status_code"
    then obtain s where "status_code s = -1" by auto
    then show False by (cases s) auto
  qed
  ultimately show ?thesis by (intro exI [of _ y]) (simp add: y_def p_def n_def)
qed

text \<open>A control transfer of the device in a table with one entry, which the kernel has failed.\<close>

definition reaped_world :: "int \<Rightarrow> unit lx_world" where
  "reaped_world status = example_world\<lparr>
     ctxs := [1 \<mapsto> example_context\<lparr>watched_fds := 60, watched_fd_count := 1, watched_fd_capacity := 4\<rparr>],
     os := \<lparr>wfds = [60 \<mapsto> [Some \<lparr>wf_fd = 7, wf_refcount = 0\<rparr>, None, None, None]], kern = ()\<rparr>,
     trans := [20 \<mapsto> (zero_transfer_of 0 zero_lx_transfer)\<lparr>it_ctx := 1,
       tr_os := \<lparr>active = 1, req = zero_urb\<lparr>ur_status := status, ur_actual_length := 4\<rparr>\<rparr>\<rparr>]\<rparr>"

lemma reaped_run: "map_option (\<lambda>w. 0) (complete_transfer (\<lambda>_ _. Some) 1 0 20 (reaped_world (-32))) = Some (0 :: nat)"
  by code_simp

theorem linux_completion_witness:
  "\<exists>w' y. complete_transfer (\<lambda>_ _. Some) 1 0 20 (reaped_world (-32)) = Some w' \<and> trans w' 20 = Some y \<and>
     active (tr_os y) = 0 \<and> lt_actual_length (tr_pub y) = 12 \<and> lt_status (tr_pub y) = -1"
proof -
  obtain w' where run: "complete_transfer (\<lambda>_ _. Some) 1 0 20 (reaped_world (-32)) = Some w'" using reaped_run by auto
  obtain x where x: "trans (reaped_world (-32)) 20 = Some x" "lt_callback (tr_pub x) = 0" "lt_type (tr_pub x) = 0"
    "ur_actual_length (req (tr_os x)) = 4" "ur_status (req (tr_os x)) = -32"
    by (simp add: reaped_world_def zero_transfer_of_def zero_transfer_pub_def)
  show ?thesis using linux_completion [OF run x(1,2)] run x(3-5) by auto
qed

section \<open>Contexts\<close>

text \<open>
  C25: Initialization and exit are inverse: a context that \<open>libusby_init\<close> has created on Linux
  can be given to \<open>libusby_exit\<close>, whose assertion that no device is left holds, and then all
  contexts, ring heads and tables are as before.
\<close>

theorem linux_init_exit:
  assumes "libusby_init (linux_backend K sz env cb) w = Some (r, res, w1)" "0 \<le> r"
    "nodes w (Devlist_head (next_addr w)) = None" "ctxs w (next_addr w) = None"
  shows "\<exists>ctx w2. res = Some ctx \<and> ctx \<noteq> 0 \<and> libusby_exit (linux_backend K sz env cb) ctx w1 = Some w2 \<and>
    ctxs w2 = ctxs w \<and> nodes w2 = nodes w \<and> wfds (os w2) = wfds (os w)"
proof -
  let ?be = "linux_backend K sz env cb" and ?a = "next_addr w"
  obtain p w0 where new: "new_context (sz_context sz) zero_lx_context w = (p, w0)" by force
  have "p \<noteq> 0" using assms(1,2) new by (auto simp: libusby_init_def split: if_splits)
  then have p: "p = ?a" and w0: "ctxs w0 = (ctxs w)(p \<mapsto> zero_lx_context)"
    "nodes w0 = (nodes w)(Devlist_head p \<mapsto> null_node)" "os w0 = os w"
    using new by (cases rule: malloc_cases [of "sz_context sz" w]; auto simp: new_context_def)+
  obtain r1 where run: "linux_usbyb_init K p w0 = Some (r1, w1)" "\<not> r1 < 0" and res: "res = Some p"
    using assms(1,2) new \<open>p \<noteq> 0\<close> by (auto simp: libusby_init_def bind_Some_conv split: if_splits)
  let ?node = "\<lparr>dn_prev = Some (Devlist_head p), dn_next = Some (Devlist_head p)\<rparr>"
  have ring: "usbyi_init_devlist_head (Devlist_head p) (nodes w0) = Some ((nodes w0)(Devlist_head p \<mapsto> ?node))"
    by (simp add: usbyi_init_devlist_head_def set_next_def set_prev_def w0 null_node_def)
  obtain p0 p1 where w1: "ctxs w1 = (ctxs w)(p \<mapsto> zero_lx_context\<lparr>pipe0 := p0, pipe1 := p1, loop_enabled := 1, loop_locked := 0\<rparr>)"
    "nodes w1 = (nodes w)(Devlist_head p \<mapsto> ?node)" "wfds (os w1) = wfds (os w)"
  proof -
    obtain q1 k1 where k1: "k_mutex_init K (kern (os w)) = (q1, k1)" by force
    obtain q2 k2 where k2: "k_cond_init K k1 = (q2, k2)" by force
    obtain q3 p0 p1 k3 where k3: "k_pipe K k2 = (q3, p0, p1, k3)" by (metis prod_cases4)
    have "\<not> q1 < 0" "\<not> q2 < 0" "\<not> q3 < 0"
      using run k1 k2 k3 by (auto simp: linux_usbyb_init_def ring [unfolded w0] w0 set_kern_def Let_def cong: if_cong split: if_splits)
    then show thesis
      using run k1 k2 k3 that
      by (auto simp: linux_usbyb_init_def ring [unfolded w0] w0 set_kern_def Let_def upd_context_def bind_Some_conv cong: if_cong)
  qed
  let ?w2 = "destroy_locks K (sys_close K p1 (sys_close K p0 (set_wfds (wfds (os w)) w1)))"
  have "linux_usbyb_exit K p w1 = Some ?w2"
    by (simp add: linux_usbyb_exit_def w1 zero_lx_context_def free_block_def)
  then have "libusby_exit ?be p w1 = free_context p ?w2"
    by (simp add: libusby_exit_def)
  moreover have "(ctxs w)(p := None) = ctxs w" "(nodes w)(Devlist_head p := None) = nodes w"
    using assms(3,4) by (auto simp: p fun_eq_iff)
  ultimately show ?thesis
    using res \<open>p \<noteq> 0\<close> w1 by (auto simp: free_context_def free_block_def sys_close_def destroy_locks_def)
qed

lemma example_init: "map_option (\<lambda>(r, p, w). (r, p)) (libusby_init example_backend example_world) = Some (0, Some 100)"
  by code_simp

theorem linux_init_exit_witness:
  "\<exists>w1 w2. libusby_init example_backend example_world = Some (0, Some 100, w1) \<and>
     libusby_exit example_backend 100 w1 = Some w2 \<and> ctxs w2 = ctxs example_world"
proof -
  obtain w1 where run: "libusby_init example_backend example_world = Some (0, Some 100, w1)" using example_init by auto
  show ?thesis using linux_init_exit [OF run] run by (auto simp: example_defs)
qed

section \<open>Configurations\<close>

text \<open>
  C36: A configuration that was set reads back on Linux. When \<open>libusby_set_configuration\<close> succeeds
  with a value that is not negative, \<open>libusby_get_configuration\<close> and its cached variant return the
  value without asking the device; a negative value, which stands for an unconfigured device, reads back as
  not known. When it fails, nothing but the kernel has changed: what the cached variant returns is
  what it returned before, and so is the result of \<open>libusby_get_configuration\<close> if a value was
  known, whereas without a known value it asks the device, whose answer may be another one.
\<close>

theorem linux_configuration_roundtrip:
  assumes "libusby_set_configuration (linux_backend K sz env cb) h v w = Some (r, w')"
  shows "if 0 \<le> r then
      (if 0 \<le> v then libusby_get_configuration (linux_backend K sz env cb) h w' = Some (err LIBUSBY_SUCCESS, Some v, w') \<and>
         libusby_get_configuration_cached (linux_backend K sz env cb) h w' = Some (err LIBUSBY_SUCCESS, Some v, w')
       else libusby_get_configuration_cached (linux_backend K sz env cb) h w' = Some (err LIBUSBY_ERROR_NOT_SUPPORTED, None, w'))
    else w' = set_kern (kern (os w')) w \<and>
      libusby_get_configuration_cached (linux_backend K sz env cb) h w' =
        map_option (\<lambda>(q, u, _). (q, u, w')) (libusby_get_configuration_cached (linux_backend K sz env cb) h w) \<and>
      (\<forall>u. libusby_get_configuration_cached (linux_backend K sz env cb) h w = Some (err LIBUSBY_SUCCESS, Some u, w) \<longrightarrow>
         libusby_get_configuration (linux_backend K sz env cb) h w = Some (err LIBUSBY_SUCCESS, Some u, w) \<and>
         libusby_get_configuration (linux_backend K sz env cb) h w' = Some (err LIBUSBY_SUCCESS, Some u, w'))"
proof -
  note gets = libusby_get_configuration_def libusby_get_configuration_cached_def linux_usbyb_get_configuration_def
  obtain x where x: "hnds w h = Some x" using assms
    by (auto simp: libusby_set_configuration_def linux_usbyb_set_configuration_def bind_Some_conv)
  obtain q e k where k: "k_setconfiguration K (wrfd (lh_os x)) v (kern (os w)) = (q, e, k)" by (metis prod_cases3)
  have ne: "usbfs_error e < 0" "usbfs_error e \<noteq> err LIBUSBY_ERROR_NOT_SUPPORTED" by (simp_all add: usbfs_error_def)
  show ?thesis
  proof (cases "q < 0")
    case True
    then have r: "r = usbfs_error e" "w' = set_kern k w"
      using assms x k ne
      by (auto simp: libusby_set_configuration_def linux_usbyb_set_configuration_def ioctl_result_def)
    have "libusby_get_configuration_cached (linux_backend K sz env cb) h w' =
        map_option (\<lambda>(q, u, _). (q, u, w')) (libusby_get_configuration_cached (linux_backend K sz env cb) h w)"
      using x by (simp add: gets r(2) set_kern_def)
    moreover have "libusby_get_configuration (linux_backend K sz env cb) h w = Some (err LIBUSBY_SUCCESS, Some u, w) \<and>
        libusby_get_configuration (linux_backend K sz env cb) h w' = Some (err LIBUSBY_SUCCESS, Some u, w')"
      if "libusby_get_configuration_cached (linux_backend K sz env cb) h w = Some (err LIBUSBY_SUCCESS, Some u, w)" for u
      using that x by (auto simp: gets r(2) set_kern_def split: if_splits)
    moreover have "w' = set_kern (kern (os w')) w" by (simp add: r(2) set_kern_def)
    ultimately show ?thesis using ne r(1) by simp
  next
    case False
    then have "r = 0" "hnds w' = (hnds w)(h \<mapsto> x\<lparr>lh_os := (lh_os x)\<lparr>active_config_value := v\<rparr>\<rparr>)"
      using assms x k
      by (auto simp: libusby_set_configuration_def linux_usbyb_set_configuration_def ioctl_result_def upd_handle_def)
    then show ?thesis by (simp add: gets)
  qed
qed

text \<open>The same kernel, but one that refuses every other configuration, on which the device is busy.\<close>

definition busy_kernel :: "unit kernel" where
  "busy_kernel = example_kernel\<lparr>k_setconfiguration := (\<lambda>_ v k. if v = 1 then (0, 0, k) else (-1, EBUSY, k))\<rparr>"

abbreviation busy_backend :: "unit lx_backend" where
  "busy_backend \<equiv> linux_backend busy_kernel example_sizes Some (\<lambda>_ _. Some)"

lemma example_set:
  "map_option (\<lambda>((r, w), q). (r, fst q)) (do { (r, w) \<leftarrow> libusby_set_configuration busy_backend 3 1 example_world;
     q \<leftarrow> libusby_set_configuration busy_backend 3 2 w; Some ((r, w), q) }) = Some (0, err LIBUSBY_ERROR_BUSY)"
  by code_simp

text \<open>After a second configuration was refused the first one is still returned.\<close>

theorem linux_configuration_roundtrip_witness:
  "\<exists>w1 w2. libusby_set_configuration busy_backend 3 1 example_world = Some (0, w1) \<and>
     libusby_get_configuration busy_backend 3 w1 = Some (0, Some 1, w1) \<and>
     libusby_set_configuration busy_backend 3 2 w1 = Some (err LIBUSBY_ERROR_BUSY, w2) \<and>
     libusby_get_configuration busy_backend 3 w2 = Some (0, Some 1, w2)"
proof -
  obtain w1 w2 where run: "libusby_set_configuration busy_backend 3 1 example_world = Some (0, w1)"
    "libusby_set_configuration busy_backend 3 2 w1 = Some (err LIBUSBY_ERROR_BUSY, w2)"
    using example_set by (auto simp: bind_Some_conv)
  have w1: "libusby_get_configuration busy_backend 3 w1 = Some (0, Some 1, w1)"
    "libusby_get_configuration_cached busy_backend 3 w1 = Some (0, Some 1, w1)"
    using linux_configuration_roundtrip [OF run(1)] by simp_all
  then have "libusby_get_configuration busy_backend 3 w2 = Some (0, Some 1, w2)"
    using linux_configuration_roundtrip [OF run(2)] by auto
  then show ?thesis using run w1 by blast
qed

section \<open>Known devices\<close>

lemma find_device_links:
  assumes "links (nodes w) a (map Devnode ds) (Devlist_head ctx)" "\<forall>dev \<in> set ds. devs w dev \<noteq> None"
  shows "find_device ctx bus num (nxt (nodes w) a) w =
    Some (find (\<lambda>dev. let d = ld_os (the (devs w dev)) in busno d = bus \<and> devno d = num) ds)"
  using assms
proof (induction ds arbitrary: a)
  case Nil
  then show ?case by (simp add: find_device.simps [of _ _ _ "Some (Devlist_head ctx)"])
next
  case (Cons dev ds)
  then obtain d where d: "devs w dev = Some d" by auto
  have step: "nodes w (Devnode dev) \<bind> (\<lambda>n. find_device ctx bus num (dn_next n) w)
      = find_device ctx bus num (nxt (nodes w) (Devnode dev)) w"
  proof (cases "nodes w (Devnode dev)")
    case None
    then have "nxt (nodes w) (Devnode dev) = None" by (simp add: nxt_def)
    moreover have "nxt (nodes w) (Devnode dev) \<noteq> None" using Cons.prems(1) by (cases ds) auto
    ultimately show ?thesis by simp
  qed (simp add: nxt_def)
  have "nxt (nodes w) a = Some (Devnode dev)" using Cons.prems(1) by simp
  then show ?case
    using Cons d step by (simp add: find_device.simps [of _ _ _ "Some (Devnode dev)"] Let_def)
qed

text \<open>
  C30: The enumeration recognizes the devices it knows: the walk along the ring of a context
  ends, follows no dangling pointer, and finds the first device with the given bus and device
  number in the order of the ring, or none when there is none.
\<close>

theorem linux_find_device:
  assumes "ring (Devlist_head ctx) (nodes w) (map Devnode ds)" "\<forall>dev \<in> set ds. devs w dev \<noteq> None"
    "nodes w (Devlist_head ctx) = Some head"
  shows "find_device ctx bus num (dn_next head) w =
    Some (find (\<lambda>dev. let d = ld_os (the (devs w dev)) in busno d = bus \<and> devno d = num) ds)"
  using find_device_links [of w "Devlist_head ctx" ds ctx] assms by (simp add: ring_def nxt_def)

theorem linux_find_device_witness:
  "find_device 1 1 4 (Some (Devnode 2)) example_world = Some (Some 2) \<and>
   find_device 1 1 5 (Some (Devnode 2)) example_world = Some None"
  using linux_find_device [of 1 example_world "[2]" _ 1 4] linux_find_device [of 1 example_world "[2]" _ 1 5]
  by (simp add: ring_def nxt_def prv_def example_defs)

end
