(* ===== verification/Win32_Base.thy ===== *)
theory Win32_Base
  imports Devices
begin

text \<open>
  The Windows back end (\<^verbatim>\<open>src/os/libusb0_win32.c\<close>): its structures, the requests of the
  driver (\<^verbatim>\<open>src/os/libusb0_win32_intf.h\<close>), the calls of the operating system as a
  parameter, and the operations on contexts, devices, descriptors, configurations and interfaces.
\<close>

section \<open>Requests of the driver\<close>

text \<open>\<open>CTL_CODE(FILE_DEVICE_UNKNOWN, function, method, FILE_ANY_ACCESS)\<close>.\<close>

definition CTL_CODE :: "u32 \<Rightarrow> u32 \<Rightarrow> u32" where
  "CTL_CODE function_code transfer_method = push_bit 16 0x22 OR push_bit 2 function_code OR transfer_method"

abbreviation METHOD_BUFFERED :: u32 where "METHOD_BUFFERED \<equiv> 0"
abbreviation METHOD_IN_DIRECT :: u32 where "METHOD_IN_DIRECT \<equiv> 1"
abbreviation METHOD_OUT_DIRECT :: u32 where "METHOD_OUT_DIRECT \<equiv> 2"

datatype libusb_ioctl = LIBUSB_IOCTL_SET_CONFIGURATION | LIBUSB_IOCTL_GET_CONFIGURATION
  | LIBUSB_IOCTL_GET_DESCRIPTOR | LIBUSB_IOCTL_INTERRUPT_OR_BULK_WRITE | LIBUSB_IOCTL_INTERRUPT_OR_BULK_READ
  | LIBUSB_IOCTL_ABORT_ENDPOINT | LIBUSB_IOCTL_RESET_DEVICE | LIBUSB_IOCTL_CLAIM_INTERFACE
  | LIBUSB_IOCTL_RELEASE_INTERFACE | LIBUSB_IOCTL_GET_CACHED_CONFIGURATION
  | LIBUSB_IOCTL_CONTROL_WRITE | LIBUSB_IOCTL_CONTROL_READ

fun ioctl_code :: "libusb_ioctl \<Rightarrow> u32" where
  "ioctl_code LIBUSB_IOCTL_SET_CONFIGURATION = CTL_CODE 0x801 METHOD_BUFFERED"
| "ioctl_code LIBUSB_IOCTL_GET_CONFIGURATION = CTL_CODE 0x802 METHOD_BUFFERED"
| "ioctl_code LIBUSB_IOCTL_GET_DESCRIPTOR = CTL_CODE 0x809 METHOD_BUFFERED"
| "ioctl_code LIBUSB_IOCTL_INTERRUPT_OR_BULK_WRITE = CTL_CODE 0x80A METHOD_IN_DIRECT"
| "ioctl_code LIBUSB_IOCTL_INTERRUPT_OR_BULK_READ = CTL_CODE 0x80B METHOD_OUT_DIRECT"
| "ioctl_code LIBUSB_IOCTL_ABORT_ENDPOINT = CTL_CODE 0x80F METHOD_BUFFERED"
| "ioctl_code LIBUSB_IOCTL_RESET_DEVICE = CTL_CODE 0x810 METHOD_BUFFERED"
| "ioctl_code LIBUSB_IOCTL_CLAIM_INTERFACE = CTL_CODE 0x815 METHOD_BUFFERED"
| "ioctl_code LIBUSB_IOCTL_RELEASE_INTERFACE = CTL_CODE 0x816 METHOD_BUFFERED"
| "ioctl_code LIBUSB_IOCTL_GET_CACHED_CONFIGURATION = CTL_CODE 0x902 METHOD_BUFFERED"
| "ioctl_code LIBUSB_IOCTL_CONTROL_WRITE = CTL_CODE 0x90A METHOD_IN_DIRECT"
| "ioctl_code LIBUSB_IOCTL_CONTROL_READ = CTL_CODE 0x90B METHOD_OUT_DIRECT"

text \<open>
  The union of a request by the member that is stored; the fields of a member that the code
  never stores are zero, as the initializer leaves them, and are left out here.
\<close>

datatype request_union = Req_size
  | Req_configuration u32
  | Req_intf u32
  | Req_endpoint u32
  | Req_descriptor u32 u32 u32
  | Req_control u8 u8 u16 u16 u16

record libusb0_win32_request =
  rq_timeout :: u32
  rq_union :: request_union

definition le32_bytes :: "u32 \<Rightarrow> u8 list" where
  "le32_bytes x = [ucast x, ucast (drop_bit 8 x), ucast (drop_bit 16 x), ucast (drop_bit 24 x)]"

definition le16_bytes :: "u16 \<Rightarrow> u8 list" where
  "le16_bytes x = [lo8 x, hi8 x]"

definition padded :: "u8 list \<Rightarrow> u8 list" where
  "padded bs = bs @ replicate (20 - length bs) 0"

fun union_bytes :: "request_union \<Rightarrow> u8 list" where
  "union_bytes Req_size = padded []"
| "union_bytes (Req_configuration c) = padded (le32_bytes c)"
| "union_bytes (Req_intf i) = padded (le32_bytes i)"
| "union_bytes (Req_endpoint e) = padded (le32_bytes e)"
| "union_bytes (Req_descriptor ty ix lang) = padded (le32_bytes ty @ le32_bytes ix @ le32_bytes lang)"
| "union_bytes (Req_control rt rq v i n) = padded ([rt, rq] @ le16_bytes v @ le16_bytes i @ le16_bytes n)"

text \<open>The bytes of a request, \<open>sizeof(libusb0_win32_request) = 24\<close> of them, on a little-endian machine.\<close>

definition request_bytes :: "libusb0_win32_request \<Rightarrow> u8 list" where
  "request_bytes rq = le32_bytes (rq_timeout rq) @ union_bytes (rq_union rq)"

definition default_timeout :: u32 where "default_timeout = 5000"

definition request_of :: "request_union \<Rightarrow> libusb0_win32_request" where
  "request_of u = \<lparr> rq_timeout = default_timeout, rq_union = u \<rparr>"

section \<open>Structures\<close>

text \<open>Handles of the operating system: 0 is the null handle, -1 is \<open>INVALID_HANDLE_VALUE\<close>.\<close>

type_synonym handle = int

record usbyi_handle_list =
  hl_capacity :: int
  hl_handles :: addr

text \<open>
  The critical section is \<open>None\<close> until it is initialized; then it counts how often this thread
  has entered it. \<open>cancel_io_ex\<close> is whether the pointer is not null.
\<close>

record win_context =
  hKernel32 :: handle
  cancel_io_ex :: bool
  crit_section :: "nat option"
  trani_first :: addr
  trani_last :: addr
  tran_count :: int
  handle_list :: usbyi_handle_list
  hReaperLock :: handle
  hEventLoopStopped :: handle
  hTransferListUpdated :: handle

record win_device =
  wd_devno :: int
  hFile :: handle

text \<open>Of \<open>overlapped\<close> the code uses the event only.\<close>

record win_transfer =
  hCompletionEvent :: handle
  hEvent :: handle
  submitted :: int

definition zero_win_context :: win_context where
  "zero_win_context = \<lparr> hKernel32 = 0, cancel_io_ex = False, crit_section = None, trani_first = 0, trani_last = 0,
     tran_count = 0, handle_list = \<lparr> hl_capacity = 0, hl_handles = 0 \<rparr>,
     hReaperLock = 0, hEventLoopStopped = 0, hTransferListUpdated = 0 \<rparr>"

definition zero_win_device :: win_device where
  "zero_win_device = \<lparr> wd_devno = 0, hFile = 0 \<rparr>"

definition zero_win_transfer :: win_transfer where
  "zero_win_transfer = \<lparr> hCompletionEvent = 0, hEvent = 0, submitted = 0 \<rparr>"

section \<open>The operating system\<close>

text \<open>
  What a call reports on a request: whether it succeeded, else \<open>GetLastError()\<close>; the number of
  bytes transferred; the bytes the driver has stored so far at the start of the output buffer.
  An overlapped structure is known to the system by its event. For a request that is finished
  in the background the system also reports the block and the offset of the buffer it was given.
\<close>

record win32_io =
  io_ok :: bool
  io_error :: u32
  io_transferred :: u32
  io_data :: "u8 list"
  io_dest :: "addr \<times> nat"

record 'k win32 =
  n_LoadLibrary :: "'k \<Rightarrow> handle \<times> 'k"
  n_FreeLibrary :: "handle \<Rightarrow> 'k \<Rightarrow> 'k"
  n_GetProcAddress :: "handle \<Rightarrow> 'k \<Rightarrow> bool \<times> 'k"
  n_CreateEvent :: "bool \<Rightarrow> bool \<Rightarrow> 'k \<Rightarrow> handle \<times> 'k"
  n_SetEvent :: "handle \<Rightarrow> 'k \<Rightarrow> 'k"
  n_ResetEvent :: "handle \<Rightarrow> 'k \<Rightarrow> 'k"
  n_CloseHandle :: "handle \<Rightarrow> 'k \<Rightarrow> 'k"
  n_CreateFile :: "string \<Rightarrow> 'k \<Rightarrow> handle \<times> 'k"
  n_DeviceIoControl :: "handle \<Rightarrow> u32 \<Rightarrow> u8 list \<Rightarrow> u8 list \<Rightarrow> addr \<times> nat \<Rightarrow> handle \<Rightarrow> 'k \<Rightarrow> win32_io \<times> 'k"
  n_GetOverlappedResult :: "handle \<Rightarrow> handle \<Rightarrow> 'k \<Rightarrow> win32_io \<times> 'k"
  n_CancelIoEx :: "handle \<Rightarrow> handle \<Rightarrow> 'k \<Rightarrow> 'k"
  n_WaitForMultipleObjects :: "handle list \<Rightarrow> 'k \<Rightarrow> u32 \<times> 'k"

abbreviation ERROR_SUCCESS :: u32 where "ERROR_SUCCESS \<equiv> 0"
abbreviation ERROR_BUSY :: u32 where "ERROR_BUSY \<equiv> 170"
abbreviation ERROR_OPERATION_ABORTED :: u32 where "ERROR_OPERATION_ABORTED \<equiv> 995"
abbreviation ERROR_IO_PENDING :: u32 where "ERROR_IO_PENDING \<equiv> 997"

text \<open>The system and the arrays of handles; an element never stored is \<open>None\<close>.\<close>

record 'k win_os =
  harrays :: "addr \<rightharpoonup> handle option list"
  wkern :: 'k

type_synonym 'k win_world = "(win_context, win_device, unit, win_transfer, 'k win_os) world"

definition set_wkern :: "'k \<Rightarrow> 'k win_world \<Rightarrow> 'k win_world" where
  "set_wkern k w = w\<lparr>os := (os w)\<lparr>wkern := k\<rparr>\<rparr>"

definition set_harrays :: "(addr \<rightharpoonup> handle option list) \<Rightarrow> 'k win_world \<Rightarrow> 'k win_world" where
  "set_harrays m w = w\<lparr>os := (os w)\<lparr>harrays := m\<rparr>\<rparr>"

text \<open>A call that changes the system only, and one that also has a result.\<close>

definition win_do :: "('k \<Rightarrow> 'k) \<Rightarrow> 'k win_world \<Rightarrow> 'k win_world" where
  "win_do f w = set_wkern (f (wkern (os w))) w"

definition win_call :: "('k \<Rightarrow> 'a \<times> 'k) \<Rightarrow> 'k win_world \<Rightarrow> 'a \<times> 'k win_world" where
  "win_call f w = (case f (wkern (os w)) of (x, k) \<Rightarrow> (x, set_wkern k w))"

text \<open>
  A critical section can be entered again by the thread that owns it; to leave one that the
  thread has not entered, or to use one that is not initialized, has no defined result.
\<close>

definition EnterCriticalSection :: "addr \<Rightarrow> 'k win_world \<Rightarrow> 'k win_world option" where
  "EnterCriticalSection ctx w = do {
     c \<leftarrow> ctxs w ctx;
     n \<leftarrow> crit_section c;
     upd_context ctx (\<lambda>c. c\<lparr>crit_section := Some (Suc n)\<rparr>) w }"

definition LeaveCriticalSection :: "addr \<Rightarrow> 'k win_world \<Rightarrow> 'k win_world option" where
  "LeaveCriticalSection ctx w = do {
     c \<leftarrow> ctxs w ctx;
     n \<leftarrow> crit_section c;
     c_assert (0 < n);
     upd_context ctx (\<lambda>c. c\<lparr>crit_section := Some (n - 1)\<rparr>) w }"

section \<open>Requests that wait\<close>

text \<open>\<open>n\<close> bytes behind a pointer into a block; a pointer to no bytes may be null.\<close>

definition bytes_at :: "addr \<Rightarrow> nat \<Rightarrow> nat \<Rightarrow> 'k win_world \<Rightarrow> u8 list option" where
  "bytes_at p off n w = (if n = 0 then Some [] else do { b \<leftarrow> bufs w p; rd_block b off n })"

definition store_at :: "addr \<Rightarrow> nat \<Rightarrow> u8 list \<Rightarrow> 'k win_world \<Rightarrow> 'k win_world option" where
  "store_at p off data w = (if data = [] then Some w
     else do { b \<leftarrow> bufs w p; b \<leftarrow> wr_block b off data; Some (w\<lparr>bufs := (bufs w)(p \<mapsto> b)\<rparr>) })"

text \<open>The driver stores no more bytes than the buffer has.\<close>

definition overlay :: "u8 list \<Rightarrow> u8 list \<Rightarrow> u8 list" where
  "overlay data out = take (length out) data @ drop (length data) out"

text \<open>
  \<open>DeviceIoControl\<close> and, when the request is pending, \<open>GetOverlappedResult\<close>, as
  both functions that wait for a request call them: the value of \<open>dwError\<close>, that of
  \<open>dwTransferred\<close> and the output buffer.
\<close>

definition overlapped_io :: "'k win32 \<Rightarrow> handle \<Rightarrow> libusb_ioctl \<Rightarrow> libusb0_win32_request \<Rightarrow> u8 list \<Rightarrow> addr \<times> nat \<Rightarrow> handle
    \<Rightarrow> 'k win_world \<Rightarrow> u32 \<times> u32 \<times> u8 list \<times> 'k win_world" where
  "overlapped_io K file code rq out dest event w =
     (case win_call (n_DeviceIoControl K file (ioctl_code code) (request_bytes rq) out dest event) w of (x, w) \<Rightarrow>
      let out = overlay (io_data x) out in
      if io_ok x then (ERROR_SUCCESS, io_transferred x, out, w)
      else if io_error x = ERROR_IO_PENDING then
        (case win_call (n_GetOverlappedResult K file event) w of (y, w) \<Rightarrow>
           (if io_ok y then ERROR_SUCCESS else io_error y, io_transferred y, overlay (io_data y) out, w))
      else (io_error x, io_transferred x, out, w))"

text \<open>\<open>out\<close> is the memory of the caller from the pointer on; lengths are converted to \<open>DWORD\<close>.\<close>

definition sync_device_io_control :: "'k win32 \<Rightarrow> handle \<Rightarrow> libusb_ioctl \<Rightarrow> libusb0_win32_request \<Rightarrow> u8 list \<Rightarrow> int
    \<Rightarrow> 'k win_world \<Rightarrow> (int \<times> u8 list \<times> 'k win_world) option" where
  "sync_device_io_control K file code rq out_data out_len w =
     (case win_call (n_CreateEvent K True False) w of (event, w) \<Rightarrow>
      if event = 0 then Some (err LIBUSBY_ERROR_NO_MEM, out_data, w) else do {
      out \<leftarrow> rd_block out_data 0 (unat (word_of_int out_len :: u32));
      let (dwError, dwTransferred, out, w) = overlapped_io K file code rq out (0, 0) event w;
      out_data \<leftarrow> wr_block out_data 0 out;
      let w = win_do (n_CloseHandle K event) w;
      Some (if dwError = ERROR_SUCCESS then sint dwTransferred
        else if dwError = ERROR_BUSY then err LIBUSBY_ERROR_BUSY else err LIBUSBY_ERROR_IO, out_data, w) })"

section \<open>Contexts\<close>

text \<open>The handles closed at the label \<open>error\<close>: those that have been created so far.\<close>

definition close_if :: "'k win32 \<Rightarrow> handle \<Rightarrow> 'k win_world \<Rightarrow> 'k win_world" where
  "close_if K h w = (if h \<noteq> 0 then win_do (n_CloseHandle K h) w else w)"

definition win_init_error :: "'k win32 \<Rightarrow> addr \<Rightarrow> 'k win_world \<Rightarrow> (int \<times> 'k win_world) option" where
  "win_init_error K ctx w = do {
     c \<leftarrow> ctxs w ctx;
     let w = close_if K (hReaperLock c) (close_if K (hEventLoopStopped c) (close_if K (hTransferListUpdated c) w));
     Some (err LIBUSBY_ERROR_NO_MEM, win_do (n_FreeLibrary K (hKernel32 c)) w) }"

definition win_usbyb_init :: "'k win32 \<Rightarrow> addr \<Rightarrow> 'k win_world \<Rightarrow> (int \<times> 'k win_world) option" where
  "win_usbyb_init K ctx w = do {
     m \<leftarrow> usbyi_init_devlist_head (Devlist_head ctx) (nodes w);
     let (lib, w) = win_call (n_LoadLibrary K) (w\<lparr>nodes := m\<rparr>);
     w \<leftarrow> upd_context ctx (\<lambda>c. c\<lparr>hKernel32 := lib\<rparr>) w;
     if lib = 0 then Some (err LIBUSBY_ERROR_INVALID_PARAM, w) else do {
     let (found, w) = win_call (n_GetProcAddress K lib) w;
     w \<leftarrow> upd_context ctx (\<lambda>c. c\<lparr>cancel_io_ex := found\<rparr>) w;
     let (h, w) = win_call (n_CreateEvent K False True) w;
     w \<leftarrow> upd_context ctx (\<lambda>c. c\<lparr>hReaperLock := h\<rparr>) w;
     if h = 0 then win_init_error K ctx w else do {
     let (h, w) = win_call (n_CreateEvent K True False) w;
     w \<leftarrow> upd_context ctx (\<lambda>c. c\<lparr>hEventLoopStopped := h\<rparr>) w;
     if h = 0 then win_init_error K ctx w else do {
     let (h, w) = win_call (n_CreateEvent K True False) w;
     w \<leftarrow> upd_context ctx (\<lambda>c. c\<lparr>hTransferListUpdated := h\<rparr>) w;
     if h = 0 then win_init_error K ctx w else do {
     w \<leftarrow> upd_context ctx (\<lambda>c. c\<lparr>crit_section := Some 0\<rparr>) w;
     Some (err LIBUSBY_SUCCESS, w) } } } } }"

definition win_usbyb_exit :: "'k win32 \<Rightarrow> addr \<Rightarrow> 'k win_world \<Rightarrow> 'k win_world option" where
  "win_usbyb_exit K ctx w = do {
     head \<leftarrow> nodes w (Devlist_head ctx);
     c_assert (dn_next head = Some (Devlist_head ctx));
     c \<leftarrow> ctxs w ctx;
     _ \<leftarrow> crit_section c;
     w \<leftarrow> upd_context ctx (\<lambda>c. c\<lparr>crit_section := None\<rparr>) w;
     let w = win_do (n_CloseHandle K (hTransferListUpdated c)) w;
     let w = win_do (n_CloseHandle K (hEventLoopStopped c)) w;
     let w = win_do (n_CloseHandle K (hReaperLock c)) w;
     Some (win_do (n_FreeLibrary K (hKernel32 c)) w) }"

section \<open>Devices, descriptors and configurations\<close>

definition usbyb_get_descriptor_with_handle :: "'k win32 \<Rightarrow> handle \<Rightarrow> u8 \<Rightarrow> u8 \<Rightarrow> u16 \<Rightarrow> u8 list \<Rightarrow> int
    \<Rightarrow> 'k win_world \<Rightarrow> (int \<times> u8 list \<times> 'k win_world) option" where
  "usbyb_get_descriptor_with_handle K file desc_type desc_index langid data len w =
     sync_device_io_control K file LIBUSB_IOCTL_GET_DESCRIPTOR
       (request_of (Req_descriptor (ucast desc_type) (ucast desc_index) (ucast langid))) data len w"

definition win_usbyb_get_descriptor_cached :: "'k win32 \<Rightarrow> addr \<Rightarrow> u8 \<Rightarrow> u8 \<Rightarrow> u16 \<Rightarrow> u8 list \<Rightarrow> int
    \<Rightarrow> 'k win_world \<Rightarrow> (int \<times> u8 list \<times> 'k win_world) option" where
  "win_usbyb_get_descriptor_cached K dev desc_type desc_index langid data len w = do {
     d \<leftarrow> devs w dev;
     usbyb_get_descriptor_with_handle K (hFile (ld_os d)) desc_type desc_index langid data len w }"

definition win_usbyb_get_descriptor :: "'k win32 \<Rightarrow> addr \<Rightarrow> u8 \<Rightarrow> u8 \<Rightarrow> u16 \<Rightarrow> u8 list \<Rightarrow> int
    \<Rightarrow> 'k win_world \<Rightarrow> (int \<times> u8 list \<times> 'k win_world) option" where
  "win_usbyb_get_descriptor K dev_handle desc_type desc_index langid data len w = do {
     h \<leftarrow> hnds w dev_handle;
     win_usbyb_get_descriptor_cached K (lh_dev h) desc_type desc_index langid data len w }"

text \<open>The file of the device behind a handle.\<close>

definition file_of_handle :: "addr \<Rightarrow> 'k win_world \<Rightarrow> handle option" where
  "file_of_handle dev_handle w = do { h \<leftarrow> hnds w dev_handle; d \<leftarrow> devs w (lh_dev h); Some (hFile (ld_os d)) }"

text \<open>\<open>res\<close> is a byte on the stack, not initialized; the result is the number of bytes read.\<close>

definition win_usbyb_get_configuration :: "'k win32 \<Rightarrow> addr \<Rightarrow> bool \<Rightarrow> 'k win_world
    \<Rightarrow> (int \<times> int option \<times> 'k win_world) option" where
  "win_usbyb_get_configuration K dev_handle cached_only w = do {
     file \<leftarrow> file_of_handle dev_handle w;
     (r, res, w) \<leftarrow> sync_device_io_control K file LIBUSB_IOCTL_GET_CACHED_CONFIGURATION (request_of Req_size)
       (stack_bytes 1 w) 1 w;
     (r, res, w) \<leftarrow> (if r \<noteq> 1 \<and> \<not> cached_only
       then sync_device_io_control K file LIBUSB_IOCTL_GET_CONFIGURATION (request_of Req_size) res 1 w
       else Some (r, res, w));
     v \<leftarrow> rd res 0;
     Some (r, if r \<ge> 0 then Some (uint v) else None, w) }"

text \<open>The three requests without data.\<close>

definition plain_request :: "'k win32 \<Rightarrow> addr \<Rightarrow> libusb_ioctl \<Rightarrow> request_union \<Rightarrow> 'k win_world \<Rightarrow> (int \<times> 'k win_world) option" where
  "plain_request K dev_handle code u w = do {
     file \<leftarrow> file_of_handle dev_handle w;
     (r, _, w) \<leftarrow> sync_device_io_control K file code (request_of u) [] 0 w;
     Some (r, w) }"

definition win_usbyb_set_configuration :: "'k win32 \<Rightarrow> addr \<Rightarrow> int \<Rightarrow> 'k win_world \<Rightarrow> (int \<times> 'k win_world) option" where
  "win_usbyb_set_configuration K dev_handle config_value =
     plain_request K dev_handle LIBUSB_IOCTL_SET_CONFIGURATION (Req_configuration (word_of_int config_value))"

definition win_usbyb_claim_interface :: "'k win32 \<Rightarrow> addr \<Rightarrow> int \<Rightarrow> 'k win_world \<Rightarrow> (int \<times> 'k win_world) option" where
  "win_usbyb_claim_interface K dev_handle interface_number =
     plain_request K dev_handle LIBUSB_IOCTL_CLAIM_INTERFACE (Req_intf (word_of_int interface_number))"

definition win_usbyb_release_interface :: "'k win32 \<Rightarrow> addr \<Rightarrow> int \<Rightarrow> 'k win_world \<Rightarrow> (int \<times> 'k win_world) option" where
  "win_usbyb_release_interface K dev_handle interface_number =
     plain_request K dev_handle LIBUSB_IOCTL_RELEASE_INTERFACE (Req_intf (word_of_int interface_number))"

definition win_usbyb_finalize_device :: "'k win32 \<Rightarrow> addr \<Rightarrow> 'k win_world \<Rightarrow> 'k win_world option" where
  "win_usbyb_finalize_device K dev w = do {
     d \<leftarrow> devs w dev;
     w \<leftarrow> EnterCriticalSection (ld_ctx d) w;
     (_, m) \<leftarrow> usbyi_remove_devlist_node (Devnode dev) (nodes w);
     w \<leftarrow> LeaveCriticalSection (ld_ctx d) (w\<lparr>nodes := m\<rparr>);
     Some (win_do (n_CloseHandle K (hFile (ld_os d))) w) }"

definition win_usbyb_open :: "addr \<Rightarrow> 'k win_world \<Rightarrow> (int \<times> 'k win_world) option" where
  "win_usbyb_open dev_handle w = Some (err LIBUSBY_SUCCESS, w)"

definition win_usbyb_close :: "addr \<Rightarrow> 'k win_world \<Rightarrow> 'k win_world option" where
  "win_usbyb_close dev_handle w = Some w"

end
