(* ===== verification/Win32_Transfer.thy ===== *)
theory Win32_Transfer
  imports Win32_Base
begin

text \<open>
  Transfers of the Windows back end: their preparation, the synchronous ones, the queue of
  submitted ones, cancellation and completion (\<^verbatim>\<open>src/os/libusb0_win32.c\<close>). \<open>cb\<close>
  runs the callback of a transfer, which it gets by the address of the whole structure.
\<close>

section \<open>Preparation\<close>

text \<open>
  The code of a request, the request, and the offset and the length of the data behind the buffer
  of the transfer; or the error.
\<close>

definition usbyb_prepare_transfer_submission :: "libusby_transfer \<Rightarrow> 'k win_world
    \<Rightarrow> (int + libusb_ioctl \<times> libusb0_win32_request \<times> nat \<times> int) option" where
  "usbyb_prepare_transfer_submission p w =
     (if lt_type p = type_code LIBUSBY_TRANSFER_TYPE_BULK \<or> lt_type p = type_code LIBUSBY_TRANSFER_TYPE_INTERRUPT then
        Some (Inr (if lt_endpoint p AND 0x80 \<noteq> 0 then LIBUSB_IOCTL_INTERRUPT_OR_BULK_READ
            else LIBUSB_IOCTL_INTERRUPT_OR_BULK_WRITE,
          request_of (Req_endpoint (ucast (lt_endpoint p))), 0, lt_length p))
      else if lt_type p = type_code LIBUSBY_TRANSFER_TYPE_CONTROL then
        (if lt_length p < 8 then Some (Inl (err LIBUSBY_ERROR_INVALID_PARAM)) else do {
         b \<leftarrow> bufs w (lt_buffer p);
         b0 \<leftarrow> rd b 0; b1 \<leftarrow> rd b 1; b2 \<leftarrow> rd b 2; b3 \<leftarrow> rd b 3;
         b4 \<leftarrow> rd b 4; b5 \<leftarrow> rd b 5; b6 \<leftarrow> rd b 6; b7 \<leftarrow> rd b 7;
         if uint (le16 b6 b7) > lt_length p - 8 then Some (Inl (err LIBUSBY_ERROR_INVALID_PARAM))
         else Some (Inr (if b0 AND 0x80 \<noteq> 0 then LIBUSB_IOCTL_CONTROL_READ else LIBUSB_IOCTL_CONTROL_WRITE,
           request_of (Req_control b0 b1 (le16 b2 b3) (le16 b4 b5) (le16 b6 b7)), 8, lt_length p - 8)) })
      else Some (Inl (err LIBUSBY_ERROR_INVALID_PARAM)))"

section \<open>Completion\<close>

text \<open>The sum is one of \<open>DWORD\<close>s, converted to \<open>int\<close>.\<close>

definition finished :: "u32 \<Rightarrow> u32 \<Rightarrow> libusby_transfer \<Rightarrow> libusby_transfer" where
  "finished dwError dwTransferred p =
     (if dwError = ERROR_SUCCESS then
        p\<lparr>lt_actual_length := sint (if lt_type p = type_code LIBUSBY_TRANSFER_TYPE_CONTROL
            then dwTransferred + 8 else dwTransferred),
          lt_status := status_code LIBUSBY_TRANSFER_COMPLETED\<rparr>
      else if dwError = ERROR_OPERATION_ABORTED then
        p\<lparr>lt_actual_length := 0, lt_status := status_code LIBUSBY_TRANSFER_CANCELLED\<rparr>
      else p\<lparr>lt_actual_length := 0, lt_status := status_code LIBUSBY_TRANSFER_ERROR\<rparr>)"

definition usbyb_update_finished_transfer :: "addr \<Rightarrow> u32 \<Rightarrow> u32 \<Rightarrow> 'k win_world \<Rightarrow> 'k win_world option" where
  "usbyb_update_finished_transfer tran dwError dwTransferred w =
     upd_transfer tran (upd_pub (finished dwError dwTransferred)) w"

text \<open>The call of the callback of a transfer, if it has one.\<close>

definition call_back :: "(nat \<Rightarrow> addr \<Rightarrow> 'k win_world \<Rightarrow> 'k win_world option) \<Rightarrow> addr
    \<Rightarrow> 'k win_world \<Rightarrow> 'k win_world option" where
  "call_back cb tran w = do {
     t \<leftarrow> trans w tran;
     if lt_callback (tr_pub t) \<noteq> 0 then cb (lt_callback (tr_pub t)) tran w else Some w }"

section \<open>Synchronous transfers\<close>

definition win_usbyb_perform_transfer :: "'k win32 \<Rightarrow> (nat \<Rightarrow> addr \<Rightarrow> 'k win_world \<Rightarrow> 'k win_world option) \<Rightarrow> addr
    \<Rightarrow> 'k win_world \<Rightarrow> (int \<times> 'k win_world) option" where
  "win_usbyb_perform_transfer K cb tran w = do {
     t \<leftarrow> trans w tran;
     file \<leftarrow> file_of_handle (lt_dev_handle (tr_pub t)) w;
     x \<leftarrow> usbyb_prepare_transfer_submission (tr_pub t) w;
     case x of Inl r \<Rightarrow> Some (r, w)
     | Inr (code, rq, off, data_len) \<Rightarrow> do {
       let p = lt_buffer (tr_pub t);
       out \<leftarrow> bytes_at p off (unat (word_of_int data_len :: u32)) w;
       let (dwError, dwTransferred, out, w) = overlapped_io K file code rq out (p, off) (hEvent (tr_os t)) w;
       w \<leftarrow> store_at p off out w;
       w \<leftarrow> usbyb_update_finished_transfer tran dwError dwTransferred w;
       w \<leftarrow> call_back cb tran w;
       Some (err LIBUSBY_SUCCESS, w) } }"

section \<open>The queue of submitted transfers\<close>

definition enqueue_transfer :: "addr \<Rightarrow> addr \<Rightarrow> 'k win_world \<Rightarrow> 'k win_world option" where
  "enqueue_transfer ctx tran w = do {
     c \<leftarrow> ctxs w ctx;
     w \<leftarrow> upd_transfer tran (\<lambda>t. t\<lparr>it_next := 0, it_prev := trani_last c\<rparr>) w;
     w \<leftarrow> (if trani_last c \<noteq> 0 then upd_transfer (trani_last c) (\<lambda>t. t\<lparr>it_next := tran\<rparr>) w else Some w);
     w \<leftarrow> upd_context ctx (\<lambda>c. c\<lparr>trani_last := tran\<rparr>) w;
     w \<leftarrow> (if trani_first c = 0 then upd_context ctx (\<lambda>c. c\<lparr>trani_first := tran\<rparr>) w else Some w);
     n \<leftarrow> c_int (tran_count c + 1);
     upd_context ctx (\<lambda>c. c\<lparr>tran_count := n\<rparr>) w }"

definition dequeue_transfer :: "addr \<Rightarrow> addr \<Rightarrow> 'k win_world \<Rightarrow> 'k win_world option" where
  "dequeue_transfer ctx tran w = do {
     t \<leftarrow> trans w tran;
     w \<leftarrow> (if it_next t \<noteq> 0 then upd_transfer (it_next t) (\<lambda>s. s\<lparr>it_prev := it_prev t\<rparr>) w
       else upd_context ctx (\<lambda>c. c\<lparr>trani_last := it_prev t\<rparr>) w);
     t \<leftarrow> trans w tran;
     w \<leftarrow> (if it_prev t \<noteq> 0 then upd_transfer (it_prev t) (\<lambda>s. s\<lparr>it_next := it_next t\<rparr>) w
       else upd_context ctx (\<lambda>c. c\<lparr>trani_first := it_next t\<rparr>) w);
     w \<leftarrow> upd_transfer tran (\<lambda>t. t\<lparr>it_next := 0, it_prev := 0\<rparr>) w;
     c \<leftarrow> ctxs w ctx;
     n \<leftarrow> c_int (tran_count c - 1);
     upd_context ctx (\<lambda>c. c\<lparr>tran_count := n\<rparr>) w }"

section \<open>Asynchronous transfers\<close>

definition set_submitted :: "addr \<Rightarrow> int \<Rightarrow> 'k win_world \<Rightarrow> 'k win_world option" where
  "set_submitted tran v w = upd_transfer tran (\<lambda>t. t\<lparr>tr_os := (tr_os t)\<lparr>submitted := v\<rparr>\<rparr>) w"

definition win_usbyb_submit_transfer :: "'k win32 \<Rightarrow> addr \<Rightarrow> 'k win_world \<Rightarrow> (int \<times> 'k win_world) option" where
  "win_usbyb_submit_transfer K tran w = do {
     t \<leftarrow> trans w tran;
     file \<leftarrow> file_of_handle (lt_dev_handle (tr_pub t)) w;
     let ctx = it_ctx t;
     x \<leftarrow> usbyb_prepare_transfer_submission (tr_pub t) w;
     case x of Inl r \<Rightarrow> Some (r, w)
     | Inr (code, rq, off, data_len) \<Rightarrow> do {
       w \<leftarrow> EnterCriticalSection ctx w;
       let p = lt_buffer (tr_pub t);
       out \<leftarrow> bytes_at p off (unat (word_of_int data_len :: u32)) w;
       let (io, w) = win_call (n_DeviceIoControl K file (ioctl_code code) (request_bytes rq) out (p, off) (hEvent (tr_os t))) w;
       w \<leftarrow> store_at p off (overlay (io_data io) out) w;
       if \<not> io_ok io \<and> io_error io \<noteq> ERROR_IO_PENDING then do {
         w \<leftarrow> LeaveCriticalSection ctx w;
         Some (err LIBUSBY_ERROR_IO, w) }
       else do {
       let w = win_do (n_ResetEvent K (hCompletionEvent (tr_os t))) w;
       w \<leftarrow> enqueue_transfer ctx tran w;
       w \<leftarrow> set_submitted tran 1 w;
       c \<leftarrow> ctxs w ctx;
       w \<leftarrow> LeaveCriticalSection ctx (win_do (n_SetEvent K (hTransferListUpdated c)) w);
       Some (err LIBUSBY_SUCCESS, w) } } }"

text \<open>The null pointer as \<open>dev_handle\<close> is caught by the assertion.\<close>

definition win_usbyb_cancel_transfer :: "'k win32 \<Rightarrow> addr \<Rightarrow> 'k win_world \<Rightarrow> (int \<times> 'k win_world) option" where
  "win_usbyb_cancel_transfer K tran w = do {
     t \<leftarrow> trans w tran;
     let ctx = it_ctx t;
     w \<leftarrow> EnterCriticalSection ctx w;
     w \<leftarrow> (if submitted (tr_os t) \<noteq> 0 then do {
         c_assert (lt_dev_handle (tr_pub t) \<noteq> 0);
         file \<leftarrow> file_of_handle (lt_dev_handle (tr_pub t)) w;
         c \<leftarrow> ctxs w ctx;
         if cancel_io_ex c then Some (win_do (n_CancelIoEx K file (hEvent (tr_os t))) w)
         else do {
           (_, _, w) \<leftarrow> sync_device_io_control K file LIBUSB_IOCTL_ABORT_ENDPOINT
             (request_of (Req_endpoint (ucast (lt_endpoint (tr_pub t))))) [] 0 w;
           Some w } }
       else Some w);
     w \<leftarrow> LeaveCriticalSection ctx w;
     Some (err LIBUSBY_SUCCESS, w) }"

text \<open>The bytes of a request that was finished in the background are stored where the driver was told to.\<close>

definition usbyb_reap_transfer :: "'k win32 \<Rightarrow> (nat \<Rightarrow> addr \<Rightarrow> 'k win_world \<Rightarrow> 'k win_world option) \<Rightarrow> addr
    \<Rightarrow> 'k win_world \<Rightarrow> 'k win_world option" where
  "usbyb_reap_transfer K cb tran w = do {
     t \<leftarrow> trans w tran;
     file \<leftarrow> file_of_handle (lt_dev_handle (tr_pub t)) w;
     let ctx = it_ctx t;
     let (io, w) = win_call (n_GetOverlappedResult K file (hEvent (tr_os t))) w;
     w \<leftarrow> store_at (fst (io_dest io)) (snd (io_dest io)) (io_data io) w;
     w \<leftarrow> usbyb_update_finished_transfer tran (if io_ok io then ERROR_SUCCESS else io_error io) (io_transferred io) w;
     w \<leftarrow> EnterCriticalSection ctx w;
     w \<leftarrow> dequeue_transfer ctx tran w;
     w \<leftarrow> set_submitted tran 0 w;
     w \<leftarrow> LeaveCriticalSection ctx w;
     w \<leftarrow> call_back cb tran w;
     w \<leftarrow> EnterCriticalSection ctx w;
     t \<leftarrow> trans w tran;
     LeaveCriticalSection ctx
       (if submitted (tr_os t) = 0 then win_do (n_SetEvent K (hCompletionEvent (tr_os t))) w else w) }"

section \<open>Creation\<close>

definition win_usbyb_init_transfer :: "'k win32 \<Rightarrow> addr \<Rightarrow> 'k win_world \<Rightarrow> (int \<times> 'k win_world) option" where
  "win_usbyb_init_transfer K tran w = do {
     let (done_event, w) = win_call (n_CreateEvent K True True) w;
     w \<leftarrow> upd_transfer tran (\<lambda>t. t\<lparr>tr_os := (tr_os t)\<lparr>hCompletionEvent := done_event\<rparr>\<rparr>) w;
     if done_event = 0 then Some (err LIBUSBY_ERROR_NO_MEM, w) else do {
     let (event, w) = win_call (n_CreateEvent K True True) w;
     w \<leftarrow> upd_transfer tran (\<lambda>t. t\<lparr>tr_os := (tr_os t)\<lparr>hEvent := event\<rparr>\<rparr>) w;
     if event = 0 then Some (err LIBUSBY_ERROR_NO_MEM, win_do (n_CloseHandle K done_event) w) else do {
     w \<leftarrow> set_submitted tran 0 w;
     Some (err LIBUSBY_SUCCESS, w) } } }"

definition win_usbyb_clear_transfer :: "'k win32 \<Rightarrow> addr \<Rightarrow> 'k win_world \<Rightarrow> 'k win_world option" where
  "win_usbyb_clear_transfer K tran w = do {
     t \<leftarrow> trans w tran;
     Some (win_do (n_CloseHandle K (hCompletionEvent (tr_os t))) (win_do (n_CloseHandle K (hEvent (tr_os t))) w)) }"

end
