(* ===== verification/Win32_Loop.thy ===== *)
theory Win32_Loop
  imports Win32_Transfer "HOL-Library.Signed_Division"
begin

text \<open>
  The event loop of the Windows back end: the array of the handles it waits for, and the loop
  that reaps finished transfers until an event is signalled
  (\<^verbatim>\<open>src/os/libusb0_win32.c\<close>). \<open>env\<close> is what the other threads do while this
  one waits. A loop that never ends has the result \<open>None\<close>.
\<close>

section \<open>The array of handles\<close>

definition usbyi_free_handle_list :: "usbyi_handle_list \<Rightarrow> 'k win_world \<Rightarrow> (usbyi_handle_list \<times> 'k win_world) option" where
  "usbyi_free_handle_list hl w = do {
     m \<leftarrow> free_block (harrays (os w)) (hl_handles hl);
     Some (hl\<lparr>hl_handles := 0, hl_capacity := 0\<rparr>, set_harrays m w) }"

text \<open>\<open>realloc\<close> of an array to \<open>n\<close> handles.\<close>

definition realloc_handles :: "addr \<Rightarrow> nat \<Rightarrow> 'k win_world \<Rightarrow> (addr \<times> 'k win_world) option" where
  "realloc_handles old n w = do {
     hs \<leftarrow> (if old = 0 then Some [] else harrays (os w) old);
     let (p, w') = malloc (8 * n) w;
     if p = 0 then Some (0, w')
     else Some (p, set_harrays ((harrays (os w'))(old := None, p \<mapsto> take n (hs @ replicate (n - length hs) None))) w') }"

definition usbyi_reserve_handle_list :: "usbyi_handle_list \<Rightarrow> int \<Rightarrow> 'k win_world
    \<Rightarrow> (int \<times> usbyi_handle_list \<times> 'k win_world) option" where
  "usbyi_reserve_handle_list hl new_capacity w = do {
     let new_capacity = (if new_capacity < 4 then 4 else new_capacity);
     if hl_capacity hl sdiv 4 > new_capacity \<or> hl_capacity hl < new_capacity then do {
       x \<leftarrow> c_int (new_capacity * 3);
       let new_capacity = x sdiv 2;
       (new_handles, w) \<leftarrow> realloc_handles (hl_handles hl) (nat new_capacity) w;
       if new_handles = 0 then Some (err LIBUSBY_ERROR_NO_MEM, hl, w)
       else Some (err LIBUSBY_SUCCESS, hl\<lparr>hl_capacity := new_capacity, hl_handles := new_handles\<rparr>, w) }
     else Some (err LIBUSBY_SUCCESS, hl, w) }"

section \<open>The walk along the queue\<close>

text \<open>
  The events of the queued transfers are stored from index \<open>handle_count\<close> on; at most
  \<open>n\<close> transfers are visited. The result is the array and the number of handles in it.
\<close>

fun fill_handles :: "handle \<Rightarrow> nat \<Rightarrow> addr \<Rightarrow> handle option list \<Rightarrow> nat \<Rightarrow> 'k win_world
    \<Rightarrow> (handle option list \<times> nat) option" where
  "fill_handles hTarget 0 cur arr handle_count w = Some (arr, handle_count)"
| "fill_handles hTarget (Suc n) cur arr handle_count w =
     (if cur = 0 then Some (arr, handle_count) else do {
      t \<leftarrow> trans w cur;
      if hEvent (tr_os t) \<noteq> hTarget then do {
        arr \<leftarrow> wr arr handle_count (Some (hEvent (tr_os t)));
        fill_handles hTarget n (it_next t) arr (Suc handle_count) w }
      else fill_handles hTarget n (it_next t) arr handle_count w })"

text \<open>The first of at most \<open>n\<close> queued transfers with a given event, if any.\<close>

fun find_by_event :: "handle \<Rightarrow> nat \<Rightarrow> addr \<Rightarrow> 'k win_world \<Rightarrow> addr option option" where
  "find_by_event h 0 cur w = Some None"
| "find_by_event h (Suc n) cur w =
     (if cur = 0 then Some None else do {
      t \<leftarrow> trans w cur;
      if hEvent (tr_os t) = h then Some (Some cur) else find_by_event h n (it_next t) w })"

section \<open>The loop\<close>

text \<open>
  The part of a pass under the critical section: the array is filled with the target, the event of
  the queue and the events of the transfers. The result of the reservation is a \<open>DWORD\<close>. It
  leaves that value when the code returns it, else the number of handles.
\<close>

definition collect_handles :: "'k win32 \<Rightarrow> addr \<Rightarrow> handle \<Rightarrow> 'k win_world \<Rightarrow> ((int + nat) \<times> 'k win_world) option" where
  "collect_handles K ctx hTarget w = do {
     w \<leftarrow> EnterCriticalSection ctx w;
     c \<leftarrow> ctxs w ctx;
     n \<leftarrow> c_int (2 + tran_count c);
     (r, hl, w) \<leftarrow> usbyi_reserve_handle_list (handle_list c) n w;
     w \<leftarrow> upd_context ctx (\<lambda>c. c\<lparr>handle_list := hl\<rparr>) w;
     let res = (word_of_int r :: u32);
     if res < 0 then do {
       w \<leftarrow> LeaveCriticalSection ctx w;
       Some (Inl (sint res), w) }
     else do {
     arr \<leftarrow> harrays (os w) (hl_handles hl);
     arr \<leftarrow> wr arr 0 (Some hTarget);
     arr \<leftarrow> wr arr 1 (Some (hTransferListUpdated c));
     (arr, handle_count) \<leftarrow> fill_handles hTarget (nat (tran_count c)) (trani_first c) arr 2 w;
     let w = set_harrays ((harrays (os w))(hl_handles hl \<mapsto> arr)) w;
     w \<leftarrow> LeaveCriticalSection ctx (win_do (n_ResetEvent K (hTransferListUpdated c)) w);
     Some (Inr handle_count, w) } }"

text \<open>The handles of the array that the loop waits for.\<close>

definition waited_handles :: "addr \<Rightarrow> nat \<Rightarrow> 'k win_world \<Rightarrow> handle list option" where
  "waited_handles ctx handle_count w = do {
     c \<leftarrow> ctxs w ctx;
     arr \<leftarrow> harrays (os w) (hl_handles (handle_list c));
     cells \<leftarrow> rd_block arr 0 handle_count;
     those cells }"

text \<open>The transfer of the signalled event, which is read from the array, is reaped.\<close>

definition reap_signalled :: "'k win32 \<Rightarrow> (nat \<Rightarrow> addr \<Rightarrow> 'k win_world \<Rightarrow> 'k win_world option) \<Rightarrow> addr \<Rightarrow> nat
    \<Rightarrow> 'k win_world \<Rightarrow> 'k win_world option" where
  "reap_signalled K cb ctx i w = do {
     c \<leftarrow> ctxs w ctx;
     arr \<leftarrow> harrays (os w) (hl_handles (handle_list c));
     cell \<leftarrow> rd arr i;
     h \<leftarrow> cell;
     found \<leftarrow> find_by_event h (nat (tran_count c)) (trani_first c) w;
     case found of None \<Rightarrow> Some w | Some tran \<Rightarrow> usbyb_reap_transfer K cb tran w }"

abbreviation WAIT_OBJECT_0 :: u32 where "WAIT_OBJECT_0 \<equiv> 0"
abbreviation WAIT_FAILED :: u32 where "WAIT_FAILED \<equiv> 0xFFFFFFFF"

partial_function (option) usbyi_win32_reap_until_locked :: "'k win32 \<Rightarrow> ('k win_world \<Rightarrow> 'k win_world option)
    \<Rightarrow> (nat \<Rightarrow> addr \<Rightarrow> 'k win_world \<Rightarrow> 'k win_world option) \<Rightarrow> addr \<Rightarrow> handle
    \<Rightarrow> 'k win_world \<Rightarrow> (int \<times> 'k win_world) option" where
  "usbyi_win32_reap_until_locked K env cb ctx hTarget w = do {
     x \<leftarrow> collect_handles K ctx hTarget w;
     case fst x of Inl r \<Rightarrow> Some (r, snd x)
     | Inr handle_count \<Rightarrow> do {
       hs \<leftarrow> waited_handles ctx handle_count (snd x);
       w \<leftarrow> env (snd x);
       let (res, w) = win_call (n_WaitForMultipleObjects K hs) w;
       if res < WAIT_OBJECT_0 \<and> res \<ge> WAIT_OBJECT_0 + of_nat handle_count then Some (err LIBUSBY_ERROR_IO, w)
       else if res = WAIT_OBJECT_0 then Some (err LIBUSBY_SUCCESS, w)
       else if res = WAIT_OBJECT_0 + 1 then usbyi_win32_reap_until_locked K env cb ctx hTarget w
       else do {
         w \<leftarrow> reap_signalled K cb ctx (unat (res - WAIT_OBJECT_0)) w;
         usbyi_win32_reap_until_locked K env cb ctx hTarget w } } }"

declare usbyi_win32_reap_until_locked.simps [code]

definition usbyi_win32_reap_until :: "'k win32 \<Rightarrow> ('k win_world \<Rightarrow> 'k win_world option)
    \<Rightarrow> (nat \<Rightarrow> addr \<Rightarrow> 'k win_world \<Rightarrow> 'k win_world option) \<Rightarrow> addr \<Rightarrow> handle
    \<Rightarrow> 'k win_world \<Rightarrow> (int \<times> 'k win_world) option" where
  "usbyi_win32_reap_until K env cb ctx hTarget w = do {
     c \<leftarrow> ctxs w ctx;
     w \<leftarrow> env w;
     let (res, w) = win_call (n_WaitForMultipleObjects K [hTarget, hReaperLock c]) w;
     if res = WAIT_OBJECT_0 then Some (err LIBUSBY_SUCCESS, w)
     else if res = WAIT_OBJECT_0 + 1 then do {
       (r, w) \<leftarrow> usbyi_win32_reap_until_locked K env cb ctx hTarget w;
       c \<leftarrow> ctxs w ctx;
       Some (r, win_do (n_SetEvent K (hReaperLock c)) w) }
     else Some (err LIBUSBY_ERROR_IO, w) }"

definition win_usbyb_wait_for_transfer :: "'k win32 \<Rightarrow> ('k win_world \<Rightarrow> 'k win_world option)
    \<Rightarrow> (nat \<Rightarrow> addr \<Rightarrow> 'k win_world \<Rightarrow> 'k win_world option) \<Rightarrow> addr \<Rightarrow> 'k win_world \<Rightarrow> (int \<times> 'k win_world) option" where
  "win_usbyb_wait_for_transfer K env cb tran w = do {
     t \<leftarrow> trans w tran;
     usbyi_win32_reap_until K env cb (it_ctx t) (hCompletionEvent (tr_os t)) w }"

definition win_usbyb_run_event_loop :: "'k win32 \<Rightarrow> ('k win_world \<Rightarrow> 'k win_world option)
    \<Rightarrow> (nat \<Rightarrow> addr \<Rightarrow> 'k win_world \<Rightarrow> 'k win_world option) \<Rightarrow> addr \<Rightarrow> 'k win_world \<Rightarrow> (int \<times> 'k win_world) option" where
  "win_usbyb_run_event_loop K env cb ctx w = do {
     c \<leftarrow> ctxs w ctx;
     usbyi_win32_reap_until K env cb ctx (hEventLoopStopped c) w }"

definition win_usbyb_stop_event_loop :: "'k win32 \<Rightarrow> addr \<Rightarrow> 'k win_world \<Rightarrow> 'k win_world option" where
  "win_usbyb_stop_event_loop K ctx w = do {
     c \<leftarrow> ctxs w ctx;
     Some (win_do (n_SetEvent K (hEventLoopStopped c)) w) }"

definition win_usbyb_reset_event_loop :: "'k win32 \<Rightarrow> addr \<Rightarrow> 'k win_world \<Rightarrow> 'k win_world option" where
  "win_usbyb_reset_event_loop K ctx w = do {
     c \<leftarrow> ctxs w ctx;
     Some (win_do (n_ResetEvent K (hEventLoopStopped c)) w) }"

end
