(* ===== verification/Win32_Enum.thy ===== *)
theory Win32_Enum
  imports Win32_Base
begin

text \<open>
  The enumeration of the devices by the Windows back end: the names of the 255 devices of the
  driver are tried in order (\<^verbatim>\<open>usbyb_get_device_list\<close> in
  \<^verbatim>\<open>src/os/libusb0_win32.c\<close>).
\<close>

abbreviation INVALID_HANDLE_VALUE :: handle where "INVALID_HANDLE_VALUE \<equiv> -1"
abbreviation LIBUSB_MAX_NUMBER_OF_DEVICES :: nat where "LIBUSB_MAX_NUMBER_OF_DEVICES \<equiv> 256"

text \<open>\<open>wsprintf\<close> of the format with four decimal digits; 0x5C is the backslash.\<close>

definition device_name :: "nat \<Rightarrow> string" where
  "device_name i = [CHR 0x5C, CHR 0x5C, CHR ''.'', CHR 0x5C] @ ''libusb0-'' @
     map (\<lambda>d. char_of (48 + i div d mod 10)) [1000, 100, 10, 1]"

text \<open>The walk along the ring from the node \<open>p\<close>, until the head of the ring.\<close>

partial_function (option) find_by_number :: "addr \<Rightarrow> int \<Rightarrow> devnode_ptr option \<Rightarrow> 'k win_world \<Rightarrow> addr option option" where
  "find_by_number ctx i p w = (case p of
     None \<Rightarrow> None
   | Some (Devlist_head c) \<Rightarrow> c_assert (c = ctx) \<bind> (\<lambda>_. Some None)
   | Some (Devnode dev) \<Rightarrow> devs w dev \<bind> (\<lambda>d.
       if wd_devno (ld_os d) = i then Some (Some dev)
       else nodes w (Devnode dev) \<bind> (\<lambda>n. find_by_number ctx i (dn_next n) w)))"

declare find_by_number.simps [code]

text \<open>
  The branches of the loop body for a device that is in the ring and for one that is not, up to
  the jumps. The first result is whether the label \<open>error\<close> is jumped to.
\<close>

definition list_known :: "addr \<Rightarrow> addr \<Rightarrow> usbyi_device_list \<Rightarrow> 'k win_world
    \<Rightarrow> (bool \<times> usbyi_device_list \<times> 'k win_world) option" where
  "list_known ctx dev devlist w = do {
     (r, devlist, w) \<leftarrow> usbyi_append_device_list devlist dev w;
     if r < 0 then do { w \<leftarrow> LeaveCriticalSection ctx w; Some (True, devlist, w) } else do {
     w \<leftarrow> libusby_ref_device dev w;
     w \<leftarrow> LeaveCriticalSection ctx w;
     Some (False, devlist, w) } }"

text \<open>The condition of the \<open>if\<close>: a step is made only when those before it have succeeded.\<close>

definition describe_device :: "'k win32 \<Rightarrow> handle \<Rightarrow> addr \<Rightarrow> usbyi_device_list \<Rightarrow> 'k win_world
    \<Rightarrow> (bool \<times> usbyi_device_list \<times> 'k win_world) option" where
  "describe_device K file dev devlist w = do {
     (r, cached_desc, w) \<leftarrow> usbyb_get_descriptor_with_handle K file 1 0 0 (stack_bytes 18 w) 18 w;
     if r \<noteq> 18 then Some (True, devlist, w) else do {
     d \<leftarrow> devs w dev;
     (r, desc) \<leftarrow> usbyi_sanitize_device_desc (ld_device_desc d) cached_desc;
     w \<leftarrow> upd_device dev (\<lambda>d. d\<lparr>ld_device_desc := desc\<rparr>) w;
     if r < 0 then Some (True, devlist, w) else do {
     (r, devlist, w) \<leftarrow> usbyi_append_device_list devlist dev w;
     Some (r < 0, devlist, w) } } }"

definition list_new :: "'k win32 \<Rightarrow> nat \<Rightarrow> addr \<Rightarrow> int \<Rightarrow> handle \<Rightarrow> usbyi_device_list \<Rightarrow> 'k win_world
    \<Rightarrow> (bool \<times> usbyi_device_list \<times> 'k win_world) option" where
  "list_new K sz ctx i file devlist w = do {
     (dev, w) \<leftarrow> usbyi_alloc_device sz zero_win_device ctx w;
     if dev = 0 then do { w \<leftarrow> LeaveCriticalSection ctx w; Some (True, devlist, w) } else do {
     w \<leftarrow> upd_device dev (\<lambda>d. d\<lparr>ld_os := \<lparr> wd_devno = i, hFile = file \<rparr>\<rparr>) w;
     m \<leftarrow> usbyi_insert_before_devlist_node (Devnode dev) (Devlist_head ctx) (nodes w);
     (failed, devlist, w) \<leftarrow> describe_device K file dev devlist (w\<lparr>nodes := m\<rparr>);
     w \<leftarrow> LeaveCriticalSection ctx w;
     if failed then do {
       w \<leftarrow> libusby_unref_device (win_usbyb_finalize_device K) dev w;
       Some (True, devlist, w) }
     else Some (False, devlist, w) } }"

definition list_entry :: "'k win32 \<Rightarrow> nat \<Rightarrow> addr \<Rightarrow> nat \<Rightarrow> usbyi_device_list \<Rightarrow> 'k win_world
    \<Rightarrow> (bool \<times> usbyi_device_list \<times> 'k win_world) option" where
  "list_entry K sz ctx i devlist w =
     (case win_call (n_CreateFile K (device_name i)) w of (file, w) \<Rightarrow>
      if file = INVALID_HANDLE_VALUE then Some (False, devlist, w) else do {
      w \<leftarrow> EnterCriticalSection ctx w;
      head \<leftarrow> nodes w (Devlist_head ctx);
      found \<leftarrow> find_by_number ctx (int i) (dn_next head) w;
      case found of Some dev \<Rightarrow> list_known ctx dev devlist (win_do (n_CloseHandle K file) w)
      | None \<Rightarrow> list_new K sz ctx (int i) file devlist w })"

fun list_entries :: "'k win32 \<Rightarrow> nat \<Rightarrow> addr \<Rightarrow> nat list \<Rightarrow> usbyi_device_list \<Rightarrow> 'k win_world
    \<Rightarrow> (bool \<times> usbyi_device_list \<times> 'k win_world) option" where
  "list_entries K sz ctx [] devlist w = Some (False, devlist, w)"
| "list_entries K sz ctx (i # is) devlist w = do {
     (jump, devlist, w) \<leftarrow> list_entry K sz ctx i devlist w;
     if jump then Some (True, devlist, w) else list_entries K sz ctx is devlist w }"

definition win_usbyb_get_device_list :: "'k win32 \<Rightarrow> nat \<Rightarrow> addr \<Rightarrow> 'k win_world
    \<Rightarrow> (int \<times> addr option \<times> 'k win_world) option" where
  "win_usbyb_get_device_list K sz ctx w = do {
     (jump, devlist, w) \<leftarrow> list_entries K sz ctx [1..<LIBUSB_MAX_NUMBER_OF_DEVICES] empty_device_list w;
     if \<not> jump then Some (dl_count devlist, Some (dl_list devlist), w) else do {
     w \<leftarrow> (if dl_list devlist \<noteq> 0
       then libusby_free_device_list (win_usbyb_finalize_device K) (dl_list devlist) True w
       else Some w);
     Some (err LIBUSBY_ERROR_NO_MEM, None, w) } }"

end
