(* ===== verification/Win32_Backend.thy ===== *)
theory Win32_Backend
  imports Win32_Loop Win32_Enum Client Enum_Refs
begin

text \<open>
  The Windows back end as an instance of the interface \<^verbatim>\<open>src/os/os.h\<close>, and the
  proof that it keeps the contract of the front end on references.
\<close>

section \<open>The instance\<close>

definition win_backend :: "'k win32 \<Rightarrow> object_sizes \<Rightarrow> ('k win_world \<Rightarrow> 'k win_world option)
    \<Rightarrow> (nat \<Rightarrow> addr \<Rightarrow> 'k win_world \<Rightarrow> 'k win_world option)
    \<Rightarrow> (win_context, win_device, unit, win_transfer, 'k win_os) backend" where
  "win_backend K sz env cb = \<lparr>
     zero_context = zero_win_context,
     zero_device = zero_win_device,
     zero_device_handle = (),
     zero_transfer = zero_win_transfer,
     usbyb_context_size = sz_context sz,
     usbyb_device_size = sz_device sz,
     usbyb_device_handle_size = sz_device_handle sz,
     usbyb_transfer_size = sz_transfer sz,
     usbyb_transfer_pub_offset = sz_pub_offset sz,
     usbyb_init = win_usbyb_init K,
     usbyb_exit = win_usbyb_exit K,
     usbyb_get_device_list = win_usbyb_get_device_list K (sz_device sz),
     usbyb_finalize_device = win_usbyb_finalize_device K,
     usbyb_open = win_usbyb_open,
     usbyb_close = win_usbyb_close,
     usbyb_get_descriptor = win_usbyb_get_descriptor K,
     usbyb_get_descriptor_cached = win_usbyb_get_descriptor_cached K,
     usbyb_get_configuration = win_usbyb_get_configuration K,
     usbyb_set_configuration = win_usbyb_set_configuration K,
     usbyb_claim_interface = win_usbyb_claim_interface K,
     usbyb_release_interface = win_usbyb_release_interface K,
     usbyb_perform_transfer = win_usbyb_perform_transfer K cb,
     usbyb_submit_transfer = win_usbyb_submit_transfer K,
     usbyb_cancel_transfer = win_usbyb_cancel_transfer K,
     usbyb_wait_for_transfer = win_usbyb_wait_for_transfer K env cb,
     usbyb_run_event_loop = win_usbyb_run_event_loop K env cb,
     usbyb_stop_event_loop = win_usbyb_stop_event_loop K,
     usbyb_reset_event_loop = win_usbyb_reset_event_loop K,
     usbyb_init_transfer = win_usbyb_init_transfer K,
     usbyb_clear_transfer = win_usbyb_clear_transfer K \<rparr>"

text \<open>Its members.\<close>

lemma win_backend_simps [simp]:
  "zero_context (win_backend K sz env cb) = zero_win_context"
  "zero_device (win_backend K sz env cb) = zero_win_device"
  "zero_device_handle (win_backend K sz env cb) = ()"
  "zero_transfer (win_backend K sz env cb) = zero_win_transfer"
  "usbyb_context_size (win_backend K sz env cb) = sz_context sz"
  "usbyb_device_size (win_backend K sz env cb) = sz_device sz"
  "usbyb_device_handle_size (win_backend K sz env cb) = sz_device_handle sz"
  "usbyb_transfer_size (win_backend K sz env cb) = sz_transfer sz"
  "usbyb_transfer_pub_offset (win_backend K sz env cb) = sz_pub_offset sz"
  "usbyb_init (win_backend K sz env cb) = win_usbyb_init K"
  "usbyb_exit (win_backend K sz env cb) = win_usbyb_exit K"
  "usbyb_get_device_list (win_backend K sz env cb) = win_usbyb_get_device_list K (sz_device sz)"
  "usbyb_finalize_device (win_backend K sz env cb) = win_usbyb_finalize_device K"
  "usbyb_open (win_backend K sz env cb) = win_usbyb_open"
  "usbyb_close (win_backend K sz env cb) = win_usbyb_close"
  "usbyb_get_descriptor (win_backend K sz env cb) = win_usbyb_get_descriptor K"
  "usbyb_get_descriptor_cached (win_backend K sz env cb) = win_usbyb_get_descriptor_cached K"
  "usbyb_get_configuration (win_backend K sz env cb) = win_usbyb_get_configuration K"
  "usbyb_set_configuration (win_backend K sz env cb) = win_usbyb_set_configuration K"
  "usbyb_claim_interface (win_backend K sz env cb) = win_usbyb_claim_interface K"
  "usbyb_release_interface (win_backend K sz env cb) = win_usbyb_release_interface K"
  "usbyb_perform_transfer (win_backend K sz env cb) = win_usbyb_perform_transfer K cb"
  "usbyb_submit_transfer (win_backend K sz env cb) = win_usbyb_submit_transfer K"
  "usbyb_cancel_transfer (win_backend K sz env cb) = win_usbyb_cancel_transfer K"
  "usbyb_wait_for_transfer (win_backend K sz env cb) = win_usbyb_wait_for_transfer K env cb"
  "usbyb_run_event_loop (win_backend K sz env cb) = win_usbyb_run_event_loop K env cb"
  "usbyb_stop_event_loop (win_backend K sz env cb) = win_usbyb_stop_event_loop K"
  "usbyb_reset_event_loop (win_backend K sz env cb) = win_usbyb_reset_event_loop K"
  "usbyb_init_transfer (win_backend K sz env cb) = win_usbyb_init_transfer K"
  "usbyb_clear_transfer (win_backend K sz env cb) = win_usbyb_clear_transfer K"
  by (simp_all add: win_backend_def)

section \<open>The operations that keep references\<close>

lemma set_wkern_frame [simp]:
  "devs (set_wkern k w) = devs w" "hnds (set_wkern k w) = hnds w" "trans (set_wkern k w) = trans w"
  "bufs (set_wkern k w) = bufs w" "ctxs (set_wkern k w) = ctxs w" "nodes (set_wkern k w) = nodes w"
  "dlists (set_wkern k w) = dlists w" "next_addr (set_wkern k w) = next_addr w"
  "wkern (os (set_wkern k w)) = k" "harrays (os (set_wkern k w)) = harrays (os w)"
  by (simp_all add: set_wkern_def)

lemma set_wkern_keeps [simp]: "keeps_refs w (set_wkern k w)"
  by (rule keeps_refsI) simp_all

lemma win_do_keeps [simp]: "keeps_refs w (win_do f w)"
  by (simp add: win_do_def)

lemma win_call_keeps: "win_call f w = (x, w') \<Longrightarrow> keeps_refs w w'"
  by (auto simp: win_call_def split: prod.splits)

lemma enter_keeps: "EnterCriticalSection ctx w = Some w' \<Longrightarrow> keeps_refs w w'"
  by (auto simp: EnterCriticalSection_def monad_simps)

lemma leave_keeps: "LeaveCriticalSection ctx w = Some w' \<Longrightarrow> keeps_refs w w'"
  by (auto simp: LeaveCriticalSection_def monad_simps)

lemma store_at_keeps: "store_at p off data w = Some w' \<Longrightarrow> keeps_refs w w'"
  by (auto simp: store_at_def bind_Some_conv split: if_splits)

lemma overlapped_io_keeps:
  assumes "overlapped_io K file code rq out dest event w = (e, n, out', w')"
  shows "keeps_refs w w'"
proof -
  obtain x w1 where x: "win_call (n_DeviceIoControl K file (ioctl_code code) (request_bytes rq) out dest event) w = (x, w1)"
    by force
  obtain y w2 where y: "win_call (n_GetOverlappedResult K file event) w1 = (y, w2)" by force
  have "w' = w1 \<or> w' = w2" using assms x y by (auto simp: overlapped_io_def Let_def split: if_splits)
  then show ?thesis
    using win_call_keeps [OF x] keeps_refs_trans [OF win_call_keeps [OF x] win_call_keeps [OF y]] by blast
qed

lemma sync_io_keeps:
  assumes "sync_device_io_control K file code rq out n w = Some (r, out', w')"
  shows "keeps_refs w w'"
proof -
  obtain event w1 where e: "win_call (n_CreateEvent K True False) w = (event, w1)" by force
  note k1 = win_call_keeps [OF e]
  show ?thesis
  proof (cases "event = 0")
    case True
    then show ?thesis using assms e k1 by (simp add: sync_device_io_control_def)
  next
    case False
    then obtain o1 where o1: "rd_block out 0 (unat (word_of_int n :: u32)) = Some o1"
      using assms e by (auto simp: sync_device_io_control_def bind_Some_conv)
    obtain q m o2 w2 where io: "overlapped_io K file code rq o1 (0, 0) event w1 = (q, m, o2, w2)" by (metis prod_cases4)
    have "w' = win_do (n_CloseHandle K event) w2"
      using assms e False o1 io by (auto simp: sync_device_io_control_def bind_Some_conv)
    then show ?thesis
      using keeps_refs_trans [OF keeps_refs_trans [OF k1 overlapped_io_keeps [OF io]] win_do_keeps] by simp
  qed
qed

lemma win_finalize_keeps:
  assumes "win_usbyb_finalize_device K dev w = Some w'"
  shows "keeps_refs w w'"
proof -
  obtain d w1 m w2 where "devs w dev = Some d" and w1: "EnterCriticalSection (ld_ctx d) w = Some w1"
    and w2: "LeaveCriticalSection (ld_ctx d) (w1\<lparr>nodes := m\<rparr>) = Some w2"
    and w': "w' = win_do (n_CloseHandle K (hFile (ld_os d))) w2"
    using assms by (auto simp: win_usbyb_finalize_device_def bind_Some_conv)
  show ?thesis
    unfolding w' using keeps_refs_trans [OF enter_keeps [OF w1] keeps_refs_trans [OF nodes_keeps leave_keeps [OF w2]]]
    by (rule keeps_refs_trans) simp
qed

lemma win_descriptor_cached_keeps:
  "win_usbyb_get_descriptor_cached K d ty ix lang data len w = Some (r, data', w') \<Longrightarrow> keeps_refs w w'"
  by (auto simp: win_usbyb_get_descriptor_cached_def usbyb_get_descriptor_with_handle_def bind_Some_conv
      dest: sync_io_keeps)

lemma win_descriptor_keeps:
  "win_usbyb_get_descriptor K h ty ix lang data len w = Some (r, data', w') \<Longrightarrow> keeps_refs w w'"
  by (auto simp: win_usbyb_get_descriptor_def bind_Some_conv dest: win_descriptor_cached_keeps)

lemma win_init_transfer_keeps:
  assumes run: "win_usbyb_init_transfer K t w = Some (r, w')"
  shows "keeps_refs w w'"
proof -
  obtain a w1 where a: "win_call (n_CreateEvent K True True) w = (a, w1)" by force
  obtain w2 where w2: "upd_transfer t (\<lambda>t. t\<lparr>tr_os := (tr_os t)\<lparr>hCompletionEvent := a\<rparr>\<rparr>) w1 = Some w2"
    using run a by (auto simp: win_usbyb_init_transfer_def bind_Some_conv)
  obtain b w3 where b: "win_call (n_CreateEvent K True True) w2 = (b, w3)" by force
  note p = run [unfolded win_usbyb_init_transfer_def a w2 b Let_def prod.case bind.bind_lunit]
  note k2 = keeps_refs_trans [OF win_call_keeps [OF a] upd_transfer_keeps_refs [OF w2]]
  show ?thesis
  proof (cases "a = 0")
    case True
    then show ?thesis using p k2 by simp
  next
    case False
    then obtain w4 where w4: "upd_transfer t (\<lambda>t. t\<lparr>tr_os := (tr_os t)\<lparr>hEvent := b\<rparr>\<rparr>) w3 = Some w4"
      using p by (auto simp: bind_Some_conv)
    note k4 = keeps_refs_trans [OF k2 keeps_refs_trans [OF win_call_keeps [OF b] upd_transfer_keeps_refs [OF w4]]]
    show ?thesis
    proof (cases "b = 0")
      case True
      then have "w' = win_do (n_CloseHandle K a) w4" using p False w4 by simp
      then show ?thesis using keeps_refs_trans [OF k4 win_do_keeps] by simp
    next
      case nz: False
      then have "set_submitted t 0 w4 = Some w'" using p False w4 by (auto simp: bind_Some_conv)
      then show ?thesis using keeps_refs_trans [OF k4 upd_transfer_keeps_refs] by (simp add: set_submitted_def)
    qed
  qed
qed

lemma win_clear_transfer_keeps: "win_usbyb_clear_transfer K t w = Some w' \<Longrightarrow> keeps_refs w w'"
  by (auto simp: win_usbyb_clear_transfer_def bind_Some_conv intro: keeps_refs_trans [OF win_do_keeps win_do_keeps])

lemma overlapped_trans:
  "overlapped_io K file code rq out dest event w = (e, n, out', w') \<Longrightarrow> trans w' = trans w"
  by (auto simp: overlapped_io_def win_call_def Let_def split: prod.splits if_splits)

lemma store_trans: "store_at p off data w = Some w' \<Longrightarrow> trans w' = trans w"
  by (auto simp: store_at_def bind_Some_conv split: if_splits)

lemma prepare_not_unsupported:
  "usbyb_prepare_transfer_submission p w = Some (Inl r) \<Longrightarrow> r = err LIBUSBY_ERROR_INVALID_PARAM"
  by (auto simp: usbyb_prepare_transfer_submission_def bind_Some_conv split: if_splits)

lemma finished_frame [simp]:
  "lt_callback (finished e n p) = lt_callback p" "lt_type (finished e n p) = lt_type p"
  "lt_buffer (finished e n p) = lt_buffer p" "lt_dev_handle (finished e n p) = lt_dev_handle p"
  by (simp_all add: finished_def)

lemma win_perform_keeps:
  assumes run: "win_usbyb_perform_transfer K cb t w = Some (r, w')" and sync: "sync_control t w"
  shows "keeps_refs w w' \<and> r \<noteq> err LIBUSBY_ERROR_NOT_SUPPORTED"
proof -
  obtain x fl y where x: "trans w t = Some x" "lt_callback (tr_pub x) = 0"
    "file_of_handle (lt_dev_handle (tr_pub x)) w = Some fl" "usbyb_prepare_transfer_submission (tr_pub x) w = Some y"
    using run sync by (auto simp: sync_control_def win_usbyb_perform_transfer_def bind_Some_conv)
  show ?thesis
  proof (cases y)
    case (Inl e)
    then show ?thesis using run x prepare_not_unsupported [of "tr_pub x" w e] by (simp add: win_usbyb_perform_transfer_def)
  next
    case (Inr z)
    obtain code rq off len where z: "z = (code, rq, off, len)" by (metis prod_cases4)
    let ?p = "lt_buffer (tr_pub x)"
    note p = run [unfolded win_usbyb_perform_transfer_def x(1,3,4) Inr z Let_def sum.case prod.case bind.bind_lunit]
    obtain out where out: "bytes_at ?p off (unat (word_of_int len :: u32)) w = Some out"
      using p by (auto simp: bind_Some_conv)
    obtain e n out' w1 where io: "overlapped_io K fl code rq out (?p, off) (hEvent (tr_os x)) w = (e, n, out', w1)"
      by (metis prod_cases4)
    obtain w2 w3 where w2: "store_at ?p off out' w1 = Some w2"
      and w3: "usbyb_update_finished_transfer t e n w2 = Some w3" "call_back cb t w3 = Some w'" "r = err LIBUSBY_SUCCESS"
      using p [unfolded out bind.bind_lunit io prod.case] by (auto simp: bind_Some_conv)
    have tr: "trans w2 t = Some x"
      using overlapped_trans [OF io] store_trans [OF w2] x(1) by simp
    then have "w' = w3" using w3(1,2) x(2) by (auto simp: usbyb_update_finished_transfer_def call_back_def upd_Some upd_pub_def)
    then show ?thesis
      using keeps_refs_trans [OF keeps_refs_trans [OF overlapped_io_keeps [OF io] store_at_keeps [OF w2]] upd_transfer_keeps_refs] w3
      by (simp add: usbyb_update_finished_transfer_def)
  qed
qed

interpretation win_fin: finalizer "win_usbyb_finalize_device K" for K
  by unfold_locales (rule win_finalize_keeps)

section \<open>The list of devices\<close>

lemma find_by_number_live:
  assumes "find_by_number ctx i p w = Some (Some dev)"
  shows "devs w dev \<noteq> None"
proof -
  have "\<forall>d. Some dev = Some d \<longrightarrow> devs w d \<noteq> None"
    by (rule find_by_number.raw_induct [of "\<lambda>ctx i p w r. \<forall>d. r = Some d \<longrightarrow> devs w d \<noteq> None", OF _ assms])
      (auto simp: bind_Some_conv split: option.splits devnode_ptr.splits if_splits)
  then show ?thesis by simp
qed

lemma list_known_refs:
  assumes list: "list_refs_inv own T ds w" and dev: "devs w dev \<noteq> None"
    and run: "list_known ctx dev ds w = Some (jump, ds', w')"
  shows "list_refs_inv own T ds' w'"
proof -
  obtain xs where inv: "enum_inv (\<lambda>d. own d + count_list xs d) T ds xs w"
    using list by (auto simp: list_refs_inv_def)
  have "dev \<noteq> 0" using dev inv refs_ok_null(2) [of _ w] by (metis enum_inv_def)
  obtain r ds1 w1 where w1: "usbyi_append_device_list ds dev w = Some (r, ds1, w1)"
    "(if r < 0 then do { w \<leftarrow> LeaveCriticalSection ctx w1; Some (True, ds1, w) } else do {
     w \<leftarrow> libusby_ref_device dev w1;
     w \<leftarrow> LeaveCriticalSection ctx w;
     Some (False, ds1, w) }) = Some (jump, ds', w')"
    using run by (auto simp: list_known_def bind_Some_conv)
  from enum_append [OF inv \<open>dev \<noteq> 0\<close> w1(1)] show ?thesis
  proof (elim disjE conjE)
    assume a: "r = err LIBUSBY_ERROR_NO_MEM" "enum_inv (\<lambda>d. own d + count_list xs d) T ds1 xs w1"
    then have "list_refs_inv own T ds1 w1" "LeaveCriticalSection ctx w1 = Some w'" "ds' = ds1"
      using w1(2) by (auto simp: list_refs_inv_def bind_Some_conv)
    then show ?thesis using list_refs_inv_keeps [OF leave_keeps] by simp
  next
    assume a: "r = err LIBUSBY_SUCCESS" "enum_inv (\<lambda>d. own d + count_list xs d) T ds1 (xs @ [dev]) w1"
    then obtain w2 where w2: "libusby_ref_device dev w1 = Some w2" "LeaveCriticalSection ctx w2 = Some w'" "ds' = ds1"
      using w1(2) by (auto simp: bind_Some_conv)
    then show ?thesis using list_refs_inv_keeps [OF leave_keeps known_device_refs [OF a(2)]] by simp
  qed
qed

lemma describe_device_refs:
  assumes inv: "enum_inv own T ds xs w" and dev: "dev \<noteq> 0"
    and run: "describe_device K fl dev ds w = Some (failed, ds', w')"
  shows "enum_inv own T ds' (if failed then xs else xs @ [dev]) w'"
proof -
  obtain r raw w1 where w1: "usbyb_get_descriptor_with_handle K fl 1 0 0 (stack_bytes 18 w) 18 w = Some (r, raw, w1)"
    using run by (auto simp: describe_device_def bind_Some_conv)
  have inv1: "enum_inv own T ds xs w1"
    using sync_io_keeps w1 enum_inv_keeps [OF _ inv] by (simp add: usbyb_get_descriptor_with_handle_def) blast
  note p = run [unfolded describe_device_def w1 prod.case bind.bind_lunit]
  show ?thesis
  proof (cases "r = 18")
    case False
    then show ?thesis using p inv1 by simp
  next
    case True
    then obtain d r2 desc where d: "devs w1 dev = Some d" "usbyi_sanitize_device_desc (ld_device_desc d) raw = Some (r2, desc)"
      using p by (auto simp: bind_Some_conv)
    then obtain w2 where w2: "upd_device dev (\<lambda>d. d\<lparr>ld_device_desc := desc\<rparr>) w1 = Some w2"
      using p True by (auto simp: bind_Some_conv)
    have rest: "(if r2 < 0 then Some (True, ds, w2) else do {
         (r, ds, w) \<leftarrow> usbyi_append_device_list ds dev w2;
         Some (r < 0, ds, w) }) = Some (failed, ds', w')"
      using p True by (simp add: d w2)
    have inv2: "enum_inv own T ds xs w2" by (rule enum_upd_device [OF inv1 w2]) simp
    show ?thesis
    proof (cases "r2 < 0")
      case True
      then show ?thesis using rest inv2 by simp
    next
      case False
      then obtain q where "usbyi_append_device_list ds dev w2 = Some (q, ds', w')" "failed = (q < 0)"
        using rest by (auto simp: bind_Some_conv)
      then show ?thesis using enum_append [OF inv2 dev] by auto
    qed
  qed
qed

lemma list_new_refs:
  assumes list: "list_refs_inv own T ds w"
    and run: "list_new K sz ctx i fl ds w = Some (jump, ds', w')"
  shows "list_refs_inv own T ds' w'"
proof -
  obtain xs where inv: "enum_inv (\<lambda>d. own d + count_list xs d) T ds xs w"
    using list by (auto simp: list_refs_inv_def)
  let ?own = "\<lambda>d. own d + count_list xs d"
  obtain dev w1 where w1: "usbyi_alloc_device sz zero_win_device ctx w = Some (dev, w1)"
    using run by (auto simp: list_new_def bind_Some_conv)
  let ?own1 = "?own(dev := Suc (?own dev))"
  have dev: "dev \<noteq> 0" and inv1: "enum_inv ?own1 T ds xs w1" using enum_alloc [OF inv w1] by simp_all
  obtain w2 m where w2: "upd_device dev (\<lambda>d. d\<lparr>ld_os := \<lparr> wd_devno = i, hFile = fl \<rparr>\<rparr>) w1 = Some w2"
    and m: "usbyi_insert_before_devlist_node (Devnode dev) (Devlist_head ctx) (nodes w2) = Some m"
    using run w1 dev by (auto simp: list_new_def bind_Some_conv)
  note p = run [unfolded list_new_def w1 prod.case bind.bind_lunit if_not_P [OF dev] w2 m]
  obtain failed ds3 w3 where w3: "describe_device K fl dev ds (w2\<lparr>nodes := m\<rparr>) = Some (failed, ds3, w3)"
    using p by (auto simp: bind_Some_conv)
  obtain w4 where w4: "LeaveCriticalSection ctx w3 = Some w4"
    using p by (auto simp: w3 bind_Some_conv)
  have rest: "(if failed then do { w \<leftarrow> libusby_unref_device (win_usbyb_finalize_device K) dev w4; Some (True, ds3, w) }
        else Some (False, ds3, w4)) = Some (jump, ds', w')"
    using p by (simp add: w3 w4)
  have "enum_inv ?own1 T ds xs w2" by (rule enum_upd_device [OF inv1 w2]) simp
  then have "enum_inv ?own1 T ds xs (w2\<lparr>nodes := m\<rparr>)" by (rule enum_inv_keeps [OF nodes_keeps])
  then have inv4: "enum_inv ?own1 T ds3 (if failed then xs else xs @ [dev]) w4"
    by (rule enum_inv_keeps [OF leave_keeps [OF w4] describe_device_refs [OF _ dev w3]])
  show ?thesis
  proof (cases failed)
    case True
    then obtain "libusby_unref_device (win_usbyb_finalize_device K) dev w4 = Some w'" "ds' = ds3"
      using rest by (auto simp: bind_Some_conv)
    then show ?thesis using win_fin.enum_unref [of ?own dev T ds3 xs w4] inv4 True by (auto simp: list_refs_inv_def)
  next
    case False
    then have "ds' = ds3" "w' = w4" using rest by simp_all
    moreover have "?own1 = (\<lambda>d. own d + count_list (xs @ [dev]) d)" by (rule own_append)
    ultimately show ?thesis using inv4 False unfolding list_refs_inv_def by (intro exI [of _ "xs @ [dev]"]) simp
  qed
qed

lemma list_entry_refs:
  assumes list: "list_refs_inv own T ds w"
    and run: "list_entry K sz ctx i ds w = Some (jump, ds', w')"
  shows "list_refs_inv own T ds' w'"
proof -
  obtain fl w1 where w1: "win_call (n_CreateFile K (device_name i)) w = (fl, w1)" by force
  have list1: "list_refs_inv own T ds w1" by (rule list_refs_inv_keeps [OF win_call_keeps [OF w1] list])
  note p = run [unfolded list_entry_def w1 prod.case]
  show ?thesis
  proof (cases "fl = INVALID_HANDLE_VALUE")
    case True
    then show ?thesis using p list1 by simp
  next
    case False
    then obtain w2 head where w2: "EnterCriticalSection ctx w1 = Some w2" and head: "nodes w2 (Devlist_head ctx) = Some head"
      using p by (auto simp: bind_Some_conv)
    then obtain found where found: "find_by_number ctx (int i) (dn_next head) w2 = Some found"
      using p False by (auto simp: bind_Some_conv)
    have rest: "(case found of Some dev \<Rightarrow> list_known ctx dev ds (win_do (n_CloseHandle K fl) w2)
        | None \<Rightarrow> list_new K sz ctx (int i) fl ds w2) = Some (jump, ds', w')"
      using p False by (simp add: w2 head found)
    have list2: "list_refs_inv own T ds w2" by (rule list_refs_inv_keeps [OF enter_keeps [OF w2] list1])
    show ?thesis
    proof (cases found)
      case None
      then show ?thesis using rest list_new_refs [OF list2] by simp
    next
      case (Some dev)
      then have "devs (win_do (n_CloseHandle K fl) w2) dev \<noteq> None"
        using found find_by_number_live [of ctx "int i" "dn_next head" w2 dev] by (simp add: win_do_def)
      then show ?thesis
        using Some rest list_known_refs [OF list_refs_inv_keeps [OF win_do_keeps list2]] by simp
    qed
  qed
qed

lemma list_entries_refs:
  assumes "list_refs_inv own T ds w" "list_entries K sz ctx is ds w = Some (jump, ds', w')"
  shows "list_refs_inv own T ds' w'"
  using assms
proof (induction "is" arbitrary: ds w)
  case Nil
  then show ?case by simp
next
  case (Cons i "is")
  then obtain j1 ds1 w1 where e: "list_entry K sz ctx i ds w = Some (j1, ds1, w1)"
    "(if j1 then Some (True, ds1, w1) else list_entries K sz ctx is ds1 w1) = Some (jump, ds', w')"
    by (auto simp: bind_Some_conv)
  then show ?case using list_entry_refs [OF Cons.prems(1) e(1)] Cons.IH [of ds1 w1] by (cases j1) simp_all
qed

lemma win_list_refs:
  assumes run: "win_usbyb_get_device_list K sz ctx w = Some (r, l, w')" and ok: "refs_ok own w"
  shows "targets w' = targets w \<and>
      (if r < 0 then refs_ok own w' \<and> l = None \<and> dlists w' = dlists w
       else \<exists>xs p. l = Some p \<and> list_at w' p xs \<and> 0 \<notin> set xs \<and> length xs = nat r \<and>
         only_array p (dlists w) (dlists w') \<and> refs_ok (\<lambda>d. own d + count_list xs d) w')"
proof -
  obtain jump ds w1 where w1: "list_entries K sz ctx [1..<256] empty_device_list w = Some (jump, ds, w1)"
    using run by (auto simp: win_usbyb_get_device_list_def bind_Some_conv)
  note list = list_entries_refs [OF empty_list_refs [OF ok] w1]
  note p = run [unfolded win_usbyb_get_device_list_def w1 prod.case bind.bind_lunit]
  show ?thesis
  proof (cases jump)
    case False
    then have "r = dl_count ds" "l = Some (dl_list ds)" "w' = w1" using p by simp_all
    then show ?thesis using complete_list [OF list] by auto
  next
    case True
    then have "(if dl_list ds \<noteq> 0 then libusby_free_device_list (win_usbyb_finalize_device K) (dl_list ds) True w1
        else Some w1) = Some w'" "r = err LIBUSBY_ERROR_NO_MEM" "l = None"
      using p by (auto simp: bind_Some_conv)
    then show ?thesis using win_fin.give_up_list [OF list] by simp
  qed
qed

interpretation win: os_contract "win_backend K sz env cb" for K sz env cb
proof unfold_locales
qed (auto simp: win_list_refs win_finalize_keeps win_usbyb_open_def win_usbyb_close_def win_init_transfer_keeps
    win_clear_transfer_keeps dest: win_descriptor_keeps win_perform_keeps)

end
