(* ===== verification/Win32_Example.thy ===== *)
theory Win32_Example
  imports Win32_Backend "HOL-Library.Multiset"
begin

text \<open>
  One context, device and handle over a system in which every call succeeds at once and that
  keeps a list of its open handles: the concrete state on which the properties of the Windows
  back end are applied. Also the documented behaviour of the system on handles that the
  accounting of handles relies on.
\<close>

section \<open>Handles of the system\<close>

text \<open>
  \<open>held k\<close> are the open handles, modules included, of a state of the system: a call that
  returns a new handle adds it, a call that releases one removes it, and no other call changes
  them.
\<close>

definition counts_handles :: "'k win32 \<Rightarrow> ('k \<Rightarrow> handle multiset) \<Rightarrow> bool" where
  "counts_handles K held \<longleftrightarrow>
     (\<forall>k h k'. n_LoadLibrary K k = (h, k') \<longrightarrow> held k' = (if h = 0 then held k else add_mset h (held k))) \<and>
     (\<forall>m i k h k'. n_CreateEvent K m i k = (h, k') \<longrightarrow> held k' = (if h = 0 then held k else add_mset h (held k))) \<and>
     (\<forall>h k. held (n_FreeLibrary K h k) = held k - {#h#}) \<and>
     (\<forall>h k. held (n_CloseHandle K h k) = held k - {#h#}) \<and>
     (\<forall>h k b k'. n_GetProcAddress K h k = (b, k') \<longrightarrow> held k' = held k) \<and>
     (\<forall>f c i out d e k x k'. n_DeviceIoControl K f c i out d e k = (x, k') \<longrightarrow> held k' = held k) \<and>
     (\<forall>f e k x k'. n_GetOverlappedResult K f e k = (x, k') \<longrightarrow> held k' = held k)"

lemma counts_handlesD:
  assumes "counts_handles K held"
  shows "n_LoadLibrary K k = (h, k') \<Longrightarrow> held k' = (if h = 0 then held k else add_mset h (held k))"
    "n_CreateEvent K m i k = (h, k') \<Longrightarrow> held k' = (if h = 0 then held k else add_mset h (held k))"
    "held (n_FreeLibrary K h k) = held k - {#h#}" "held (n_CloseHandle K h k) = held k - {#h#}"
    "n_GetProcAddress K h k = (b, k') \<Longrightarrow> held k' = held k"
    "n_DeviceIoControl K f c bs out (a, n) e k = (x, k') \<Longrightarrow> held k' = held k"
    "n_GetOverlappedResult K f e k = (x, k') \<Longrightarrow> held k' = held k"
  using assms by (auto simp: counts_handles_def)

section \<open>The system of the example\<close>

text \<open>The next handle and the open ones. A request transfers its whole buffer, filled with 7.\<close>

type_synonym sys = "int \<times> int list"

definition new_sys_handle :: "sys \<Rightarrow> handle \<times> sys" where
  "new_sys_handle k = (let h = max 1 (fst k) in (h, h + 1, h # snd k))"

definition drop_sys_handle :: "handle \<Rightarrow> sys \<Rightarrow> sys" where
  "drop_sys_handle h k = (fst k, remove1 h (snd k))"

definition full_io :: "u8 list \<Rightarrow> addr \<times> nat \<Rightarrow> win32_io" where
  "full_io out dest = \<lparr> io_ok = True, io_error = 0, io_transferred = of_nat (length out),
     io_data = replicate (length out) 7, io_dest = dest \<rparr>"

definition win_example_kernel :: "sys win32" where
  "win_example_kernel = \<lparr>
     n_LoadLibrary = new_sys_handle, n_FreeLibrary = drop_sys_handle, n_GetProcAddress = (\<lambda>_ k. (True, k)),
     n_CreateEvent = (\<lambda>_ _. new_sys_handle), n_SetEvent = (\<lambda>_ k. k), n_ResetEvent = (\<lambda>_ k. k),
     n_CloseHandle = drop_sys_handle, n_CreateFile = (\<lambda>_ k. (-1, k)),
     n_DeviceIoControl = (\<lambda>_ _ _ out dest _ k. (full_io out dest, k)),
     n_GetOverlappedResult = (\<lambda>_ _ k. (full_io [] (0, 0), k)), n_CancelIoEx = (\<lambda>_ _ k. k),
     n_WaitForMultipleObjects = (\<lambda>_ k. (0, k)) \<rparr>"

lemma example_counts_handles: "counts_handles win_example_kernel (\<lambda>k. mset (snd k))"
  by (auto simp: counts_handles_def win_example_kernel_def new_sys_handle_def drop_sys_handle_def Let_def)

section \<open>The world of the example\<close>

text \<open>The context is at 1, the device at 2, its handle at 3.\<close>

definition win_example_device :: "win_device libusby_device" where
  "win_example_device = \<lparr> ld_ctx = 1, ld_ref_count = 2,
     ld_device_desc = zero_device_desc\<lparr>dd_bLength := 18, dd_bDescriptorType := 1, dd_idVendor := 0x4242\<rparr>,
     ld_os = \<lparr> wd_devno = 1, hFile = 9 \<rparr> \<rparr>"

definition win_example_handle :: "unit libusby_device_handle" where
  "win_example_handle = \<lparr> lh_dev = 2, lh_os = () \<rparr>"

definition win_example_context :: win_context where
  "win_example_context = zero_win_context\<lparr>hKernel32 := 5, crit_section := Some 0, hReaperLock := 6,
     hEventLoopStopped := 7, hTransferListUpdated := 8\<rparr>"

definition win_example_world :: "sys win_world" where
  "win_example_world = \<lparr> next_addr = 100, n_mallocs = 0, out_of_memory = (\<lambda>_. False),
     cfgs = (\<lambda>_. None), intfs = (\<lambda>_. None), alts = (\<lambda>_. None), endps = (\<lambda>_. None), dlists = (\<lambda>_. None),
     ctxs = [1 \<mapsto> win_example_context], devs = [2 \<mapsto> win_example_device], hnds = [3 \<mapsto> win_example_handle],
     trans = (\<lambda>_. None), bufs = [90 \<mapsto> [1, 2, 3, 4]], junk = (\<lambda>_ _. 0xA5),
     nodes = [Devlist_head 1 \<mapsto> \<lparr>dn_prev = Some (Devnode 2), dn_next = Some (Devnode 2)\<rparr>,
       Devnode 2 \<mapsto> \<lparr>dn_prev = Some (Devlist_head 1), dn_next = Some (Devlist_head 1)\<rparr>],
     os = \<lparr> harrays = (\<lambda>_. None), wkern = (10, [5, 6, 7, 8, 9]) \<rparr> \<rparr>"

definition win_sizes :: object_sizes where
  "win_sizes = \<lparr> sz_context = 120, sz_device = 72, sz_device_handle = 8, sz_transfer = 160, sz_pub_offset = 80 \<rparr>"

abbreviation win_example :: "(win_context, win_device, unit, win_transfer, sys win_os) backend" where
  "win_example \<equiv> win_backend win_example_kernel win_sizes Some (\<lambda>_ _. Some)"

definition win_example_own :: "addr \<Rightarrow> nat" where
  "win_example_own = (\<lambda>_. 0)(2 := 1)"

lemmas win_example_defs = win_example_world_def win_example_device_def win_example_handle_def win_example_context_def
  win_example_kernel_def win_sizes_def zero_win_context_def

lemma win_example_counts: "counts win_example_world = [2 \<mapsto> 2]" "targets win_example_world = [3 \<mapsto> 2]"
  by (simp_all add: counts_def targets_def win_example_defs fun_eq_iff)

lemma win_example_refs_ok: "refs_ok win_example_own win_example_world"
proof -
  have "{a. targets win_example_world a = Some d} = (if d = 2 then {3} else {})" for d
    by (auto simp: win_example_counts)
  then have "refs win_example_own win_example_world d = (if d = 2 then 2 else 0)" for d
    by (simp add: refs_def win_example_own_def)
  then show ?thesis
    by (auto simp: refs_ok_def win_example_counts dl_fresh_def) (simp_all add: win_example_defs)
qed

text \<open>A transfer at 20 that reads four bytes into the buffer at 90, and the world in which it is queued.\<close>

definition win_example_transfer :: "win_transfer usbyb_transfer" where
  "win_example_transfer = (zero_transfer_of 0 \<lparr> hCompletionEvent = 30, hEvent = 31, submitted = 1 \<rparr>)\<lparr>it_ctx := 1,
     tr_pub := (zero_transfer_pub 0)\<lparr>lt_dev_handle := 3, lt_endpoint := 0x81,
       lt_type := type_code LIBUSBY_TRANSFER_TYPE_BULK, lt_length := 4, lt_buffer := 90\<rparr>\<rparr>"

definition win_queue_world :: "sys win_world" where
  "win_queue_world = win_example_world\<lparr>trans := [20 \<mapsto> win_example_transfer],
     ctxs := [1 \<mapsto> win_example_context\<lparr>trani_first := 20, trani_last := 20, tran_count := 1\<rparr>]\<rparr>"

end
