(* ===== verification/Win32_Client.thy ===== *)
theory Win32_Client
  imports Win32_Example
begin

text \<open>
  What clients of the library can rely on over the Windows back end, whatever the system, the
  driver, the other threads and the callbacks do: the facts of the contract of references at its
  interpretation on the back end, and the shape of the list of devices.
\<close>

text \<open>
  C6: Reference counting is sound on Windows: after any sequence of calls of a client, whatever
  the system answers and whichever allocations fail, each device is live exactly while it is
  referenced and counts its references: those of the client and one for each open handle. A
  client that ends with the handles and the references it started with leaves every count as
  it was.
\<close>

theorem win_client_accounting:
  assumes "client_run (win_backend K sz env cb) (own, w) (own', w')" "refs_ok own w"
  shows "refs_ok own' w' \<and>
    (\<forall>h d. targets w' h = Some d \<longrightarrow> (\<exists>n>0. counts w' d = Some n)) \<and>
    (\<forall>d. 0 < own' d \<longrightarrow> (\<exists>n>0. counts w' d = Some n)) \<and>
    (own' = own \<and> targets w' = targets w \<longrightarrow> counts w' = counts w)"
proof -
  have "refs_ok own' w'" using win.client_run_refs_ok [OF assms(1)] assms(2) by simp
  then show ?thesis
    using refs_ok_handle_live refs_ok_owned_live win.client_run_balanced assms by blast
qed

lemma win_example_open:
  "\<exists>w1. libusby_open win_example 2 win_example_world = Some (0, Some 100, w1) \<and>
    (\<exists>w2. libusby_close win_example 100 w1 = Some w2 \<and> targets w2 = targets win_example_world)"
  by (simp add: libusby_open_def libusby_close_def libusby_get_device_def new_handle_def malloc_def
      libusby_ref_device_def libusby_unref_device_def free_handle_def free_block_def Let_def
      win_usbyb_open_def win_usbyb_close_def upd_device_def c_int_def INT_MIN_def INT_MAX_def
      win_example_defs targets_def fun_eq_iff)

theorem win_client_accounting_witness:
  "\<exists>w'. client_run win_example (win_example_own, win_example_world) (win_example_own, w') \<and>
     refs_ok win_example_own w' \<and> counts w' = [2 \<mapsto> 2]"
proof -
  obtain w1 w2 where w1: "libusby_open win_example 2 win_example_world = Some (0, Some 100, w1)"
    and w2: "libusby_close win_example 100 w1 = Some w2" "targets w2 = targets win_example_world"
    using win_example_open by blast
  have run: "client_run win_example (win_example_own, win_example_world) (win_example_own, w2)"
    by (rule client_run_step [OF client_step.open_device [OF w1]
          client_run_step [OF client_step.close_device [OF w2(1)] client_run_refl]])
  show ?thesis using win_client_accounting [OF run win_example_refs_ok] run w2(2) by (auto simp: win_example_counts)
qed

end
