(* ===== verification/Win32_Request.thy ===== *)
theory Win32_Request
  imports Win32_Base
begin

text \<open>
  One request to the Windows driver, as a function of the state of the system alone: the
  specification against which the functions that wait for a request are stated. Both functions
  of the code, the one of the synchronous requests and the one of the synchronous transfers, make
  exactly one.
\<close>

section \<open>The specification\<close>

text \<open>
  The system is asked once and, only when it answers that the request is pending, once for the
  result: the error code, the number of bytes it reports, the output buffer, and the state of the
  system, which no other call has changed.
\<close>

definition one_request :: "'k win32 \<Rightarrow> handle \<Rightarrow> libusb_ioctl \<Rightarrow> libusb0_win32_request \<Rightarrow> u8 list \<Rightarrow> addr \<times> nat \<Rightarrow> handle
    \<Rightarrow> 'k \<Rightarrow> u32 \<times> u32 \<times> u8 list \<times> 'k" where
  "one_request K file code rq out dest event k =
     (case n_DeviceIoControl K file (ioctl_code code) (request_bytes rq) out dest event k of (x, k) \<Rightarrow>
      if \<not> io_ok x \<and> io_error x = ERROR_IO_PENDING then
        (case n_GetOverlappedResult K file event k of (y, k) \<Rightarrow>
           (if io_ok y then ERROR_SUCCESS else io_error y, io_transferred y, overlay (io_data y) (overlay (io_data x) out), k))
      else (if io_ok x then ERROR_SUCCESS else io_error x, io_transferred x, overlay (io_data x) out, k))"

lemma length_overlay [simp]: "length (overlay data out) = length out"
  by (simp add: overlay_def)

lemma one_request_length: "one_request K file code rq out dest event k = (e, m, out', k') \<Longrightarrow> length out' = length out"
  by (auto simp: one_request_def split: prod.splits if_splits)

section \<open>What the code makes is one request\<close>

lemma overlapped_io_one_request:
  "overlapped_io K file code rq out dest event w =
     (case one_request K file code rq out dest event (wkern (os w)) of (e, m, out', k) \<Rightarrow> (e, m, out', set_wkern k w))"
  by (simp add: overlapped_io_def one_request_def win_call_def set_wkern_def Let_def split: prod.splits)

lemma overlapped_io_request:
  assumes "one_request K file code rq out dest event (wkern (os w)) = (e, m, out', k)"
  shows "overlapped_io K file code rq out dest event w = (e, m, out', set_wkern k w)"
  by (simp add: overlapped_io_one_request assms)

end
