(* ===== verification/Win32_Handles.thy ===== *)
theory Win32_Handles
  imports Win32_Example Win32_Request
begin

text \<open>
  The handles of the system that the Windows back end opens and closes: every request, every
  context and every transfer gives back what it took, on the error paths too.
\<close>

definition held_in :: "('k \<Rightarrow> handle multiset) \<Rightarrow> 'k win_world \<Rightarrow> handle multiset" where
  "held_in held w = held (wkern (os w))"

section \<open>Requests that wait\<close>

lemma one_request_held:
  assumes ch: "counts_handles K held" and io: "one_request K fl code rq out (a, off) event k = (e, m, out', k')"
  shows "held k' = held k"
proof -
  obtain x k1 where x: "n_DeviceIoControl K fl (ioctl_code code) (request_bytes rq) out (a, off) event k = (x, k1)"
    by force
  obtain y k2 where y: "n_GetOverlappedResult K fl event k1 = (y, k2)" by force
  show ?thesis
    using io x y counts_handlesD(6) [OF ch x] counts_handlesD(7) [OF ch y] by (auto simp: one_request_def split: if_splits)
qed

text \<open>
  C24: A request that waits for the driver (descriptors, configurations, interfaces, the
  abortion of an endpoint). When no event can be created it is \<open>LIBUSBY_ERROR_NO_MEM\<close> and the
  driver is not asked. Otherwise the driver is asked exactly once, about the part of the caller's
  buffer that \<open>out_len\<close> names, and the event is closed again, on the error paths too: no
  handle is left behind, and nothing but the system and that part of the buffer changes. The
  result is the number of bytes the driver reports when it succeeds, \<open>LIBUSBY_ERROR_BUSY\<close>
  for \<open>ERROR_BUSY\<close>, and \<open>LIBUSBY_ERROR_IO\<close> for every other error of the system.
\<close>

theorem win_sync_request:
  assumes "counts_handles K held" "sync_device_io_control K fl code rq out n w = Some (r, out', w')"
    "n_CreateEvent K True False (wkern (os w)) = (event, k)"
  shows "held_in held w' = held_in held w \<and> length out' = length out \<and>
    (if event = 0 then r = err LIBUSBY_ERROR_NO_MEM \<and> out' = out \<and> w' = set_wkern k w
     else \<exists>e m body k'.
       one_request K fl code rq (take (unat (word_of_int n :: u32)) out) (0, 0) event k = (e, m, body, k') \<and>
       w' = set_wkern (n_CloseHandle K event k') w \<and> out' = body @ drop (length body) out \<and>
       r = (if e = ERROR_SUCCESS then sint m else if e = ERROR_BUSY then err LIBUSBY_ERROR_BUSY else err LIBUSBY_ERROR_IO))"
proof -
  have wc: "win_call (n_CreateEvent K True False) w = (event, set_wkern k w)" by (simp add: win_call_def assms(3))
  have h: "held k = (if event = 0 then held (wkern (os w)) else add_mset event (held (wkern (os w))))"
    by (rule counts_handlesD(2) [OF assms(1,3)])
  show ?thesis
  proof (cases "event = 0")
    case True
    then show ?thesis using assms(2) wc h by (auto simp: sync_device_io_control_def set_wkern_def held_in_def)
  next
    case False
    then obtain o1 where o1: "rd_block out 0 (unat (word_of_int n :: u32)) = Some o1"
      using assms(2) wc by (auto simp: sync_device_io_control_def bind_Some_conv)
    then have o1': "o1 = take (unat (word_of_int n :: u32)) out" by (auto simp: rd_block_def split: if_splits)
    obtain e m body k' where io: "one_request K fl code rq o1 (0, 0) event k = (e, m, body, k')" by (metis prod_cases4)
    have io': "overlapped_io K fl code rq o1 (0, 0) event (set_wkern k w) = (e, m, body, set_wkern k' (set_wkern k w))"
      by (rule overlapped_io_request) (simp add: set_wkern_def io)
    obtain o3 where o3: "wr_block out 0 body = Some o3"
      using assms(2) wc False o1 io' by (auto simp: sync_device_io_control_def bind_Some_conv)
    have r: "r = (if e = ERROR_SUCCESS then sint m else if e = ERROR_BUSY then err LIBUSBY_ERROR_BUSY else err LIBUSBY_ERROR_IO)"
      "out' = o3" "w' = set_wkern (n_CloseHandle K event k') w"
      using assms(2) wc False o1 io' o3 by (auto simp: sync_device_io_control_def win_do_def set_wkern_def)
    have "held (n_CloseHandle K event k') = held (wkern (os w))"
      by (simp add: counts_handlesD(4) [OF assms(1)] one_request_held [OF assms(1) io] h False)
    then have "held_in held w' = held_in held w" by (simp add: r(3) held_in_def set_wkern_def)
    moreover have "o3 = body @ drop (length body) out" "length o3 = length out" using o3 by (auto simp: wr_block_def split: if_splits)
    ultimately show ?thesis using False r io by (simp add: o1')
  qed
qed

lemma example_sync:
  "map_option (\<lambda>(r, b, w). (r, b, wkern (os w))) (sync_device_io_control win_example_kernel 9 LIBUSB_IOCTL_GET_DESCRIPTOR
     (request_of (Req_descriptor 1 0 0)) [0, 0, 0] 2 win_example_world) = Some (2, [7, 7, 0], 11, [5, 6, 7, 8, 9])"
  by code_simp

theorem win_sync_request_witness:
  "\<exists>w'. sync_device_io_control win_example_kernel 9 LIBUSB_IOCTL_GET_DESCRIPTOR (request_of (Req_descriptor 1 0 0))
      [0, 0, 0] 2 win_example_world = Some (2, [7, 7, 0], w') \<and> held_in (\<lambda>k. mset (snd k)) w' = {#5, 6, 7, 8, 9#} \<and>
    (\<exists>body k'. one_request win_example_kernel 9 LIBUSB_IOCTL_GET_DESCRIPTOR (request_of (Req_descriptor 1 0 0))
       (take 2 [0, 0, 0]) (0, 0) 10 (11, [10, 5, 6, 7, 8, 9]) = (0, 2, body, k') \<and> [7, 7, 0] = body @ drop (length body) [0, 0, 0])"
proof -
  obtain w' where run: "sync_device_io_control win_example_kernel 9 LIBUSB_IOCTL_GET_DESCRIPTOR
      (request_of (Req_descriptor 1 0 0)) [0, 0, 0] 2 win_example_world = Some (2, [7, 7, 0], w')"
    using example_sync by auto
  have ev: "n_CreateEvent win_example_kernel True False (wkern (os win_example_world)) = (10, 11, [10, 5, 6, 7, 8, 9])"
    by (simp add: win_example_defs new_sys_handle_def)
  have two: "[7, 7, 0] = [7 :: u8, 7] @ drop (length [7 :: u8, 7]) [0, 0, 0]" by simp
  have io: "one_request win_example_kernel 9 LIBUSB_IOCTL_GET_DESCRIPTOR (request_of (Req_descriptor 1 0 0))
       (take 2 [0, 0, 0]) (0, 0) 10 (11, [10, 5, 6, 7, 8, 9]) = (0, 2, [7, 7], 11, [10, 5, 6, 7, 8, 9])"
    by code_simp
  from win_sync_request [OF example_counts_handles run ev]
  have "held_in (\<lambda>k. mset (snd k)) w' = {#5, 6, 7, 8, 9#}" by (simp add: held_in_def win_example_defs)
  then show ?thesis using run io two by blast
qed

section \<open>Contexts\<close>

text \<open>The initialization of a zeroed context.\<close>

lemma win_init_outcome:
  assumes ch: "counts_handles K held" and run: "win_usbyb_init K p w = Some (r, w')"
    and c: "ctxs w p = Some zero_win_context" and n: "nodes w (Devlist_head p) = Some null_node"
  shows "nodes w' = (nodes w)(Devlist_head p \<mapsto> \<lparr>dn_prev = Some (Devlist_head p), dn_next = Some (Devlist_head p)\<rparr>) \<and>
    harrays (os w') = harrays (os w) \<and>
    (\<exists>c'. ctxs w' = (ctxs w)(p \<mapsto> c') \<and>
      (if r < 0 then held_in held w' = held_in held w
       else r = err LIBUSBY_SUCCESS \<and> crit_section c' = Some 0 \<and> held_in held w' = held_in held w +
         {#hKernel32 c', hReaperLock c', hEventLoopStopped c', hTransferListUpdated c'#}))"
proof -
  let ?node = "\<lparr>dn_prev = Some (Devlist_head p), dn_next = Some (Devlist_head p)\<rparr>"
  have ring: "usbyi_init_devlist_head (Devlist_head p) (nodes w) = Some ((nodes w)(Devlist_head p \<mapsto> ?node))"
    using n by (simp add: usbyi_init_devlist_head_def set_next_def set_prev_def null_node_def)
  obtain lib k1 where k1: "n_LoadLibrary K (wkern (os w)) = (lib, k1)" by force
  obtain b k2 where k2: "n_GetProcAddress K lib k1 = (b, k2)" by force
  obtain h1 k3 where k3: "n_CreateEvent K False True k2 = (h1, k3)" by force
  obtain h2 k4 where k4: "n_CreateEvent K True False k3 = (h2, k4)" by force
  obtain h3 k5 where k5: "n_CreateEvent K True False k4 = (h3, k5)" by force
  note held = counts_handlesD(1) [OF ch k1] counts_handlesD(5) [OF ch k2] counts_handlesD(2) [OF ch k3]
    counts_handlesD(2) [OF ch k4] counts_handlesD(2) [OF ch k5]
  note eqs = win_usbyb_init_def win_init_error_def ring k1 k2 k3 k4 k5 win_call_def win_do_def close_if_def
    upd_context_def set_wkern_def held_in_def counts_handlesD(3,4) [OF ch] c zero_win_context_def
  consider "lib = 0" | "lib \<noteq> 0" "h1 = 0" | "lib \<noteq> 0" "h1 \<noteq> 0" "h2 = 0" | "lib \<noteq> 0" "h1 \<noteq> 0" "h2 \<noteq> 0" "h3 = 0"
    | "lib \<noteq> 0" "h1 \<noteq> 0" "h2 \<noteq> 0" "h3 \<noteq> 0" by blast
  then show ?thesis using run held by cases (auto simp: eqs)
qed

text \<open>
  C23: Initialization and exit are inverse on Windows. When \<open>libusby_init\<close> fails, which each
  of its five resources can cause, no handle of the system stays open, and contexts and ring heads are as before. When it
  succeeds, \<open>libusby_exit\<close> on the new context is defined, closes all its handles, and leaves
  contexts and ring heads as they were.
\<close>

theorem win_init_exit:
  assumes "counts_handles K held" "libusby_init (win_backend K sz env cb) w = Some (r, res, w1)"
    "nodes w (Devlist_head (next_addr w)) = None" "ctxs w (next_addr w) = None"
  shows "if r < 0 then held_in held w1 = held_in held w \<and> ctxs w1 = ctxs w \<and> nodes w1 = nodes w
    else \<exists>ctx w2. res = Some ctx \<and> libusby_exit (win_backend K sz env cb) ctx w1 = Some w2 \<and>
      held_in held w2 = held_in held w \<and> ctxs w2 = ctxs w \<and> nodes w2 = nodes w"
proof -
  let ?be = "win_backend K sz env cb" and ?a = "next_addr w"
  obtain p w0 where new: "new_context (sz_context sz) zero_win_context w = (p, w0)" by force
  show ?thesis
  proof (cases "p = 0")
    case True
    then show ?thesis
      using assms(2) new by (cases rule: malloc_cases [of "sz_context sz" w])
        (auto simp: libusby_init_def new_context_def held_in_def)
  next
    case False
    then have p: "p = ?a" and w0: "ctxs w0 = (ctxs w)(p \<mapsto> zero_win_context)"
      "nodes w0 = (nodes w)(Devlist_head p \<mapsto> null_node)" "os w0 = os w"
      using new by (cases rule: malloc_cases [of "sz_context sz" w]; auto simp: new_context_def)+
    have gone: "(ctxs w)(p := None) = ctxs w" "(nodes w)(Devlist_head p := None) = nodes w"
      using assms(3,4) by (auto simp: p fun_eq_iff)
    obtain r1 w2 where run: "win_usbyb_init K p w0 = Some (r1, w2)"
      and rest: "(if r1 < 0 then do { w \<leftarrow> free_context p w2; Some (r1, None, w) }
        else Some (err LIBUSBY_SUCCESS, Some p, w2)) = Some (r, res, w1)"
      using assms(2) new False by (auto simp: libusby_init_def bind_Some_conv)
    have "ctxs w0 p = Some zero_win_context" "nodes w0 (Devlist_head p) = Some null_node" by (simp_all add: w0)
    note out = win_init_outcome [OF assms(1) run this]
    then obtain c where c': "ctxs w2 = (ctxs w0)(p \<mapsto> c)" "if r1 < 0 then held_in held w2 = held_in held w0
       else r1 = err LIBUSBY_SUCCESS \<and> crit_section c = Some 0 \<and> held_in held w2 = held_in held w0 +
         {#hKernel32 c, hReaperLock c, hEventLoopStopped c, hTransferListUpdated c#}"
      by blast
    have c: "ctxs w2 = (ctxs w)(p \<mapsto> c)"
      "nodes w2 = (nodes w)(Devlist_head p \<mapsto> \<lparr>dn_prev = Some (Devlist_head p), dn_next = Some (Devlist_head p)\<rparr>)"
      using c'(1) out w0 by simp_all
    have h0: "held_in held w0 = held_in held w" by (simp add: held_in_def w0)
    show ?thesis
    proof (cases "r1 < 0")
      case True
      then show ?thesis using rest c c'(2) h0 gone False by (auto simp: free_context_def free_block_def held_in_def)
    next
      case pos: False
      have "\<exists>w3. win_usbyb_exit K p w2 = Some w3 \<and> held_in held w3 = held_in held w \<and>
          ctxs w3 = (ctxs w)(p \<mapsto> c\<lparr>crit_section := None\<rparr>) \<and> nodes w3 = nodes w2"
        using c c'(2) h0 pos
        by (simp add: win_usbyb_exit_def upd_context_def win_do_def set_wkern_def held_in_def counts_handlesD(3,4) [OF assms(1)])
      then show ?thesis
        using rest pos c gone False by (auto simp: libusby_exit_def free_context_def free_block_def held_in_def)
    qed
  qed
qed

lemma win_example_init: "map_option (\<lambda>(r, p, w). (r, p)) (libusby_init win_example win_example_world) = Some (0, Some 100)"
  by code_simp

theorem win_init_exit_witness:
  "\<exists>w1 w2. libusby_init win_example win_example_world = Some (0, Some 100, w1) \<and>
     libusby_exit win_example 100 w1 = Some w2 \<and> held_in (\<lambda>k. mset (snd k)) w2 = {#5, 6, 7, 8, 9#}"
proof -
  obtain w1 where run: "libusby_init win_example win_example_world = Some (0, Some 100, w1)"
    using win_example_init by auto
  show ?thesis
    using win_init_exit [OF example_counts_handles run] run by (auto simp: held_in_def win_example_defs)
qed

end
