(* ===== verification/Win32_Queue.thy ===== *)
theory Win32_Queue
  imports Win32_Example
begin

text \<open>
  The queue of submitted transfers of the Windows back end as a list
  (\<^verbatim>\<open>usbyb_submit_transfer\<close> and \<^verbatim>\<open>usbyb_reap_transfer\<close> in
  \<^verbatim>\<open>src/os/libusb0_win32.c\<close>). Seen with the two ends in the context as the links of
  the null pointer, the null-terminated queue is a ring, so that the lemmas on the rings of
  devices apply to it; and it provides the same interface of a linked list.
\<close>

section \<open>The queue as a ring\<close>

definition queue_nodes :: "addr \<Rightarrow> 'k win_world \<Rightarrow> addr nodes" where
  "queue_nodes ctx w p =
     (if p = 0 then map_option (\<lambda>c. \<lparr>dn_prev = Some (trani_last c), dn_next = Some (trani_first c)\<rparr>) (ctxs w ctx)
      else map_option (\<lambda>t. \<lparr>dn_prev = Some (it_prev t), dn_next = Some (it_next t)\<rparr>) (trans w p))"

definition queue_holds :: "addr \<Rightarrow> 'k win_world \<Rightarrow> addr list \<Rightarrow> bool" where
  "queue_holds ctx w xs \<longleftrightarrow> ring 0 (queue_nodes ctx w) xs \<and>
     (\<exists>c. ctxs w ctx = Some c \<and> tran_count c = int (length xs)) \<and>
     finite (dom (trans w)) \<and> int (card (dom (trans w))) \<le> INT_MAX"

definition queue_present :: "'k win_world \<Rightarrow> addr set" where
  "queue_present w = dom (trans w) - {0}"

lemma queue_nodes_0: "ctxs w ctx = Some c \<Longrightarrow>
    queue_nodes ctx w 0 = Some \<lparr>dn_prev = Some (trani_last c), dn_next = Some (trani_first c)\<rparr>"
  by (simp add: queue_nodes_def)

lemma dom_queue_nodes: "ctxs w ctx = Some c \<Longrightarrow> dom (queue_nodes ctx w) = insert 0 (dom (trans w))"
  by (auto simp: queue_nodes_def dom_def)

text \<open>Both ends are null at the same time.\<close>

lemma queue_ends:
  assumes "ring 0 (queue_nodes ctx w) xs" "ctxs w ctx = Some c"
  shows "trani_first c = hd (xs @ [0])" "trani_last c = last (0 # xs)" "0 \<notin> set xs"
proof -
  have "links (queue_nodes ctx w) 0 xs 0" using assms(1) by (simp add: ring_def)
  from links_ends [OF this] show "trani_first c = hd (xs @ [0])" "trani_last c = last (0 # xs)"
    using queue_nodes_0 [OF assms(2)] by (simp_all add: nxt_def prv_def)
  show "0 \<notin> set xs" using assms(1) by (simp add: ring_def)
qed

lemma queue_length:
  assumes "queue_holds ctx w xs"
  shows "distinct xs" "set xs \<subseteq> dom (trans w)" "length xs \<le> card (dom (trans w))"
proof -
  have r: "ring 0 (queue_nodes ctx w) xs" and fin: "finite (dom (trans w))"
    using assms by (simp_all add: queue_holds_def)
  obtain c where c: "ctxs w ctx = Some c" using assms by (auto simp: queue_holds_def)
  show d: "distinct xs" and sub: "set xs \<subseteq> dom (trans w)"
    using ring_dom [OF r] r dom_queue_nodes [OF c] by (auto simp: ring_def)
  show "length xs \<le> card (dom (trans w))" using card_mono [OF fin sub] distinct_card [OF d] by simp
qed

text \<open>Only the links matter.\<close>

lemma queue_holds_cong:
  assumes "ctxs w ctx = Some c" "ctxs w' ctx = Some c'" "trani_first c' = trani_first c" "trani_last c' = trani_last c"
    "tran_count c' = tran_count c"
    and "\<And>t. map_option (\<lambda>x. (it_next x, it_prev x)) (trans w' t) = map_option (\<lambda>x. (it_next x, it_prev x)) (trans w t)"
  shows "queue_holds ctx w' xs = queue_holds ctx w xs"
proof -
  have "queue_nodes ctx w' t = map_option (\<lambda>(n, p). \<lparr>dn_prev = Some p, dn_next = Some n\<rparr>)
      (if t = 0 then Some (trani_first c, trani_last c) else map_option (\<lambda>x. (it_next x, it_prev x)) (trans w t))" for t
    unfolding queue_nodes_def assms(2) assms(6) [symmetric] by (simp add: option.map_comp comp_def assms(3,4))
  moreover have "queue_nodes ctx w t = map_option (\<lambda>(n, p). \<lparr>dn_prev = Some p, dn_next = Some n\<rparr>)
      (if t = 0 then Some (trani_first c, trani_last c) else map_option (\<lambda>x. (it_next x, it_prev x)) (trans w t))" for t
    unfolding queue_nodes_def assms(1) by (simp add: option.map_comp comp_def)
  ultimately have nodes: "queue_nodes ctx w' = queue_nodes ctx w" by (intro ext) simp
  have "trans w' t = None \<longleftrightarrow> trans w t = None" for t
    using arg_cong [OF assms(6) [of t], of "\<lambda>x. x = None"] by simp
  then have "dom (trans w') = dom (trans w)" by (simp add: dom_def)
  then show ?thesis using assms(1,2,5) by (simp add: queue_holds_def nodes)
qed

section \<open>The two operations on it\<close>

lemma enqueue_ring:
  assumes r: "ring 0 (queue_nodes ctx w) xs" and c: "ctxs w ctx = Some c" "tran_count c = int (length xs)"
    and t: "trans w t = Some x" "t \<noteq> 0" "t \<notin> set xs" and n: "int (length xs) < INT_MAX"
  shows "\<exists>w'. enqueue_transfer ctx t w = Some w' \<and> ring 0 (queue_nodes ctx w') (xs @ [t]) \<and>
    (\<exists>c'. ctxs w' ctx = Some c' \<and> tran_count c' = int (length xs) + 1) \<and> dom (trans w') = dom (trans w)"
proof -
  note ends = queue_ends [OF r c(1)]
  have count: "c_int (tran_count c + 1) = Some (int (length xs) + 1)"
    using n by (simp add: c_int_def c(2) INT_MIN_def)
  have "t \<in> dom (queue_nodes ctx w)" using t(1) dom_queue_nodes [OF c(1)] by auto
  then obtain m' where m': "usbyi_insert_before_devlist_node t 0 (queue_nodes ctx w) = Some m'" "ring 0 m' (xs @ [t])"
    using insert_ring [OF r] t by auto
  have q: "queue_nodes ctx w t = Some \<lparr>dn_prev = Some (it_prev x), dn_next = Some (it_next x)\<rparr>"
    using t by (simp add: queue_nodes_def)
  show ?thesis
  proof (cases xs rule: rev_cases)
    case Nil
    let ?w = "w\<lparr>trans := (trans w)(t \<mapsto> x\<lparr>it_next := 0, it_prev := 0\<rparr>),
      ctxs := (ctxs w)(ctx \<mapsto> c\<lparr>trani_last := t, trani_first := t, tran_count := 1\<rparr>)\<rparr>"
    have "enqueue_transfer ctx t w = Some ?w"
      using Nil c t(1) ends count by (simp add: enqueue_transfer_def upd_transfer_def upd_context_def)
    moreover have "m' = (queue_nodes ctx w)(t \<mapsto> \<lparr>dn_prev = Some 0, dn_next = Some 0\<rparr>, 0 \<mapsto> \<lparr>dn_prev = Some t, dn_next = Some t\<rparr>)"
      using m'(1) Nil c t(2) ends q queue_nodes_0 [OF c(1)]
      by (simp add: usbyi_insert_before_devlist_node_def set_next_def set_prev_def fun_upd_twist)
    then have "queue_nodes ctx ?w = m'" using t(2) by (simp add: queue_nodes_def fun_eq_iff)
    ultimately show ?thesis using m'(2) Nil t by auto
  next
    case (snoc ys l)
    then have "trani_first c \<in> set xs" using ends(1) by (cases ys) simp_all
    then have "trani_first c \<noteq> 0" using ends(3) by metis
    then have l: "l \<noteq> 0" "l \<noteq> t" "trani_last c = l" "trani_first c \<noteq> 0" using ends t(3) snoc by simp_all
    have "l \<in> dom (queue_nodes ctx w)" using ring_dom [OF r] snoc by auto
    then obtain y where y: "trans w l = Some y" using l(1) by (auto simp: queue_nodes_def)
    let ?w = "w\<lparr>trans := (trans w)(t \<mapsto> x\<lparr>it_next := 0, it_prev := l\<rparr>, l \<mapsto> y\<lparr>it_next := t\<rparr>),
      ctxs := (ctxs w)(ctx \<mapsto> c\<lparr>trani_last := t, tran_count := int (length xs) + 1\<rparr>)\<rparr>"
    have "enqueue_transfer ctx t w = Some ?w"
      using c t(1) l y count by (simp add: enqueue_transfer_def upd_transfer_def upd_context_def)
    moreover have "queue_nodes ctx w l = Some \<lparr>dn_prev = Some (it_prev y), dn_next = Some (it_next y)\<rparr>"
      using l y by (simp add: queue_nodes_def)
    then have "m' = (queue_nodes ctx w)(t \<mapsto> \<lparr>dn_prev = Some l, dn_next = Some 0\<rparr>,
        0 \<mapsto> \<lparr>dn_prev = Some t, dn_next = Some (trani_first c)\<rparr>, l \<mapsto> \<lparr>dn_prev = Some (it_prev y), dn_next = Some t\<rparr>)"
      using m'(1) t(2) l q queue_nodes_0 [OF c(1)]
      by (simp add: usbyi_insert_before_devlist_node_def set_next_def set_prev_def fun_upd_twist)
    then have "queue_nodes ctx ?w = m'" using t(2) l by (simp add: queue_nodes_def fun_eq_iff)
    ultimately show ?thesis using m'(2) t y by auto
  qed
qed

text \<open>The links of a node that is not in a ring do not matter.\<close>

lemma ring_outside:
  assumes "ring head m xs" "p \<notin> set (head # xs)"
  shows "ring head (m(p \<mapsto> n)) xs"
proof -
  have "links (m(p \<mapsto> n)) head xs head"
    by (rule links_cong [of m]) (use assms in \<open>auto simp: ring_def nxt_def prv_def\<close>)
  then show ?thesis using assms(1) by (simp add: ring_def)
qed

text \<open>One half of the removal: the link of the neighbour, or the end in the context.\<close>

definition set_queue_prev :: "addr \<Rightarrow> addr \<Rightarrow> addr \<Rightarrow> 'k win_world \<Rightarrow> 'k win_world option" where
  "set_queue_prev ctx p q w = (if p \<noteq> 0 then upd_transfer p (\<lambda>s. s\<lparr>it_prev := q\<rparr>) w
     else upd_context ctx (\<lambda>c. c\<lparr>trani_last := q\<rparr>) w)"

definition set_queue_next :: "addr \<Rightarrow> addr \<Rightarrow> addr \<Rightarrow> 'k win_world \<Rightarrow> 'k win_world option" where
  "set_queue_next ctx p q w = (if p \<noteq> 0 then upd_transfer p (\<lambda>s. s\<lparr>it_next := q\<rparr>) w
     else upd_context ctx (\<lambda>c. c\<lparr>trani_first := q\<rparr>) w)"

lemma set_queue_prev_nodes:
  assumes "set_prev p (Some q) (queue_nodes ctx w) = Some m"
  shows "\<exists>w'. set_queue_prev ctx p q w = Some w' \<and> queue_nodes ctx w' = m \<and> dom (trans w') = dom (trans w) \<and>
    map_option tran_count (ctxs w' ctx) = map_option tran_count (ctxs w ctx)"
proof -
  obtain n where n: "queue_nodes ctx w p = Some n" and m: "m = (queue_nodes ctx w)(p \<mapsto> n\<lparr>dn_prev := Some q\<rparr>)"
    using assms by (auto simp: set_prev_def bind_Some_conv)
  show ?thesis
    unfolding m using n
    by (cases "p = 0") (auto simp: set_queue_prev_def queue_nodes_def upd_transfer_def upd_context_def fun_eq_iff)
qed

lemma set_queue_next_nodes:
  assumes "set_next p (Some q) (queue_nodes ctx w) = Some m"
  shows "\<exists>w'. set_queue_next ctx p q w = Some w' \<and> queue_nodes ctx w' = m \<and> dom (trans w') = dom (trans w) \<and>
    map_option tran_count (ctxs w' ctx) = map_option tran_count (ctxs w ctx)"
proof -
  obtain n where n: "queue_nodes ctx w p = Some n" and m: "m = (queue_nodes ctx w)(p \<mapsto> n\<lparr>dn_next := Some q\<rparr>)"
    using assms by (auto simp: set_next_def bind_Some_conv)
  show ?thesis
    unfolding m using n
    by (cases "p = 0") (auto simp: set_queue_next_def queue_nodes_def upd_transfer_def upd_context_def fun_eq_iff)
qed

lemma dequeue_steps:
  "dequeue_transfer ctx t w = do {
     x \<leftarrow> trans w t;
     w \<leftarrow> set_queue_prev ctx (it_next x) (it_prev x) w;
     y \<leftarrow> trans w t;
     w \<leftarrow> set_queue_next ctx (it_prev y) (it_next y) w;
     w \<leftarrow> upd_transfer t (\<lambda>t. t\<lparr>it_next := 0, it_prev := 0\<rparr>) w;
     c \<leftarrow> ctxs w ctx;
     n \<leftarrow> c_int (tran_count c - 1);
     upd_context ctx (\<lambda>c. c\<lparr>tran_count := n\<rparr>) w }"
  by (simp only: dequeue_transfer_def set_queue_prev_def set_queue_next_def)

lemma dequeue_ring:
  assumes r: "ring 0 (queue_nodes ctx w) (as @ t # bs)"
    and c: "ctxs w ctx = Some c" "tran_count c = int (length (as @ t # bs))" "tran_count c \<le> INT_MAX"
  shows "\<exists>w'. dequeue_transfer ctx t w = Some w' \<and> ring 0 (queue_nodes ctx w') (as @ bs) \<and>
    (\<exists>c'. ctxs w' ctx = Some c' \<and> tran_count c' = int (length (as @ bs))) \<and> dom (trans w') = dom (trans w)"
proof -
  obtain r1 m' where m': "usbyi_remove_devlist_node t (queue_nodes ctx w) = Some (r1, m')" "ring 0 m' (as @ bs)"
    using remove_ring [OF r] by blast
  have t: "t \<noteq> 0" "t \<notin> set (0 # as @ bs)" using r by (auto simp: ring_def)
  obtain n p where n: "queue_nodes ctx w t = Some n" "dn_next n = Some p"
    using m'(1) by (auto simp: usbyi_remove_devlist_node_def bind_Some_conv)
  obtain m1 n' q where m1: "set_prev p (dn_prev n) (queue_nodes ctx w) = Some m1" "m1 t = Some n'"
    and m2: "dn_prev n' = Some q" "set_next q (dn_next n') m1 = Some m'"
    using m'(1) n by (auto simp: usbyi_remove_devlist_node_def bind_Some_conv)
  obtain x where x: "trans w t = Some x" "it_next x = p" "dn_prev n = Some (it_prev x)"
    using n t(1) by (auto simp: queue_nodes_def)
  obtain w1 where w1: "set_queue_prev ctx p (it_prev x) w = Some w1" "queue_nodes ctx w1 = m1"
    "dom (trans w1) = dom (trans w)" "map_option tran_count (ctxs w1 ctx) = map_option tran_count (ctxs w ctx)"
    using set_queue_prev_nodes [of p "it_prev x" ctx w m1] m1(1) x(3) by auto
  obtain y where y: "trans w1 t = Some y" "dn_prev n' = Some (it_prev y)" "dn_next n' = Some (it_next y)"
    using m1(2) w1(2) t(1) by (auto simp: queue_nodes_def)
  obtain w2 where w2: "set_queue_next ctx (it_prev y) (it_next y) w1 = Some w2" "queue_nodes ctx w2 = m'"
    "dom (trans w2) = dom (trans w1)" "map_option tran_count (ctxs w2 ctx) = map_option tran_count (ctxs w1 ctx)"
    using set_queue_next_nodes [of "it_prev y" "it_next y" ctx w1 m'] m2 y(2,3) w1(2) by auto
  obtain z where z: "trans w2 t = Some z" using y(1) w2(3) by (metis domD domI)
  obtain c2 where c2: "ctxs w2 ctx = Some c2" "tran_count c2 = tran_count c" using w1(4) w2(4) c(1) by auto
  let ?w3 = "w2\<lparr>trans := (trans w2)(t \<mapsto> z\<lparr>it_next := 0, it_prev := 0\<rparr>)\<rparr>"
  let ?w4 = "?w3\<lparr>ctxs := (ctxs w2)(ctx \<mapsto> c2\<lparr>tran_count := int (length (as @ bs))\<rparr>)\<rparr>"
  have "c_int (tran_count c - 1) = Some (int (length (as @ bs)))"
    using c(2,3) by (auto simp: c_int_def INT_MIN_def)
  then have "dequeue_transfer ctx t w = Some ?w4"
    using x w1(1) y w2(1) z c2 by (simp add: dequeue_steps upd_transfer_def upd_context_def)
  moreover have "queue_nodes ctx ?w4 = m'(t \<mapsto> \<lparr>dn_prev = Some 0, dn_next = Some 0\<rparr>)"
    using t(1) c2(1) by (auto simp: queue_nodes_def w2(2) [symmetric] fun_eq_iff)
  ultimately show ?thesis using ring_outside [OF m'(2) t(2)] w1(3) w2(3) z by auto
qed

section \<open>The queue provides the list interface\<close>

interpretation tran_queue: linked_list "queue_holds ctx" queue_present "enqueue_transfer ctx" "dequeue_transfer ctx"
  for ctx
proof unfold_locales
  fix w :: "'a win_world" and xs n
  assume q: "queue_holds ctx w xs" and n: "n \<in> queue_present w" "n \<notin> set xs"
  obtain c where c: "ctxs w ctx = Some c" "tran_count c = int (length xs)" using q by (auto simp: queue_holds_def)
  obtain x where x: "trans w n = Some x" "n \<noteq> 0" using n(1) by (auto simp: queue_present_def)
  have fin: "finite (dom (trans w))" "int (card (dom (trans w))) \<le> INT_MAX" and r: "ring 0 (queue_nodes ctx w) xs"
    using q by (simp_all add: queue_holds_def)
  have "card (set (n # xs)) \<le> card (dom (trans w))"
    by (rule card_mono [OF fin(1)]) (use queue_length [OF q] x in auto)
  then have "int (length xs) < INT_MAX" using n(2) queue_length(1) [OF q] fin(2) by (simp add: distinct_card)
  from enqueue_ring [OF r c x n(2) this]
  show "\<exists>w'. enqueue_transfer ctx n w = Some w' \<and> queue_holds ctx w' (xs @ [n]) \<and> queue_present w' = queue_present w"
    using fin by (fastforce simp: queue_holds_def queue_present_def)
next
  fix w :: "'a win_world" and xs n
  assume q: "queue_holds ctx w xs" and n: "n \<in> set xs"
  obtain as bs where xs: "xs = as @ n # bs" "n \<notin> set as" using n by (metis split_list_first)
  obtain c where c: "ctxs w ctx = Some c" "tran_count c = int (length xs)" using q by (auto simp: queue_holds_def)
  have fin: "finite (dom (trans w))" "int (card (dom (trans w))) \<le> INT_MAX" and r: "ring 0 (queue_nodes ctx w) xs"
    using q by (simp_all add: queue_holds_def)
  have "tran_count c \<le> INT_MAX" using queue_length(3) [OF q] fin(2) c(2) by simp
  moreover have "remove1 n xs = as @ bs" using xs by (simp add: remove1_append)
  ultimately show "\<exists>w'. dequeue_transfer ctx n w = Some w' \<and> queue_holds ctx w' (remove1 n xs) \<and> queue_present w' = queue_present w"
    using dequeue_ring [of ctx w as n bs c] r c xs(1) fin by (fastforce simp: queue_holds_def queue_present_def)
qed (simp add: queue_length)

text \<open>
  C4: The queue of submitted transfers of a Windows context is a first-in list: any sequence of
  submissions and completions that a list would allow (a transfer enters once, only a queued
  one leaves, from any position) is defined and leaves the queue of the resulting list,
  null-terminated, linked consistently in both directions, with both ends and the count in the
  context.
\<close>

theorem win_queue_refines_list:
  assumes "queue_holds ctx w xs" "op_node ` set ops \<subseteq> dom (trans w) - {0}" "spec_ops ops xs = Some ys"
  shows "\<exists>w'. run_ops (enqueue_transfer ctx) (dequeue_transfer ctx) ops w = Some w' \<and> queue_holds ctx w' ys"
  using tran_queue.run_spec [OF assms(1) _ assms(3)] assms(2) by (auto simp: queue_present_def)

lemma example_queue: "queue_holds 1 win_queue_world [20]"
  by (simp add: queue_holds_def ring_def nxt_def prv_def queue_nodes_def win_queue_world_def win_example_transfer_def
      zero_transfer_of_def INT_MAX_def)

theorem win_queue_refines_list_witness:
  "\<exists>w'. run_ops (enqueue_transfer 1) (dequeue_transfer 1) [Leave 20, Enter 20] win_queue_world = Some w' \<and>
     queue_holds 1 w' [20]"
proof -
  have "op_node ` set [Leave 20, Enter 20] \<subseteq> dom (trans win_queue_world) - {0}"
    by (simp add: win_queue_world_def)
  moreover have "spec_ops [Leave 20, Enter (20 :: nat)] [20] = Some [20]" by simp
  ultimately show ?thesis by (rule win_queue_refines_list [OF example_queue])
qed

end
