(* ===== verification/Win32_Wait.thy ===== *)
theory Win32_Wait
  imports Win32_Queue
begin

text \<open>
  What the event loop of the Windows back end waits for
  (\<^verbatim>\<open>usbyi_reserve_handle_list\<close> and \<^verbatim>\<open>usbyi_win32_reap_until_locked\<close>
  in \<^verbatim>\<open>src/os/libusb0_win32.c\<close>): the array is always large enough and holds the events
  of exactly the queued transfers; and the two ways in which the loop leaves the array.
\<close>

section \<open>The array of handles\<close>

definition handle_list_ok :: "usbyi_handle_list \<Rightarrow> 'k win_world \<Rightarrow> bool" where
  "handle_list_ok hl w \<longleftrightarrow> 0 \<le> hl_capacity hl \<and>
     (if hl_handles hl = 0 then hl_capacity hl = 0
      else \<exists>arr. harrays (os w) (hl_handles hl) = Some arr \<and> length arr = nat (hl_capacity hl))"

lemma sdiv_nonneg: "0 \<le> (a :: int) \<Longrightarrow> 0 < b \<Longrightarrow> a sdiv b = a div b"
  by (auto simp: signed_divide_int_def sgn_if)

lemma realloc_handles_outcome:
  assumes "old = 0 \<or> harrays (os w) old = Some arr" "0 < next_addr w"
  shows "realloc_handles old n w = Some (0, snd (malloc (8 * n) w)) \<and> out_of_memory w (n_mallocs w) \<or>
    (\<exists>w'. realloc_handles old n w = Some (next_addr w, w') \<and> \<not> out_of_memory w (n_mallocs w) \<and>
      (\<exists>arr'. harrays (os w') (next_addr w) = Some arr' \<and> length arr' = n) \<and>
      ctxs w' = ctxs w \<and> trans w' = trans w \<and> wkern (os w') = wkern (os w))"
proof -
  obtain hs where hs: "(if old = 0 then Some [] else harrays (os w) old) = Some hs"
    using assms(1) by (cases "old = 0") auto
  show ?thesis
  proof (cases rule: malloc_cases [of "8 * n" w])
    case fail
    then show ?thesis using hs by (simp add: realloc_handles_def)
  next
    case ok
    then show ?thesis using hs assms(2) by (simp add: realloc_handles_def set_harrays_def)
  qed
qed

text \<open>
  C31: The array of handles of the Windows event loop: a reservation of \<open>n\<close> handles, with
  \<open>3 * n\<close> in the range of \<open>int\<close>, is defined,
  and either leaves an array with room for \<open>n\<close>, which is never more than four times as large
  as needed, or reports that there is no memory and leaves the old array. The capacity always
  is the number of handles in the block.
\<close>

theorem win_reserve_handle_list:
  assumes "handle_list_ok hl w" "0 < next_addr w" "0 \<le> n" "3 * n \<le> INT_MAX"
  shows "\<exists>r hl' w'. usbyi_reserve_handle_list hl n w = Some (r, hl', w') \<and> handle_list_ok hl' w' \<and>
    ctxs w' = ctxs w \<and> trans w' = trans w \<and> wkern (os w') = wkern (os w) \<and>
    (r = err LIBUSBY_SUCCESS \<and> n \<le> hl_capacity hl' \<and> 4 \<le> hl_capacity hl' \<and> hl_capacity hl' < 4 * max 4 n + 4 \<or>
     r = err LIBUSBY_ERROR_NO_MEM \<and> hl' = hl \<and> out_of_memory w (n_mallocs w))"
proof -
  let ?m = "if n < 4 then 4 else n"
  have cap: "0 \<le> hl_capacity hl" using assms(1) by (simp add: handle_list_ok_def)
  have x: "c_int (?m * 3) = Some (?m * 3)" "(?m * 3) sdiv 2 = ?m * 3 div 2"
    using assms(3,4) by (auto simp: c_int_def INT_MIN_def INT_MAX_def sdiv_nonneg)
  show ?thesis
  proof (cases "hl_capacity hl sdiv 4 > ?m \<or> hl_capacity hl < ?m")
    case False
    then have "usbyi_reserve_handle_list hl n w = Some (err LIBUSBY_SUCCESS, hl, w)"
      by (simp add: usbyi_reserve_handle_list_def Let_def)
    moreover have "?m \<le> hl_capacity hl" "hl_capacity hl < 4 * ?m + 4" using False cap by (auto simp: sdiv_nonneg)
    ultimately show ?thesis using assms(1) by (auto simp: max_def split: if_splits)
  next
    case True
    obtain arr where "hl_handles hl = 0 \<or> harrays (os w) (hl_handles hl) = Some arr"
      using assms(1) by (auto simp: handle_list_ok_def split: if_splits)
    from realloc_handles_outcome [OF this assms(2), of "nat (?m * 3 div 2)"] show ?thesis
    proof (elim disjE conjE exE)
      assume a: "realloc_handles (hl_handles hl) (nat (?m * 3 div 2)) w = Some (0, snd (malloc (8 * nat (?m * 3 div 2)) w))"
        "out_of_memory w (n_mallocs w)"
      let ?w = "snd (malloc (8 * nat (?m * 3 div 2)) w)"
      have "ctxs ?w = ctxs w" "trans ?w = trans w" "os ?w = os w" using a(2) by (simp_all add: malloc_def)
      moreover have "usbyi_reserve_handle_list hl n w = Some (err LIBUSBY_ERROR_NO_MEM, hl, ?w)"
        using True x a(1) by (simp add: usbyi_reserve_handle_list_def Let_def)
      ultimately show ?thesis using assms(1) a(2) by (simp add: handle_list_ok_def)
    next
      fix w' arr'
      assume a: "realloc_handles (hl_handles hl) (nat (?m * 3 div 2)) w = Some (next_addr w, w')"
        "harrays (os w') (next_addr w) = Some arr'" "length arr' = nat (?m * 3 div 2)"
        "ctxs w' = ctxs w" "trans w' = trans w" "wkern (os w') = wkern (os w)"
      let ?hl = "hl\<lparr>hl_capacity := ?m * 3 div 2, hl_handles := next_addr w\<rparr>"
      have "usbyi_reserve_handle_list hl n w = Some (err LIBUSBY_SUCCESS, ?hl, w')"
        using True x a(1) assms(2) by (simp add: usbyi_reserve_handle_list_def Let_def)
      moreover have "handle_list_ok ?hl w'" using a(2,3) assms(2,3) by (auto simp: handle_list_ok_def)
      moreover have "n \<le> hl_capacity ?hl \<and> 4 \<le> hl_capacity ?hl \<and> hl_capacity ?hl < 4 * max 4 n + 4"
        using assms(3) by (auto simp: max_def)
      ultimately show ?thesis using a(4-6) by blast
    qed
  qed
qed

theorem win_reserve_handle_list_witness:
  "\<exists>hl' w'. usbyi_reserve_handle_list \<lparr>hl_capacity = 0, hl_handles = 0\<rparr> 5 win_example_world = Some (0, hl', w') \<and>
     5 \<le> hl_capacity hl' \<and> handle_list_ok hl' w'"
proof -
  have ok: "handle_list_ok \<lparr>hl_capacity = 0, hl_handles = 0\<rparr> win_example_world" by (simp add: handle_list_ok_def)
  show ?thesis using win_reserve_handle_list [OF ok, of 5] by (auto simp: win_example_defs INT_MAX_def)
qed

section \<open>The events of the queue\<close>

definition events :: "'k win_world \<Rightarrow> addr list \<Rightarrow> handle list" where
  "events w xs = map (\<lambda>t. hEvent (tr_os (the (trans w t)))) xs"

lemma length_events: "length (events w xs) = length xs"
  by (simp add: events_def)

lemma fill_handles_links:
  assumes "links (queue_nodes ctx w) a xs 0" "0 \<notin> set xs" "k + length xs \<le> length arr"
  shows "\<exists>arr'. fill_handles h (length xs) (hd (xs @ [0])) arr k w
      = Some (arr', k + length (filter (\<lambda>e. e \<noteq> h) (events w xs))) \<and> length arr' = length arr \<and>
    take (k + length (filter (\<lambda>e. e \<noteq> h) (events w xs))) arr' =
      take k arr @ map Some (filter (\<lambda>e. e \<noteq> h) (events w xs))"
  using assms
proof (induction xs arbitrary: a arr k)
  case Nil
  then show ?case by (simp add: events_def)
next
  case (Cons x xs)
  have l: "links (queue_nodes ctx w) x xs 0" and x: "x \<noteq> 0" "0 \<notin> set xs" using Cons.prems by auto
  obtain t where t: "trans w x = Some t" "it_next t = hd (xs @ [0])"
    using links_ends(1) [OF l] x(1) by (auto simp: nxt_def queue_nodes_def bind_Some_conv)
  show ?case
  proof (cases "hEvent (tr_os t) = h")
    case True
    then show ?thesis using Cons.IH [OF l x(2), of k arr] Cons.prems(3) t x(1) by (auto simp: events_def)
  next
    case False
    let ?arr = "arr[k := Some (hEvent (tr_os t))]"
    have "k < length arr" "Suc k + length xs \<le> length ?arr" using Cons.prems(3) by simp_all
    then show ?thesis
      using Cons.IH [OF l x(2), of "Suc k" ?arr] t x(1) False by (auto simp: events_def take_update_snoc)
  qed
qed

lemma those_map_Some [simp]: "those (map Some xs) = Some xs"
  by (induction xs) simp_all

text \<open>
  C14: The Windows event loop waits for the right events: with memory available, the part of a
  pass under the critical section is defined, never writes outside the array, and leaves in it
  the target, the event of the queue and the events of exactly the queued transfers, in the
  order of the queue, save those that are the target. The critical section is left as often as
  it was entered, and the queue stays as it is.
\<close>

theorem win_collect_handles:
  assumes "queue_holds ctx w xs" "ctxs w ctx = Some c" "crit_section c = Some m" "handle_list_ok (handle_list c) w"
    "plenty w" "0 < next_addr w" "3 * (2 + int (length xs)) \<le> INT_MAX"
  shows "\<exists>n w' c'. collect_handles K ctx h w = Some (Inr n, w') \<and>
    waited_handles ctx n w' = Some (h # hTransferListUpdated c # filter (\<lambda>e. e \<noteq> h) (events w xs)) \<and>
    queue_holds ctx w' xs \<and> ctxs w' ctx = Some c' \<and> crit_section c' = Some m \<and> handle_list_ok (handle_list c') w' \<and>
    trans w' = trans w"
proof -
  have count: "tran_count c = int (length xs)" and ring: "ring 0 (queue_nodes ctx w) xs"
    using assms(1,2) by (auto simp: queue_holds_def)
  let ?c1 = "c\<lparr>crit_section := Some (Suc m)\<rparr>"
  define w1 where "w1 = w\<lparr>ctxs := (ctxs w)(ctx \<mapsto> ?c1)\<rparr>"
  have enter: "EnterCriticalSection ctx w = Some w1"
    using assms(2,3) by (simp add: EnterCriticalSection_def upd_context_def w1_def)
  have ok1: "handle_list_ok (handle_list c) w1" "0 < next_addr w1" using assms(4,6) by (simp_all add: w1_def handle_list_ok_def)
  obtain r hl w2 where w2: "usbyi_reserve_handle_list (handle_list c) (2 + int (length xs)) w1 = Some (r, hl, w2)"
    "handle_list_ok hl w2" "ctxs w2 = ctxs w1" "trans w2 = trans w1"
    and r: "r = err LIBUSBY_SUCCESS \<and> 2 + int (length xs) \<le> hl_capacity hl \<or> out_of_memory w1 (n_mallocs w1)"
    using win_reserve_handle_list [OF ok1, of "2 + int (length xs)"] assms(7) by auto
  have r: "r = err LIBUSBY_SUCCESS" "2 + int (length xs) \<le> hl_capacity hl"
    using r assms(5) by (auto simp: plenty_def w1_def)
  obtain arr where arr: "harrays (os w2) (hl_handles hl) = Some arr" "length arr = nat (hl_capacity hl)"
    using w2(2) r(2) by (auto simp: handle_list_ok_def split: if_splits)
  define w3 where "w3 = w2\<lparr>ctxs := (ctxs w2)(ctx \<mapsto> ?c1\<lparr>handle_list := hl\<rparr>)\<rparr>"
  define arr1 where "arr1 = arr[0 := Some h, 1 := Some (hTransferListUpdated c)]"
  have n3: "queue_nodes ctx w3 = queue_nodes ctx w" "trans w3 = trans w"
    using assms(2) w2(3,4) by (auto simp: queue_nodes_def w3_def w1_def fun_eq_iff)
  have c1: "ctxs w1 ctx = Some ?c1" by (simp add: w1_def)
  have upd: "upd_context ctx (\<lambda>c. c\<lparr>handle_list := hl\<rparr>) w2 = Some w3" "harrays (os w3) = harrays (os w2)"
    by (simp_all add: upd_context_def w2(3) c1 w3_def)
  have len: "2 + length xs \<le> length arr1" using r(2) arr(2) by (simp add: arr1_def)
  let ?es = "filter (\<lambda>e. e \<noteq> h) (events w xs)"
  have "links (queue_nodes ctx w3) 0 xs 0" "0 \<notin> set xs" using ring by (simp_all add: ring_def n3)
  from fill_handles_links [OF this len, of h] obtain arr2 where
    fill: "fill_handles h (length xs) (hd (xs @ [0])) arr1 2 w3 = Some (arr2, 2 + length ?es)"
    and arr2: "length arr2 = length arr" "take (2 + length ?es) arr2 = take 2 arr1 @ map Some ?es"
    by (auto simp: arr1_def events_def n3)
  have first: "trani_first c = hd (xs @ [0])" by (rule queue_ends(1) [OF ring assms(2)])
  let ?w4 = "win_do (n_ResetEvent K (hTransferListUpdated c)) (set_harrays ((harrays (os w3))(hl_handles hl \<mapsto> arr2)) w3)"
  let ?c5 = "c\<lparr>handle_list := hl\<rparr>"
  define w5 where "w5 = ?w4\<lparr>ctxs := (ctxs w3)(ctx \<mapsto> ?c5)\<rparr>"
  have frame: "ctxs ?w4 = ctxs w3" "trans ?w4 = trans w" "harrays (os ?w4) = (harrays (os w3))(hl_handles hl \<mapsto> arr2)"
    by (simp_all add: win_do_def set_wkern_def set_harrays_def n3)
  have "c\<lparr>handle_list := hl, crit_section := Some m\<rparr> = ?c5" using assms(3) by (cases c) simp
  then have leave: "LeaveCriticalSection ctx ?w4 = Some w5"
    using frame(1) by (simp add: LeaveCriticalSection_def upd_context_def w5_def w3_def)
  have run: "collect_handles K ctx h w = Some (Inr (2 + length ?es), w5)"
    using enter c1 w2(1) upd r arr len fill leave count first assms(7)
    by (simp add: collect_handles_def c_int_def INT_MIN_def Let_def arr1_def)
  have "\<exists>x y zs. arr = x # y # zs" using len by (auto simp: arr1_def Suc_le_length_iff)
  then have "take 2 arr1 = [Some h, Some (hTransferListUpdated c)]" by (auto simp: arr1_def)
  moreover have le: "2 + length ?es \<le> length arr2"
    using len arr2(1) length_filter_le [of "\<lambda>e. e \<noteq> h" "events w xs"] length_events [of w xs] by (simp add: arr1_def)
  ultimately have "waited_handles ctx (2 + length ?es) w5 = Some (h # hTransferListUpdated c # ?es)"
    using arr2(2) le frame(3) by (simp add: waited_handles_def w5_def rd_block_def)
  moreover have "queue_holds ctx w5 xs"
    using queue_holds_cong [of w ctx c w5 ?c5 xs] assms(1,2) frame(2) by (simp add: w5_def)
  moreover have "handle_list_ok hl w5" using w2(2) arr2(1) arr frame(3) by (auto simp: handle_list_ok_def w5_def)
  ultimately show ?thesis using run assms(3) frame(2) by (auto simp: w5_def)
qed

theorem win_collect_handles_witness:
  "\<exists>n w'. collect_handles win_example_kernel 1 7 win_queue_world = Some (Inr n, w') \<and>
     waited_handles 1 n w' = Some [7, 8, 31]"
proof -
  let ?c = "win_example_context\<lparr>trani_first := 20, trani_last := 20, tran_count := 1\<rparr>"
  have ex: "ctxs win_queue_world 1 = Some ?c" "crit_section ?c = Some 0" "handle_list_ok (handle_list ?c) win_queue_world"
    "plenty win_queue_world" "0 < next_addr win_queue_world" "3 * (2 + int (length [20 :: nat])) \<le> INT_MAX"
    by (simp_all add: win_queue_world_def win_example_defs handle_list_ok_def plenty_def INT_MAX_def)
  have "hTransferListUpdated ?c # filter (\<lambda>e. e \<noteq> 7) (events win_queue_world [20]) = [8, 31]"
    by (simp add: events_def win_queue_world_def win_example_transfer_def zero_transfer_of_def win_example_context_def)
  then show ?thesis using win_collect_handles [OF example_queue ex, of win_example_kernel 7] by auto
qed

section \<open>Leaving the array\<close>

text \<open>
  C37: An error of the wait is not handled on Windows: when \<open>WaitForMultipleObjects\<close> reports
  anything but the index of one of the handles (as it does when it is given more than 64 of
  them, that is with 63 transfers), the event loop does not return \<open>LIBUSBY_ERROR_IO\<close> but uses
  the value as an index, outside the array. The condition meant to catch it asks whether an
  unsigned number is negative.
\<close>

theorem win_wait_failure_undefined:
  assumes "collect_handles K ctx h w = Some (Inr n, w1)" "waited_handles ctx n w1 = Some hs" "env w1 = Some w2"
    "n_WaitForMultipleObjects K hs (wkern (os w2)) = (res, k)" "1 < res"
    "ctxs w2 ctx = Some c" "harrays (os w2) (hl_handles (handle_list c)) = Some arr" "length arr \<le> unat res"
  shows "usbyi_win32_reap_until_locked K env cb ctx h w = None"
proof -
  have "res \<noteq> 0" "res \<noteq> 1" using assms(5) by auto
  moreover have "reap_signalled K cb ctx (unat res) (set_wkern k w2) = None"
    using assms(6-8) by (simp add: reap_signalled_def set_wkern_def)
  ultimately show ?thesis
    using assms(1-4) by (subst usbyi_win32_reap_until_locked.simps) (simp add: win_call_def)
qed

definition failing_wait :: "sys win32" where
  "failing_wait = win_example_kernel\<lparr>n_WaitForMultipleObjects := (\<lambda>_ k. (WAIT_FAILED, k))\<rparr>"

lemma example_collect:
  "map_option (\<lambda>(x, w). (x, waited_handles 1 2 w, map_option (hl_handles \<circ> handle_list) (ctxs w 1),
     map_option length (harrays (os w) 100))) (collect_handles failing_wait 1 7 win_example_world)
   = Some (Inr 2, Some [7, 8], Some 100, Some 6)"
  by code_simp

theorem win_wait_failure_undefined_witness:
  "usbyi_win32_reap_until_locked failing_wait Some (\<lambda>_ _. Some) 1 7 win_example_world = None"
proof -
  obtain w1 where w1: "collect_handles failing_wait 1 7 win_example_world = Some (Inr 2, w1)"
    "waited_handles 1 2 w1 = Some [7, 8]" "map_option (hl_handles \<circ> handle_list) (ctxs w1 1) = Some 100"
    "map_option length (harrays (os w1) 100) = Some 6"
    using example_collect by auto
  then obtain c arr where c: "ctxs w1 1 = Some c" "harrays (os w1) (hl_handles (handle_list c)) = Some arr" "length arr = 6"
    by auto
  have "n_WaitForMultipleObjects failing_wait [7, 8] (wkern (os w1)) = (WAIT_FAILED, wkern (os w1))"
    by (simp add: failing_wait_def)
  from win_wait_failure_undefined [OF w1(1,2) _ this _ c(1,2)] show ?thesis by (simp add: c(3))
qed

text \<open>
  C38: Nor is a failed reservation handled on Windows: when the first \<open>realloc\<close> of a context
  fails, the event loop does not return \<open>LIBUSBY_ERROR_NO_MEM\<close> but stores the handles through
  the null pointer. The result of the reservation is kept as an unsigned number, and compared
  with zero.
\<close>

theorem win_out_of_memory_undefined:
  assumes "ctxs w ctx = Some c" "crit_section c \<noteq> None" "handle_list c = \<lparr>hl_capacity = 0, hl_handles = 0\<rparr>"
    "harrays (os w) 0 = None" "0 \<le> tran_count c" "3 * (2 + tran_count c) \<le> INT_MAX" "out_of_memory w (n_mallocs w)"
  shows "usbyi_win32_reap_until_locked K env cb ctx h w = None"
proof -
  obtain m where m: "crit_section c = Some m" using assms(2) by auto
  let ?w1 = "w\<lparr>ctxs := (ctxs w)(ctx \<mapsto> c\<lparr>crit_section := Some (Suc m)\<rparr>)\<rparr>" and ?n = "2 + tran_count c"
  have "EnterCriticalSection ctx w = Some ?w1"
    using assms(1) m by (simp add: EnterCriticalSection_def upd_context_def)
  moreover have "\<exists>w2. usbyi_reserve_handle_list (handle_list c) ?n ?w1 = Some (err LIBUSBY_ERROR_NO_MEM, handle_list c, w2) \<and>
      os w2 = os w \<and> ctxs w2 ctx = Some (c\<lparr>crit_section := Some (Suc m)\<rparr>)"
    using assms(3,5-7)
    by (auto simp: usbyi_reserve_handle_list_def realloc_handles_def malloc_def c_int_def INT_MIN_def INT_MAX_def
        sdiv_nonneg Let_def)
  moreover have "c_int ?n = Some ?n" using assms(5,6) by (simp add: c_int_def INT_MIN_def)
  ultimately have "collect_handles K ctx h w = None"
    using assms(3,4) by (auto simp: collect_handles_def upd_context_def Let_def)
  then show ?thesis by (subst usbyi_win32_reap_until_locked.simps) simp
qed

theorem win_out_of_memory_undefined_witness:
  "usbyi_win32_reap_until_locked win_example_kernel Some (\<lambda>_ _. Some) 1 7
     (win_example_world\<lparr>out_of_memory := (\<lambda>_. True)\<rparr>) = None"
  by (rule win_out_of_memory_undefined [where c = win_example_context]) (simp_all add: win_example_defs INT_MAX_def)

end
