(* ===== verification/Win32_Reap.thy ===== *)
theory Win32_Reap
  imports Win32_Queue
begin

text \<open>
  The completion of a queued transfer by the Windows back end
  (\<^verbatim>\<open>usbyb_reap_transfer\<close> in \<^verbatim>\<open>src/os/libusb0_win32.c\<close>).
\<close>

section \<open>What the removal from the queue leaves alone\<close>

lemma upd_transfer_other:
  assumes "upd_transfer p f w = Some w'" "\<And>x. g (f x) = g x"
  shows "map_option g (trans w' t) = map_option g (trans w t)"
  using assms by (auto simp: upd_Some)

definition public_part :: "win_transfer usbyb_transfer \<Rightarrow> libusby_transfer \<times> win_transfer \<times> addr" where
  "public_part x = (tr_pub x, tr_os x, it_ctx x)"

definition lock_part :: "win_context \<Rightarrow> nat option \<times> handle" where
  "lock_part c = (crit_section c, hTransferListUpdated c)"

text \<open>Two worlds that differ in the links of transfers and in the ends and the count of queues only.\<close>

definition links_only :: "'k win_world \<Rightarrow> 'k win_world \<Rightarrow> bool" where
  "links_only w w' \<longleftrightarrow> (\<forall>t. map_option public_part (trans w' t) = map_option public_part (trans w t)) \<and>
     (\<forall>c. map_option lock_part (ctxs w' c) = map_option lock_part (ctxs w c)) \<and>
     bufs w' = bufs w \<and> os w' = os w \<and> hnds w' = hnds w \<and> devs w' = devs w"

lemma links_only_trans: "links_only w1 w2 \<Longrightarrow> links_only w2 w3 \<Longrightarrow> links_only w1 w3"
  by (simp add: links_only_def)

lemma links_only_transfer:
  "upd_transfer p f w = Some w' \<Longrightarrow> (\<And>x. public_part (f x) = public_part x) \<Longrightarrow> links_only w w'"
  using upd_transfer_other [of p f w w' public_part] by (auto simp: links_only_def upd_Some)

lemma links_only_context:
  "upd_context p f w = Some w' \<Longrightarrow> (\<And>c. lock_part (f c) = lock_part c) \<Longrightarrow> links_only w w'"
  by (auto simp: links_only_def upd_Some)

lemma dequeue_links_only:
  assumes "dequeue_transfer ctx t w = Some w'"
  shows "links_only w w'"
proof -
  obtain x w1 where w1: "set_queue_prev ctx (it_next x) (it_prev x) w = Some w1" and x: "trans w t = Some x"
    using assms by (auto simp: dequeue_steps bind_Some_conv)
  obtain y w2 where w2: "set_queue_next ctx (it_prev y) (it_next y) w1 = Some w2" and y: "trans w1 t = Some y"
    using assms x w1 by (auto simp: dequeue_steps bind_Some_conv)
  obtain w3 n where w3: "upd_transfer t (\<lambda>t. t\<lparr>it_next := 0, it_prev := 0\<rparr>) w2 = Some w3"
    and w4: "upd_context ctx (\<lambda>c. c\<lparr>tran_count := n\<rparr>) w3 = Some w'"
    using assms x w1 y w2 by (auto simp: dequeue_steps bind_Some_conv)
  have "links_only w w1" using w1
    by (auto simp: set_queue_prev_def public_part_def lock_part_def split: if_splits intro: links_only_transfer links_only_context)
  moreover have "links_only w1 w2" using w2
    by (auto simp: set_queue_next_def public_part_def lock_part_def split: if_splits intro: links_only_transfer links_only_context)
  moreover have "links_only w2 w3" using w3 by (rule links_only_transfer) (simp add: public_part_def)
  moreover have "links_only w3 w'" using w4 by (rule links_only_context) (simp add: lock_part_def)
  ultimately show ?thesis using links_only_trans by blast
qed

section \<open>Completion\<close>

text \<open>What the last critical section of a completion does: it signals the completion event, if it has to.\<close>

lemma reap_tail:
  assumes "ctxs w ctx = Some c" "crit_section c = Some m" "trans w t = Some y"
  shows "(do {
     w \<leftarrow> EnterCriticalSection ctx w;
     t \<leftarrow> trans w t;
     LeaveCriticalSection ctx
       (if submitted (tr_os t) = 0 then win_do (n_SetEvent K (hCompletionEvent (tr_os t))) w else w) })
   = Some (if submitted (tr_os y) = 0 then win_do (n_SetEvent K (hCompletionEvent (tr_os y))) w else w)"
proof -
  have "(ctxs w)(ctx \<mapsto> c\<lparr>crit_section := Some m\<rparr>) = ctxs w" using assms(1,2) by (cases c) (auto simp: fun_eq_iff)
  then show ?thesis
    using assms by (cases w) (simp add: EnterCriticalSection_def LeaveCriticalSection_def upd_context_def win_do_def set_wkern_def c_assert_def)
qed

text \<open>
  C11: The completion of a queued transfer on Windows, with or without a callback. In the world
  \<open>w4\<close>, in which the callback is called, the transfer has left the queue, wherever it was
  in it, is no longer marked as submitted, and has the actual length and status of what the system
  reports: the number of bytes, plus the 8 of the setup packet of a control transfer, for a
  success; 0 and \<open>CANCELLED\<close> when it was aborted; 0 and \<open>ERROR\<close> otherwise. The
  critical section is then entered as often as before the call, and no event has been signalled.
  Whatever the callback \<open>cb\<close> makes of \<open>w4\<close>, if in its result \<open>w5\<close> the transfer
  and the context still exist, one thing follows and nothing else: when the transfer is not marked
  as submitted again, its completion event is signalled, last of all; a transfer that the callback has submitted again is not reported as complete.
\<close>

theorem win_reap_transfer:
  assumes "trans w t = Some x" "file_of_handle (lt_dev_handle (tr_pub x)) w = Some fl"
    "queue_holds (it_ctx x) w xs" "t \<in> set xs" "ctxs w (it_ctx x) = Some c" "crit_section c = Some m"
    "n_GetOverlappedResult K fl (hEvent (tr_os x)) (wkern (os w)) = (io, k)"
    "store_at (fst (io_dest io)) (snd (io_dest io)) (io_data io) (set_wkern k w) = Some w1"
  shows "\<exists>w4 x4 c4. queue_holds (it_ctx x) w4 (remove1 t xs) \<and>
    trans w4 t = Some x4 \<and> tr_os x4 = (tr_os x)\<lparr>submitted := 0\<rparr> \<and>
    tr_pub x4 = finished (if io_ok io then ERROR_SUCCESS else io_error io) (io_transferred io) (tr_pub x) \<and>
    wkern (os w4) = k \<and> bufs w4 = bufs w1 \<and> ctxs w4 (it_ctx x) = Some c4 \<and> crit_section c4 = Some m \<and>
    (\<forall>cb w5 c5 m5 y. (if lt_callback (tr_pub x) = 0 then Some w4 else cb (lt_callback (tr_pub x)) t w4) = Some w5 \<longrightarrow>
       ctxs w5 (it_ctx x) = Some c5 \<longrightarrow> crit_section c5 = Some m5 \<longrightarrow> trans w5 t = Some y \<longrightarrow>
       usbyb_reap_transfer K cb t w = Some (if submitted (tr_os y) = 0
         then set_wkern (n_SetEvent K (hCompletionEvent (tr_os y)) (wkern (os w5))) w5 else w5))"
proof -
  let ?ctx = "it_ctx x" and ?e = "if io_ok io then ERROR_SUCCESS else io_error io"
  let ?p = "finished ?e (io_transferred io) (tr_pub x)" and ?c = "c\<lparr>crit_section := Some (Suc m)\<rparr>"
  have w1: "trans w1 = trans w" "ctxs w1 = ctxs w" "wkern (os w1) = k"
    using assms(8) by (auto simp: store_at_def bind_Some_conv set_wkern_def split: if_splits)
  define w2 where "w2 = w1\<lparr>trans := (trans w1)(t \<mapsto> x\<lparr>tr_pub := ?p\<rparr>), ctxs := (ctxs w1)(?ctx \<mapsto> ?c)\<rparr>"
  have "queue_holds ?ctx w2 xs"
    using queue_holds_cong [of w ?ctx c w2 ?c xs] assms(1,3,5) by (simp add: w2_def w1)
  then obtain w3 where w3: "dequeue_transfer ?ctx t w2 = Some w3" "queue_holds ?ctx w3 (remove1 t xs)"
    using tran_queue.leave_ok [OF _ assms(4)] by blast
  have fr: "map_option public_part (trans w3 t) = Some (?p, tr_os x, ?ctx)"
    "map_option lock_part (ctxs w3 ?ctx) = Some (Some (Suc m), hTransferListUpdated c)" "bufs w3 = bufs w2" "os w3 = os w2"
    using dequeue_links_only [OF w3(1)] by (simp_all add: links_only_def w2_def public_part_def lock_part_def)
  obtain y where y: "trans w3 t = Some y" "tr_pub y = ?p" "tr_os y = tr_os x" using fr(1) by (auto simp: public_part_def)
  obtain d where d: "ctxs w3 ?ctx = Some d" "crit_section d = Some (Suc m)" using fr(2) by (auto simp: lock_part_def)
  let ?y = "y\<lparr>tr_os := (tr_os x)\<lparr>submitted := 0\<rparr>\<rparr>" and ?d = "d\<lparr>crit_section := Some m\<rparr>"
  define w4 where "w4 = w3\<lparr>trans := (trans w3)(t \<mapsto> ?y), ctxs := (ctxs w3)(?ctx \<mapsto> ?d)\<rparr>"
  define w1a where "w1a = w1\<lparr>trans := (trans w1)(t \<mapsto> x\<lparr>tr_pub := ?p\<rparr>)\<rparr>"
  define w3a where "w3a = w3\<lparr>trans := (trans w3)(t \<mapsto> ?y)\<rparr>"
  have s1: "upd_transfer t (upd_pub (finished ?e (io_transferred io))) w1 = Some w1a" "EnterCriticalSection ?ctx w1a = Some w2"
    using assms(1,5,6) by (simp_all add: upd_transfer_def upd_pub_def EnterCriticalSection_def upd_context_def w1 w1a_def w2_def)
  have s2: "set_submitted t 0 w3 = Some w3a" "LeaveCriticalSection ?ctx w3a = Some w4"
    using y d by (simp_all add: set_submitted_def upd_transfer_def LeaveCriticalSection_def upd_context_def w3a_def w4_def)
  have s3: "call_back cb t w4 = (if lt_callback (tr_pub x) = 0 then Some w4 else cb (lt_callback (tr_pub x)) t w4)" for cb
    using y(2) by (simp add: call_back_def w4_def)
  have run: "usbyb_reap_transfer K cb t w = Some (if submitted (tr_os z) = 0
      then set_wkern (n_SetEvent K (hCompletionEvent (tr_os z)) (wkern (os w5))) w5 else w5)"
    if "(if lt_callback (tr_pub x) = 0 then Some w4 else cb (lt_callback (tr_pub x)) t w4) = Some w5"
      "ctxs w5 ?ctx = Some c5" "crit_section c5 = Some m5" "trans w5 t = Some z" for cb w5 c5 m5 z
    using assms(1,2,7,8) s1 w3(1) s2 s3 [of cb, unfolded that(1)] reap_tail [OF that(2-4), of K]
    by (simp add: usbyb_reap_transfer_def win_call_def usbyb_update_finished_transfer_def win_do_def)
  have "queue_holds ?ctx w4 (remove1 t xs)"
    using queue_holds_cong [of w3 ?ctx d w4 ?d] w3(2) d(1) y(1) by (simp add: w4_def)
  moreover have "trans w4 t = Some ?y" "tr_pub ?y = ?p" "tr_os ?y = (tr_os x)\<lparr>submitted := 0\<rparr>" "wkern (os w4) = k"
    "bufs w4 = bufs w1" "ctxs w4 ?ctx = Some ?d" "crit_section ?d = Some m"
    using fr(3,4) w1(3) y(2) by (simp_all add: w4_def w2_def)
  ultimately show ?thesis using run by blast
qed

text \<open>A system that records the events that are signalled, and the queued transfer with a callback.\<close>

definition signal_kernel :: "sys win32" where
  "signal_kernel = win_example_kernel\<lparr>n_SetEvent := (\<lambda>h k. (fst k, h # snd k))\<rparr>"

definition reap_tran :: "nat \<Rightarrow> win_transfer usbyb_transfer" where
  "reap_tran f = upd_pub (\<lambda>p. p\<lparr>lt_callback := f\<rparr>) win_example_transfer"

definition reap_world :: "nat \<Rightarrow> sys win_world" where
  "reap_world f = win_queue_world\<lparr>trans := [20 \<mapsto> reap_tran f]\<rparr>"

lemma reap_tran_simps:
  "it_ctx (reap_tran f) = 1" "tr_os (reap_tran f) = \<lparr>hCompletionEvent = 30, hEvent = 31, submitted = 1\<rparr>"
  "lt_dev_handle (tr_pub (reap_tran f)) = 3" "lt_callback (tr_pub (reap_tran f)) = f"
  by (simp_all add: reap_tran_def upd_pub_def win_example_transfer_def zero_transfer_of_def zero_transfer_pub_def)

lemma reap_world_facts:
  "trans (reap_world f) 20 = Some (reap_tran f)"
  "file_of_handle (lt_dev_handle (tr_pub (reap_tran f))) (reap_world f) = Some 9"
  "queue_holds (it_ctx (reap_tran f)) (reap_world f) [20]" "20 \<in> set [20 :: nat]"
  "ctxs (reap_world f) (it_ctx (reap_tran f)) = Some (win_example_context\<lparr>trani_first := 20, trani_last := 20, tran_count := 1\<rparr>)"
  "crit_section (win_example_context\<lparr>trani_first := 20, trani_last := 20, tran_count := 1\<rparr>) = Some 0"
  "n_GetOverlappedResult signal_kernel 9 (hEvent (tr_os (reap_tran f))) (wkern (os (reap_world f)))
    = (full_io [] (0, 0), (10, [5, 6, 7, 8, 9]))"
  "store_at (fst (io_dest (full_io [] (0, 0)))) (snd (io_dest (full_io [] (0, 0)))) (io_data (full_io [] (0, 0)))
    (set_wkern (10, [5, 6, 7, 8, 9]) (reap_world f)) = Some (set_wkern (10, [5, 6, 7, 8, 9]) (reap_world f))"
  by (simp_all add: reap_tran_simps file_of_handle_def reap_world_def signal_kernel_def full_io_def store_at_def win_example_defs
      win_queue_world_def queue_holds_def ring_def nxt_def prv_def queue_nodes_def reap_tran_def upd_pub_def
      win_example_transfer_def zero_transfer_of_def INT_MAX_def)

text \<open>Without a callback the event 30 is signalled; with one that submits the transfer again it is not.\<close>

theorem win_reap_transfer_witness:
  "(\<exists>w' x'. usbyb_reap_transfer signal_kernel (\<lambda>_ t. set_submitted t 1) 20 (reap_world 0) = Some w' \<and>
     queue_holds 1 w' [] \<and> trans w' 20 = Some x' \<and> lt_status (tr_pub x') = 0 \<and> submitted (tr_os x') = 0 \<and>
     wkern (os w') = (10, [30, 5, 6, 7, 8, 9])) \<and>
   (\<exists>w'. usbyb_reap_transfer signal_kernel (\<lambda>_ t. set_submitted t 1) 20 (reap_world 1) = Some w' \<and>
     wkern (os w') = (10, [5, 6, 7, 8, 9]))"
proof (rule conjI)
  note run = win_reap_transfer [OF reap_world_facts, of 0, unfolded reap_tran_simps]
  show "\<exists>w' x'. usbyb_reap_transfer signal_kernel (\<lambda>_ t. set_submitted t 1) 20 (reap_world 0) = Some w' \<and>
      queue_holds 1 w' [] \<and> trans w' 20 = Some x' \<and> lt_status (tr_pub x') = 0 \<and> submitted (tr_os x') = 0 \<and>
      wkern (os w') = (10, [30, 5, 6, 7, 8, 9])"
    using run
  proof (elim exE conjE, goal_cases)
    case (1 w4 x4 c4)
    let ?w5 = "set_wkern (10, [30, 5, 6, 7, 8, 9]) w4"
    have "usbyb_reap_transfer signal_kernel (\<lambda>_ t. set_submitted t 1) 20 (reap_world 0) = Some ?w5"
      using 1(9) [rule_format, of "\<lambda>_ t. set_submitted t 1" w4, OF _ 1(7,8,2)] 1(3,5) by (simp add: signal_kernel_def)
    moreover have "queue_holds 1 ?w5 []"
      using queue_holds_cong [of w4 1 c4 ?w5 c4] 1(1,7) by (simp add: set_wkern_def)
    ultimately show ?case
      using 1(2-4) by (simp add: set_wkern_def full_io_def finished_def)
  qed
next
  note run = win_reap_transfer [OF reap_world_facts, of 1, unfolded reap_tran_simps]
  show "\<exists>w'. usbyb_reap_transfer signal_kernel (\<lambda>_ t. set_submitted t 1) 20 (reap_world 1) = Some w' \<and>
      wkern (os w') = (10, [5, 6, 7, 8, 9])"
    using run
  proof (elim exE conjE, goal_cases)
    case (1 w4 x4 c4)
    let ?y = "x4\<lparr>tr_os := (tr_os x4)\<lparr>submitted := 1\<rparr>\<rparr>"
    let ?w5 = "w4\<lparr>trans := (trans w4)(20 \<mapsto> ?y)\<rparr>"
    have "set_submitted 20 1 w4 = Some ?w5" using 1(2) by (simp add: set_submitted_def upd_transfer_def)
    then have "usbyb_reap_transfer signal_kernel (\<lambda>_ t. set_submitted t 1) 20 (reap_world 1) = Some ?w5"
      using 1(9) [rule_format, of "\<lambda>_ t. set_submitted t 1" ?w5 c4 0 ?y] 1(7,8) by simp
    then show ?case using 1(5) by simp
  qed
qed

end
