(* ===== verification/Win32_Sync.thy ===== *)
theory Win32_Sync
  imports Win32_Example Win32_Request Transfer_Steps
begin

text \<open>
  The transfers and requests that wait over the Windows back end: bulk and control transfers of
  the front end with \<^verbatim>\<open>usbyb_perform_transfer\<close>, and the configuration
  (\<^verbatim>\<open>src/libusby.c\<close>, \<^verbatim>\<open>src/os/libusb0_win32.c\<close>).
\<close>

section \<open>Requests to the driver\<close>

text \<open>Of the world a request depends on the system only, and changes nothing else.\<close>

lemma overlapped_io_frame:
  assumes "overlapped_io K fl code rq out dest event w = (e, m, out', w')"
  shows "bufs w' = bufs w" "trans w' = trans w" "length out' = length out"
  using assms by (auto simp: overlapped_io_def win_call_def set_wkern_def overlay_def Let_def split: prod.splits if_splits)

lemma overlapped_io_kernel:
  assumes "overlapped_io K fl code rq out dest event w = (e, m, out', w')" "wkern (os w2) = wkern (os w)"
  shows "overlapped_io K fl code rq out dest event w2 = (e, m, out', set_wkern (wkern (os w')) w2)"
  using assms by (auto simp: overlapped_io_def win_call_def set_wkern_def Let_def split: prod.splits if_splits)

text \<open>The transferred bytes are stored over the start of the part of the buffer that was given to the driver.\<close>

definition delivered :: "addr \<Rightarrow> u8 list \<Rightarrow> (addr \<rightharpoonup> u8 list) \<Rightarrow> (addr \<rightharpoonup> u8 list) \<Rightarrow> bool" where
  "delivered p out m m' \<longleftrightarrow> (if out = [] then m' = m
     else \<exists>b. m p = Some b \<and> m' = m(p \<mapsto> out @ drop (length out) b))"

lemma store_at_delivered: "store_at p 0 out w = Some w' \<Longrightarrow> trans w' = trans w \<and> os w' = os w \<and> delivered p out (bufs w) (bufs w')"
  by (auto simp: store_at_def delivered_def bind_Some_conv wr_block_def split: if_splits)

text \<open>Machine integers.\<close>

lemma sint_small:
  assumes "unat (m :: u32) < 2 ^ 31"
  shows "sint m = int (unat m)"
proof -
  have "int (unat m) < int (2 ^ 31)" using assms by (simp only: of_nat_less_iff)
  then have "uint m < 2 ^ 31" by simp
  then have "signed_take_bit 31 (uint m) = uint m"
    using uint_ge_0 [of m] by (intro signed_take_bit_int_eq_self) linarith+
  then show ?thesis by (simp add: sint_uint)
qed

lemma unat_u16_u32: "unat (ucast (n :: u16) :: u32) = unat n"
proof -
  have "unat n < 2 ^ 32" using unat_u16_less [of n] by simp
  then show ?thesis by (simp add: unsigned_ucast_eq take_bit_nat_eq_self)
qed

section \<open>Allocation and release of a transfer\<close>

lemma tr_os_zero [simp]: "tr_os (zero_transfer_of n x) = x"
  by (simp add: zero_transfer_of_def)

lemma win_init_transfer_ok:
  assumes "n_CreateEvent K True True (wkern (os w)) = (e1, k1)" "e1 \<noteq> 0" "n_CreateEvent K True True k1 = (e2, k2)" "e2 \<noteq> 0"
    "trans w t = Some x"
  shows "win_usbyb_init_transfer K t w = Some (err LIBUSBY_SUCCESS, set_wkern k2 (w\<lparr>trans := (trans w)(t \<mapsto>
    x\<lparr>tr_os := (tr_os x)\<lparr>hCompletionEvent := e1, hEvent := e2, submitted := 0\<rparr>\<rparr>)\<rparr>))"
  using assms
  by (simp add: win_usbyb_init_transfer_def win_call_def set_wkern_def upd_transfer_def set_submitted_def Let_def)

lemma win_alloc_transfer:
  assumes "libusby_alloc_transfer (win_backend K sz env cb) ctx 0 w = Some (tran, w')"
    "n_CreateEvent K True True (wkern (os w)) = (e1, k1)" "n_CreateEvent K True True k1 = (e2, k2)"
  shows "bufs w' = bufs w \<and> hnds w' = hnds w \<and> devs w' = devs w \<and>
    (if tran = 0 then wkern (os w') = wkern (os w) \<or> e1 = 0 \<and> wkern (os w') = k1 \<or>
       e1 \<noteq> 0 \<and> e2 = 0 \<and> wkern (os w') = n_CloseHandle K e1 k2
     else e1 \<noteq> 0 \<and> e2 \<noteq> 0 \<and> wkern (os w') = k2 \<and> (\<exists>t z. tran = t + sz_pub_offset sz \<and> t \<noteq> 0 \<and> trans w' t = Some z \<and>
       tr_pub z = zero_transfer_pub 0 \<and> hCompletionEvent (tr_os z) = e1 \<and> hEvent (tr_os z) = e2))"
proof -
  obtain p w1 where new: "new_transfer (transfer_alloc_size (sz_transfer sz) 0) (zero_transfer_of 0 zero_win_transfer) w = (p, w1)"
    by force
  note f = new_transfer_frame [OF new]
  have e1: "n_CreateEvent K True True (wkern (os w1)) = (e1, k1)" using assms(2) f by simp
  note e2 = assms(3)
  show ?thesis
  proof (cases "p = 0")
    case True
    then show ?thesis using assms(1) new f by (simp add: libusby_alloc_transfer_def)
  next
    case p: False
    then have x: "trans w1 p = Some (zero_transfer_of 0 zero_win_transfer)" using f by simp
    show ?thesis
    proof (cases "e1 = 0 \<or> e2 = 0")
      case True
      then show ?thesis
        using assms(1) new f p e1 e2 x
        by (auto simp: libusby_alloc_transfer_def win_usbyb_init_transfer_def win_call_def win_do_def upd_transfer_def
            set_wkern_def free_transfer_def Let_def bind_Some_conv split: if_splits)
    next
      case False
      then show ?thesis
        using assms(1) new f p win_init_transfer_ok [OF e1 _ e2 _ x]
        by (auto simp: libusby_alloc_transfer_def upd_transfer_def set_wkern_def usbyi_get_pub_tran_def zero_transfer_of_def)
    qed
  qed
qed

lemma win_free_transfer:
  assumes "libusby_free_transfer (win_backend K sz env cb) (t + sz_pub_offset sz) w = Some w'" "t \<noteq> 0" "trans w t = Some z"
  shows "bufs w' = bufs w"
    "wkern (os w') = n_CloseHandle K (hCompletionEvent (tr_os z)) (n_CloseHandle K (hEvent (tr_os z)) (wkern (os w)))"
  using assms
  by (auto simp: libusby_free_transfer_def usbyi_get_tran_def win_usbyb_clear_transfer_def free_transfer_def
      win_do_def set_wkern_def bind_Some_conv split: if_splits)

section \<open>Bulk transfers\<close>

lemma finished_parts [simp]:
  "lt_callback (finished e m p) = lt_callback p"
  "lt_actual_length (finished e m p) = (if e = ERROR_SUCCESS
     then sint (if lt_type p = type_code LIBUSBY_TRANSFER_TYPE_CONTROL then m + 8 else m) else 0)"
  "lt_status (finished e m p) = 0 \<longleftrightarrow> e = ERROR_SUCCESS"
  by (simp_all add: finished_def)

definition bulk_code :: "u8 \<Rightarrow> libusb_ioctl" where
  "bulk_code ep = (if ep AND 0x80 \<noteq> 0 then LIBUSB_IOCTL_INTERRUPT_OR_BULK_READ else LIBUSB_IOCTL_INTERRUPT_OR_BULK_WRITE)"

text \<open>
  A bulk transfer of \<open>len\<close> bytes at \<open>p\<close> that is made of one request, from the state
  \<open>k\<close> of the system to the state \<open>k'\<close>: the number of bytes \<open>v\<close> it
  reports, 0 for a failed request, and the memory after it.
\<close>

definition bulk_request :: "'k win32 \<Rightarrow> handle \<Rightarrow> u8 \<Rightarrow> addr \<Rightarrow> int \<Rightarrow> handle \<Rightarrow> 'k \<Rightarrow> 'k win_world
    \<Rightarrow> int \<Rightarrow> (addr \<rightharpoonup> u8 list) \<Rightarrow> 'k \<Rightarrow> bool" where
  "bulk_request K fl ep p len event k w v m' k' \<longleftrightarrow> (\<exists>out e n out'.
     bytes_at p 0 (unat (word_of_int len :: u32)) w = Some out \<and>
     one_request K fl (bulk_code ep) (request_of (Req_endpoint (ucast ep))) out (p, 0) event k = (e, n, out', k') \<and>
     delivered p out' (bufs w) m' \<and> v = (if e = ERROR_SUCCESS then sint n else 0))"

lemma bulk_request_cong:
  "bufs w2 = bufs w \<Longrightarrow> bulk_request K fl ep p len event k w2 v m' k' = bulk_request K fl ep p len event k w v m' k'"
  by (simp only: bulk_request_def bytes_at_def)

lemma win_bulk_perform:
  assumes y: "trans w t = Some y" "tr_pub y = bulk_pub h ep data len timeout"
    and x: "hnds w h = Some x" "devs w (lh_dev x) = Some d"
    and run: "libusby_perform_transfer (win_backend K sz env cb) (t + sz_pub_offset sz) w = Some (r, w')"
  shows "r = err LIBUSBY_SUCCESS" "\<exists>y'. trans w' t = Some y' \<and> tr_os y' = tr_os y \<and>
    bulk_request K (hFile (ld_os d)) ep data len (hEvent (tr_os y)) (wkern (os w)) w (lt_actual_length (tr_pub y')) (bufs w') (wkern (os w'))"
proof -
  have fl: "file_of_handle h w = Some (hFile (ld_os d))" using x by (simp add: file_of_handle_def)
  have prep: "usbyb_prepare_transfer_submission (bulk_pub h ep data len timeout) w =
    Some (Inr (bulk_code ep, request_of (Req_endpoint (ucast ep)), 0, len))"
    by (simp add: usbyb_prepare_transfer_submission_def bulk_code_def)
  obtain r1 w1 where call: "win_usbyb_perform_transfer K cb t w = Some (r1, w1)"
    using run by (auto simp: libusby_perform_transfer_def usbyi_get_tran_def bind_Some_conv)
  note p = call [unfolded win_usbyb_perform_transfer_def y(1) bind.bind_lunit y(2) bulk_pub_simps fl prep sum.case prod.case Let_def]
  obtain out where out: "bytes_at data 0 (unat (word_of_int len :: u32)) w = Some out"
    using p by (auto simp: bind_Some_conv)
  obtain e m out' k where io: "one_request K (hFile (ld_os d)) (bulk_code ep) (request_of (Req_endpoint (ucast ep))) out
      (data, 0) (hEvent (tr_os y)) (wkern (os w)) = (e, m, out', k)"
    by (metis prod_cases4)
  note io' = overlapped_io_request [OF io]
  obtain w3 w4 where w3: "store_at data 0 out' (set_wkern k w) = Some w3" "usbyb_update_finished_transfer t e m w3 = Some w4"
    and w4: "call_back cb t w4 = Some w1" "r1 = err LIBUSBY_SUCCESS"
    using p out io' by (auto simp: bind_Some_conv)
  have dl: "trans w3 = trans w" "delivered data out' (bufs w) (bufs w3)" "wkern (os w3) = k"
    using store_at_delivered [OF w3(1)] by (simp_all add: set_wkern_def)
  have w4': "w4 = w3\<lparr>trans := (trans w3)(t \<mapsto> upd_pub (finished e m) y)\<rparr>"
    using w3(2) y(1) dl(1) by (auto simp: usbyb_update_finished_transfer_def upd_Some)
  have "w1 = w4" using w4(1) by (simp add: call_back_def w4' upd_pub_def y(2))
  then have "r = err LIBUSBY_SUCCESS" "w' = w4"
    using run call w4(2) by (simp_all add: libusby_perform_transfer_def usbyi_get_tran_def)
  moreover have "bulk_request K (hFile (ld_os d)) ep data len (hEvent (tr_os y)) (wkern (os w)) w
      (if e = ERROR_SUCCESS then sint m else 0) (bufs w3) k"
    unfolding bulk_request_def using out io dl(2) by blast
  ultimately show "r = err LIBUSBY_SUCCESS" "\<exists>y'. trans w' t = Some y' \<and> tr_os y' = tr_os y \<and>
    bulk_request K (hFile (ld_os d)) ep data len (hEvent (tr_os y)) (wkern (os w)) w (lt_actual_length (tr_pub y')) (bufs w') (wkern (os w'))"
    by (auto simp: w4' upd_pub_def y(2) dl(3))
qed

text \<open>
  C13: A synchronous bulk transfer on Windows waits for the device: apart from a failed allocation,
  of memory or of one of its two events, when the driver is not asked at all, its result is
  always success. The driver is asked exactly once, on the file of the device, with the
  code for the direction of the endpoint, the endpoint, the second event and the buffer of the caller, in which
  the bytes it delivers are stored; around it the system only creates and closes the two events. What is returned in
  \<open>*transferred\<close> is the number of bytes when the request succeeded; but a request that failed, the
  device being unplugged or the endpoint stalled, is success with 0 bytes as well: the status of
  the transfer is not looked at.
\<close>

theorem win_bulk_transfer:
  assumes "libusby_bulk_transfer (win_backend K sz env cb) h ep data len timeout w = Some (r, transferred, w')"
    "hnds w h = Some x" "devs w (lh_dev x) = Some d"
    "n_CreateEvent K True True (wkern (os w)) = (e1, k1)" "n_CreateEvent K True True k1 = (e2, k2)"
  shows "if r < 0 then r = err LIBUSBY_ERROR_NO_MEM \<and> transferred = None \<and> bufs w' = bufs w \<and>
      (wkern (os w') = wkern (os w) \<or> e1 = 0 \<and> wkern (os w') = k1 \<or> e1 \<noteq> 0 \<and> e2 = 0 \<and> wkern (os w') = n_CloseHandle K e1 k2)
    else r = err LIBUSBY_SUCCESS \<and> e1 \<noteq> 0 \<and> e2 \<noteq> 0 \<and>
      (\<exists>n k3. transferred = Some n \<and> bulk_request K (hFile (ld_os d)) ep data len e2 k2 w n (bufs w') k3 \<and>
         wkern (os w') = n_CloseHandle K e1 (n_CloseHandle K e2 k3))"
  using assms(1)
proof (cases rule: bulk_transfer_cases)
  case (no_mem x' d')
  then show ?thesis using win_alloc_transfer [OF no_mem(3) assms(4,5)] by simp
next
  case (run x' d' tran w1 w2 w3)
  have same: "x' = x" "d' = d" using run(1,2) assms(2,3) by simp_all
  note alloc = win_alloc_transfer [OF run(3) assms(4,5)]
  have al: "bufs w1 = bufs w" "hnds w1 = hnds w" "devs w1 = devs w" and ev: "e1 \<noteq> 0" "e2 \<noteq> 0" "wkern (os w1) = k2"
    using alloc run(4) by simp_all
  obtain t z where t: "tran = t + sz_pub_offset sz" "t \<noteq> 0" "trans w1 t = Some z" "tr_pub z = zero_transfer_pub 0"
    and z: "hCompletionEvent (tr_os z) = e1" "hEvent (tr_os z) = e2"
    using alloc run(4) by auto
  define y where "y = z\<lparr>tr_pub := bulk_pub h ep data len timeout\<rparr>"
  have w2: "w2 = w1\<lparr>trans := (trans w1)(t \<mapsto> y)\<rparr>"
    using fill_bulk_fresh [OF t(3,4), of "win_backend K sz env cb" h ep data len timeout] run(5) by (simp add: t(1) y_def)
  have y: "trans w2 t = Some y" "tr_pub y = bulk_pub h ep data len timeout" "hnds w2 h = Some x" "devs w2 (lh_dev x) = Some d"
    using al(2,3) assms(2,3) by (simp_all add: w2 y_def)
  have b: "bufs w2 = bufs w" "wkern (os w2) = k2" "hEvent (tr_os y) = e2" using al(1) ev(3) z(2) by (simp_all add: w2 y_def)
  obtain y' where p: "r = err LIBUSBY_SUCCESS" "trans w3 t = Some y'" "tr_os y' = tr_os y"
    "bulk_request K (hFile (ld_os d)) ep data len e2 k2 w2 (lt_actual_length (tr_pub y')) (bufs w3) (wkern (os w3))"
    using win_bulk_perform [OF y run(6) [unfolded t(1)]] unfolding b(2,3) by blast
  have "tr_os y = tr_os z" by (simp add: y_def)
  then have "bufs w' = bufs w3" "wkern (os w') = n_CloseHandle K e1 (n_CloseHandle K e2 (wkern (os w3)))"
    using win_free_transfer [OF run(7) [unfolded t(1)] t(2) p(2)] z p(3) by simp_all
  moreover have "transferred = Some (lt_actual_length (tr_pub y'))"
    using run(8) p(1,2) by (auto simp: pub_of_def usbyi_get_tran_def t(1))
  moreover have "bulk_request K (hFile (ld_os d)) ep data len e2 k2 w (lt_actual_length (tr_pub y')) (bufs w3) (wkern (os w3))"
    using p(4) bulk_request_cong [OF b(1)] by simp
  ultimately show ?thesis using p(1) ev(1,2) by auto
qed

lemma example_win_bulk:
  "map_option (\<lambda>(r, n, w). (r, n, bufs w 90)) (libusby_bulk_transfer win_example 3 0x81 90 4 0 win_example_world)
    = Some (0, Some 4, Some [7, 7, 7, 7])"
  by code_simp

theorem win_bulk_transfer_witness:
  "\<exists>w' k3. libusby_bulk_transfer win_example 3 0x81 90 4 0 win_example_world = Some (0, Some 4, w') \<and>
     bufs w' 90 = Some [7, 7, 7, 7] \<and>
     bulk_request win_example_kernel 9 0x81 90 4 11 (12, [11, 10, 5, 6, 7, 8, 9]) win_example_world 4 (bufs w') k3 \<and>
     wkern (os w') = drop_sys_handle 10 (drop_sys_handle 11 k3)"
proof -
  obtain w' where run: "libusby_bulk_transfer win_example 3 0x81 90 4 0 win_example_world = Some (0, Some 4, w')"
    "bufs w' 90 = Some [7, 7, 7, 7]"
    using example_win_bulk by auto
  have ex: "hnds win_example_world 3 = Some win_example_handle"
    "devs win_example_world (lh_dev win_example_handle) = Some win_example_device"
    "n_CreateEvent win_example_kernel True True (wkern (os win_example_world)) = (10, 11, [10, 5, 6, 7, 8, 9])"
    "n_CreateEvent win_example_kernel True True (11, [10, 5, 6, 7, 8, 9]) = (11, 12, [11, 10, 5, 6, 7, 8, 9])"
    by (simp_all add: win_example_defs new_sys_handle_def)
  have fl: "hFile (ld_os win_example_device) = 9" "n_CloseHandle win_example_kernel = drop_sys_handle"
    by (simp_all add: win_example_defs)
  show ?thesis using win_bulk_transfer [OF run(1) ex] run by (simp add: fl)
qed

section \<open>Control transfers\<close>

text \<open>The request made of a setup packet: its eight bytes, as they are, behind the timeout.\<close>

definition control_request :: "u8 \<Rightarrow> u8 \<Rightarrow> u16 \<Rightarrow> u16 \<Rightarrow> u16 \<Rightarrow> libusb0_win32_request" where
  "control_request rt rq v i n = request_of (Req_control rt rq v i n)"

definition control_code :: "u8 \<Rightarrow> libusb_ioctl" where
  "control_code rt = (if rt AND 0x80 \<noteq> 0 then LIBUSB_IOCTL_CONTROL_READ else LIBUSB_IOCTL_CONTROL_WRITE)"

lemma control_request_bytes:
  "request_bytes (control_request rt rq v i n) = le32_bytes default_timeout @ setup_packet rt rq v i n @ replicate 12 0"
  by (simp add: control_request_def request_bytes_def request_of_def padded_def le16_bytes_def setup_packet_def)

lemma prepare_setup:
  assumes "bufs w a = Some (setup_packet rt rq v i n @ bs)"
  shows "usbyb_prepare_transfer_submission (control_pub h a n timeout) w =
    Some (Inr (control_code rt, control_request rt rq v i n, 8, uint n))"
  using assms
  by (simp add: usbyb_prepare_transfer_submission_def setup_packet_def rd_def control_code_def control_request_def)

text \<open>The steps, with memory and events available.\<close>

lemma win_alloc_ok:
  assumes "plenty w" "0 < next_addr w"
    "n_CreateEvent K True True (wkern (os w)) = (e1, k1)" "e1 \<noteq> 0" "n_CreateEvent K True True k1 = (e2, k2)" "e2 \<noteq> 0"
  shows "libusby_alloc_transfer (win_backend K sz env cb) ctx 0 w = Some (next_addr w + sz_pub_offset sz,
    w\<lparr>next_addr := next_addr w + max 1 (transfer_alloc_size (sz_transfer sz) 0), n_mallocs := Suc (n_mallocs w),
      trans := (trans w)(next_addr w \<mapsto> (zero_transfer_of 0 \<lparr>hCompletionEvent = e1, hEvent = e2, submitted = 0\<rparr>)\<lparr>it_ctx := ctx\<rparr>),
      os := (os w)\<lparr>wkern := k2\<rparr>\<rparr>)"
  using assms
  by (simp add: libusby_alloc_transfer_def new_transfer_def malloc_def plenty_def Let_def win_init_transfer_ok [of K _ e1 k1 e2 k2]
      upd_transfer_def usbyi_get_pub_tran_def zero_transfer_of_def zero_win_transfer_def set_wkern_def)

lemma store_body:
  assumes "bufs w a = Some (p @ bs)" "length body = length bs" "off = length p"
  shows "store_at a off body w = Some (w\<lparr>bufs := (bufs w)(a \<mapsto> p @ body)\<rparr>)"
  using assms by (cases w) (auto simp: store_at_def wr_block_def fun_upd_idem)

lemma win_perform_control:
  assumes "trans w t = Some z" "tr_pub z = control_pub h a n timeout" "hnds w h = Some x" "devs w (lh_dev x) = Some d"
    "bufs w a = Some (setup_packet rt rq v i n @ bs)" "length bs = unat n"
    "overlapped_io K (hFile (ld_os d)) (control_code rt) (control_request rt rq v i n) bs (a, 8) (hEvent (tr_os z)) w
      = (e, m, body, w2)"
  shows "libusby_perform_transfer (win_backend K sz env cb) (t + sz_pub_offset sz) w = Some (err LIBUSBY_SUCCESS,
    w\<lparr>bufs := (bufs w)(a \<mapsto> setup_packet rt rq v i n @ body), os := (os w)\<lparr>wkern := wkern (os w2)\<rparr>,
      trans := (trans w)(t \<mapsto> z\<lparr>tr_pub := finished e m (control_pub h a n timeout)\<rparr>)\<rparr>)"
proof -
  have w2: "w2 = set_wkern (wkern (os w2)) w" "length body = length bs"
    using overlapped_io_kernel [OF assms(7) refl] assms(7) overlapped_io_frame(3) [OF assms(7)] by simp_all
  define u where "u = set_wkern (wkern (os w2)) w"
  have "store_at a 8 body u = Some (w\<lparr>bufs := (bufs w)(a \<mapsto> setup_packet rt rq v i n @ body), os := (os w)\<lparr>wkern := wkern (os w2)\<rparr>\<rparr>)"
    using store_body [of u a "setup_packet rt rq v i n" bs body 8] assms(5) w2(2) by (simp add: u_def set_wkern_def)
  then have "store_at a 8 body w2 = Some (w\<lparr>bufs := (bufs w)(a \<mapsto> setup_packet rt rq v i n @ body), os := (os w)\<lparr>wkern := wkern (os w2)\<rparr>\<rparr>)"
    unfolding u_def w2(1) [symmetric] .
  moreover have "bytes_at a 8 (unat (word_of_int (uint n) :: u32)) w = Some bs"
    using assms(5,6) unat_u16_u32 [of n] by (auto simp: bytes_at_def rd_block_def)
  moreover have "file_of_handle h w = Some (hFile (ld_os d))" using assms(3,4) by (simp add: file_of_handle_def)
  ultimately show ?thesis
    using assms(1,2,7) prepare_setup [OF assms(5)]
    by (simp add: libusby_perform_transfer_def usbyi_get_tran_def win_usbyb_perform_transfer_def call_back_def
        usbyb_update_finished_transfer_def upd_transfer_def upd_pub_def)
qed

lemma win_control_copy:
  assumes "pub_of be tran w = Some (finished e m (control_pub h a n timeout))" "bufs w a = Some (setup_packet rt rq v i n @ body)"
    "unat m \<le> unat n" "length body = unat n" "unat m \<le> length data"
  shows "control_result be tran a (err LIBUSBY_SUCCESS) data w = Some (if e = ERROR_SUCCESS then int (unat m) else err LIBUSBY_ERROR_IO,
    if e = ERROR_SUCCESS then take (unat m) body @ drop (unat m) data else data)"
proof (cases "e = ERROR_SUCCESS")
  case True
  have m: "unat m < 2 ^ 16" using unat_u16_less [of n] assms(3) by simp
  then have s8: "sint (m + 8) = int (unat m) + 8" by (simp add: sint_small unat_word_ariths(1))
  have "rd_block (setup_packet rt rq v i n @ body) 8 (unat m) = Some (take (unat m) body)"
    "wr_block data 0 (take (unat m) body) = Some (take (unat m) body @ drop (unat m) data)"
    using assms by (simp_all add: rd_block_def wr_block_def min_absorb2)
  then show ?thesis using True assms(1,2) s8 by (simp add: control_result_def c_assert_def)
next
  case False
  then show ?thesis using assms(1) by (simp add: control_result_def)
qed

text \<open>
  C9: A control transfer on Windows, completely: with memory and events available, the driver
  is asked once, on the file of the device, with the code for the direction, for the setup packet
  of the caller as it is , and with the uninitialized rest of the buffer as its data. A
  request that fails is an I/O error and leaves the memory of the caller alone; otherwise the
  bytes delivered are at the start of that memory and their number is the result. Buffer and
  transfer are freed and both events closed.
\<close>

theorem win_control_transfer:
  assumes "hnds w h = Some x" "devs w (lh_dev x) = Some d" "plenty w" "0 < next_addr w"
    "\<forall>a \<ge> next_addr w. bufs w a = None \<and> trans w a = None"
    "n_CreateEvent K True True (wkern (os w)) = (e1, k1)" "e1 \<noteq> 0" "n_CreateEvent K True True k1 = (e2, k2)" "e2 \<noteq> 0"
    "overlapped_io K (hFile (ld_os d)) (control_code rt) (control_request rt rq v i n)
       (map (junk w (Suc (n_mallocs w))) [8..<8 + unat n])
       (next_addr w + max 1 (transfer_alloc_size (sz_transfer sz) 0), 8) e2 (set_wkern k2 w) = (e, m, body, w2)"
    "unat m \<le> unat n" "unat m \<le> length data"
  shows "\<exists>w'. libusby_control_transfer (win_backend K sz env cb) h rt rq v i data n timeout w =
      Some (if e = ERROR_SUCCESS then int (unat m) else err LIBUSBY_ERROR_IO,
        if e = ERROR_SUCCESS then take (unat m) body @ drop (unat m) data else data, w') \<and>
    wkern (os w') = n_CloseHandle K e1 (n_CloseHandle K e2 (wkern (os w2))) \<and>
    bufs w' = bufs w \<and> trans w' = trans w \<and> devs w' = devs w \<and> hnds w' = hnds w"
proof -
  let ?be = "win_backend K sz env cb" and ?off = "sz_pub_offset sz" and ?t = "next_addr w" and ?p = "control_pub h"
  let ?stp = "setup_packet rt rq v i n" and ?junk = "map (junk w (Suc (n_mallocs w))) [8..<8 + unat n]"
  let ?z = "(zero_transfer_of 0 \<lparr>hCompletionEvent = e1, hEvent = e2, submitted = 0\<rparr>)\<lparr>it_ctx := ld_ctx d\<rparr>"
  define a where "a = ?t + max 1 (transfer_alloc_size (sz_transfer sz) 0)"
  define u1 where "u1 = w\<lparr>next_addr := a, n_mallocs := Suc (n_mallocs w), trans := (trans w)(?t \<mapsto> ?z), os := (os w)\<lparr>wkern := k2\<rparr>\<rparr>"
  define u3 where "u3 = control_ready ?t ?z (?p a n timeout) ?stp (unat n) u1"
  define u4 where "u4 = u3\<lparr>bufs := (bufs w)(a \<mapsto> ?stp @ body), os := (os w)\<lparr>wkern := wkern (os w2)\<rparr>,
    trans := (trans w)(?t \<mapsto> ?z\<lparr>tr_pub := finished e m (?p a n timeout)\<rparr>)\<rparr>"
  define u5 where "u5 = u4\<lparr>bufs := bufs w, trans := trans w,
    os := (os w)\<lparr>wkern := n_CloseHandle K e1 (n_CloseHandle K e2 (wkern (os w2)))\<rparr>\<rparr>"
  note u_defs = u5_def u4_def u3_def control_ready_def u1_def set_wkern_def
  have a: "a \<noteq> 0" "?t + ?off \<noteq> 0" "?t \<noteq> 0" using assms(4) by (auto simp: a_def)
  have fresh: "(bufs w)(a := None) = bufs w" "(trans w)(?t := None) = trans w"
    using assms(5) by (auto simp: fun_eq_iff a_def)
  have al: "libusby_alloc_transfer ?be (ld_ctx d) 0 w = Some (?t + usbyb_transfer_pub_offset ?be, u1)"
    by (simp add: win_alloc_ok [OF assms(3,4,6-9)] u1_def a_def)
  have u1: "next_addr u1 = a" "trans u1 ?t = Some ?z" "tr_pub ?z = zero_transfer_pub 0" "plenty u1" "0 < next_addr u1"
    using a(1) assms(3) by (simp_all add: u1_def zero_transfer_of_def plenty_def)
  have "overlapped_io K (hFile (ld_os d)) (control_code rt) (control_request rt rq v i n) ?junk (a, 8) e2 u3
      = (e, m, body, set_wkern (wkern (os w2)) u3)"
    by (rule overlapped_io_kernel [OF assms(10) [folded a_def]]) (simp add: u_defs)
  then have "libusby_perform_transfer ?be (?t + ?off) u3 = Some (err LIBUSBY_SUCCESS, u4)"
    using win_perform_control [of u3 ?t "?z\<lparr>tr_pub := ?p a n timeout\<rparr>" h a n timeout x d rt rq v i
        ?junk K e m body "set_wkern (wkern (os w2)) u3" sz env cb] assms(1,2)
    by (simp add: u_defs)
  moreover have "pub_of ?be (?t + ?off) u4 = Some (finished e m (?p a n timeout))" "bufs u4 a = Some (?stp @ body)"
    by (simp_all add: pub_of_def usbyi_get_tran_def u4_def)
  then have "control_result ?be (?t + ?off) a (err LIBUSBY_SUCCESS) data u4 = Some (if e = ERROR_SUCCESS then int (unat m) else err LIBUSBY_ERROR_IO,
      if e = ERROR_SUCCESS then take (unat m) body @ drop (unat m) data else data)"
    using assms(11,12) overlapped_io_frame(3) [OF assms(10)] by (intro win_control_copy) simp_all
  moreover have "free_buf a u4 = Some (u4\<lparr>bufs := bufs w\<rparr>)"
    using a(1) fresh(1) by (simp add: free_buf_def free_block_def u4_def)
  moreover have "libusby_free_transfer ?be (?t + ?off) (u4\<lparr>bufs := bufs w\<rparr>) = Some u5"
    using a(3) fresh(2)
    by (simp add: libusby_free_transfer_def usbyi_get_tran_def win_usbyb_clear_transfer_def free_transfer_def
        free_block_def win_do_def set_wkern_def u4_def u5_def)
  ultimately have "libusby_control_transfer ?be h rt rq v i data n timeout w = Some (if e = ERROR_SUCCESS then int (unat m) else err LIBUSBY_ERROR_IO,
      if e = ERROR_SUCCESS then take (unat m) body @ drop (unat m) data else data, u5)"
    using control_transfer_ready [OF assms(1,2) al a(3) u1(2-5)] by (simp add: u1(1) u3_def)
  then show ?thesis by (simp add: u_defs)
qed

theorem win_control_transfer_witness:
  "\<exists>w'. libusby_control_transfer win_example 3 0x80 6 0x100 0 [0, 0, 0] 2 0 win_example_world = Some (2, [7, 7, 0], w') \<and>
     bufs w' = bufs win_example_world \<and> wkern (os w') = (12, [5, 6, 7, 8, 9])"
proof -
  let ?w2 = "set_wkern (12, [11, 10, 5, 6, 7, 8, 9]) win_example_world"
  have ex: "hnds win_example_world 3 = Some win_example_handle"
    "devs win_example_world (lh_dev win_example_handle) = Some win_example_device"
    "plenty win_example_world" "0 < next_addr win_example_world"
    "\<forall>a \<ge> next_addr win_example_world. bufs win_example_world a = None \<and> trans win_example_world a = None"
    "n_CreateEvent win_example_kernel True True (wkern (os win_example_world)) = (10, 11, [10, 5, 6, 7, 8, 9])" "(10 :: int) \<noteq> 0"
    "n_CreateEvent win_example_kernel True True (11, [10, 5, 6, 7, 8, 9]) = (11, 12, [11, 10, 5, 6, 7, 8, 9])" "(11 :: int) \<noteq> 0"
    by (simp_all add: win_example_defs plenty_def new_sys_handle_def)
  have two: "replicate 2 (7 :: u8) = [7, 7]" by code_simp
  have "overlapped_io win_example_kernel (hFile (ld_os win_example_device)) (control_code 0x80) (control_request 0x80 6 0x100 0 2)
       (map (junk win_example_world (Suc (n_mallocs win_example_world))) [8..<8 + unat (2 :: u16)])
       (next_addr win_example_world + max 1 (transfer_alloc_size (sz_transfer win_sizes) 0), 8) 11
       (set_wkern (12, [11, 10, 5, 6, 7, 8, 9]) win_example_world) = (0, 2, [7, 7], ?w2)"
    by (simp add: win_example_defs overlapped_io_def win_call_def full_io_def overlay_def set_wkern_def two)
  from win_control_transfer [OF ex this, of "[0, 0, 0]" Some "\<lambda>_ _. Some" 0]
  show ?thesis by (auto simp: set_wkern_def win_example_kernel_def drop_sys_handle_def)
qed

end
