(* ===== verification/Wrapper.thy ===== *)
theory Wrapper
  imports Client "HOL-Library.Multiset"
begin

text \<open>
  The C++ classes around the library (\<^verbatim>\<open>src/libusby.hpp\<close>). An object is the
  pointer it holds, \<open>m_dev\<close>, \<open>m_handle\<close> or \<open>m_ctx\<close>; a method takes and
  returns it with the world. A destructor is the call of \<open>clear\<close>. The objects of a
  program are a step relation that every back end with the contract of references keeps exact.
\<close>

section \<open>Exceptions\<close>

datatype cpp_exception = Libusby_error (error_code: int) | Bad_alloc

definition error_check :: "int \<Rightarrow> cpp_exception option" where
  "error_check r = (if r < 0 then Some (Libusby_error r) else None)"

section \<open>\<open>class device\<close>\<close>

definition device_clear :: "('c, 'd, 'h, 't, 'k) backend \<Rightarrow> addr \<Rightarrow> ('c, 'd, 'h, 't, 'k) world
    \<Rightarrow> (addr \<times> ('c, 'd, 'h, 't, 'k) world) option" where
  "device_clear be m w =
     (if m \<noteq> 0 then do { w \<leftarrow> libusby_unref_device (usbyb_finalize_device be) m w; Some (0, w) } else Some (m, w))"

definition device_copy :: "addr \<Rightarrow> ('c, 'd, 'h, 't, 'k) world \<Rightarrow> (addr \<times> ('c, 'd, 'h, 't, 'k) world) option" where
  "device_copy m w = (if m \<noteq> 0 then do { w \<leftarrow> libusby_ref_device m w; Some (m, w) } else Some (m, w))"

definition device_swap :: "addr \<Rightarrow> addr \<Rightarrow> addr \<times> addr" where
  "device_swap this other = (other, this)"

text \<open>The parameter is a copy of the right hand side, which is destroyed at the end.\<close>

definition device_assign :: "('c, 'd, 'h, 't, 'k) backend \<Rightarrow> addr \<Rightarrow> addr \<Rightarrow> ('c, 'd, 'h, 't, 'k) world
    \<Rightarrow> (addr \<times> ('c, 'd, 'h, 't, 'k) world) option" where
  "device_assign be this rhs w = do {
     (other, w) \<leftarrow> device_copy rhs w;
     let (this, other) = device_swap this other;
     (_, w) \<leftarrow> device_clear be other w;
     Some (this, w) }"

definition device_ref :: "addr \<Rightarrow> ('c, 'd, 'h, 't, 'k) world \<Rightarrow> (addr \<times> ('c, 'd, 'h, 't, 'k) world) option" where
  "device_ref dev w = do { c_assert (dev \<noteq> 0); w \<leftarrow> libusby_ref_device dev w; Some (dev, w) }"

definition device_take_ownership :: "addr \<Rightarrow> addr option" where
  "device_take_ownership dev = do { c_assert (dev \<noteq> 0); Some dev }"

section \<open>\<open>class device_handle\<close>\<close>

definition handle_clear :: "('c, 'd, 'h, 't, 'k) backend \<Rightarrow> addr \<Rightarrow> ('c, 'd, 'h, 't, 'k) world
    \<Rightarrow> (addr \<times> ('c, 'd, 'h, 't, 'k) world) option" where
  "handle_clear be m w = (if m \<noteq> 0 then do { w \<leftarrow> libusby_close be m w; Some (0, w) } else Some (m, w))"

definition handle_try_open :: "('c, 'd, 'h, 't, 'k) backend \<Rightarrow> addr \<Rightarrow> addr \<Rightarrow> ('c, 'd, 'h, 't, 'k) world
    \<Rightarrow> (int \<times> addr \<times> ('c, 'd, 'h, 't, 'k) world) option" where
  "handle_try_open be m dev w = do {
     (r, handle, w) \<leftarrow> libusby_open be dev w;
     if r < 0 then Some (r, m, w) else do {
     handle \<leftarrow> handle;
     (_, w) \<leftarrow> handle_clear be m w;
     Some (0, handle, w) } }"

definition handle_open :: "('c, 'd, 'h, 't, 'k) backend \<Rightarrow> addr \<Rightarrow> addr \<Rightarrow> ('c, 'd, 'h, 't, 'k) world
    \<Rightarrow> (cpp_exception option \<times> addr \<times> ('c, 'd, 'h, 't, 'k) world) option" where
  "handle_open be m dev w = do { (r, m, w) \<leftarrow> handle_try_open be m dev w; Some (error_check r, m, w) }"

text \<open>The class declares no copy constructor: a copy has the same pointer.\<close>

definition handle_copy :: "addr \<Rightarrow> addr" where
  "handle_copy m = m"

definition handle_get_string_desc_utf8 :: "('c, 'd, 'h, 't, 'k) backend \<Rightarrow> addr \<Rightarrow> u8 \<Rightarrow> u16 \<Rightarrow> ('c, 'd, 'h, 't, 'k) world
    \<Rightarrow> ((cpp_exception + u8 list) \<times> ('c, 'd, 'h, 't, 'k) world) option" where
  "handle_get_string_desc_utf8 be m desc_index langid w = do {
     (r, buf, w) \<leftarrow> libusby_get_string_descriptor_utf8 be m desc_index langid (stack_bytes 256 w) 256 w;
     case error_check r of Some e \<Rightarrow> Some (Inl e, w)
     | None \<Rightarrow> do { s \<leftarrow> rd_block buf 0 (nat r); Some (Inr s, w) } }"

section \<open>\<open>class context\<close>\<close>

definition context_clear :: "('c, 'd, 'h, 't, 'k) backend \<Rightarrow> addr \<Rightarrow> ('c, 'd, 'h, 't, 'k) world
    \<Rightarrow> (addr \<times> ('c, 'd, 'h, 't, 'k) world) option" where
  "context_clear be m w = (if m \<noteq> 0 then do { w \<leftarrow> libusby_exit be m w; Some (m, w) } else Some (m, w))"

definition context_create :: "('c, 'd, 'h, 't, 'k) backend \<Rightarrow> addr \<Rightarrow> ('c, 'd, 'h, 't, 'k) world
    \<Rightarrow> (cpp_exception option \<times> addr \<times> ('c, 'd, 'h, 't, 'k) world) option" where
  "context_create be m w = do {
     (r, new_ctx, w) \<leftarrow> libusby_init be w;
     case error_check r of Some e \<Rightarrow> Some (Some e, m, w)
     | None \<Rightarrow> do {
       new_ctx \<leftarrow> new_ctx;
       (_, w) \<leftarrow> context_clear be m w;
       Some (None, new_ctx, w) } }"

definition context_run_event_loop :: "('c, 'd, 'h, 't, 'k) backend \<Rightarrow> addr \<Rightarrow> ('c, 'd, 'h, 't, 'k) world
    \<Rightarrow> ('c, 'd, 'h, 't, 'k) world option" where
  "context_run_event_loop be m w = do { (_, w) \<leftarrow> libusby_run_event_loop be m w; Some w }"

definition context_stop_event_loop :: "('c, 'd, 'h, 't, 'k) backend \<Rightarrow> addr \<Rightarrow> ('c, 'd, 'h, 't, 'k) world
    \<Rightarrow> ('c, 'd, 'h, 't, 'k) world option" where
  "context_stop_event_loop be m w = libusby_stop_event_loop be m w"

text \<open>\<open>push_back\<close> copies the object made by \<open>device::ref\<close>, which is then destroyed.\<close>

fun push_refs :: "('c, 'd, 'h, 't, 'k) backend \<Rightarrow> addr \<Rightarrow> nat list \<Rightarrow> addr list \<Rightarrow> ('c, 'd, 'h, 't, 'k) world
    \<Rightarrow> (addr list \<times> ('c, 'd, 'h, 't, 'k) world) option" where
  "push_refs be list [] res w = Some (res, w)"
| "push_refs be list (i # is) res w = do {
     cells \<leftarrow> dlists w list;
     cell \<leftarrow> rd cells i;
     dev \<leftarrow> cell;
     (tmp, w) \<leftarrow> device_ref dev w;
     (m, w) \<leftarrow> device_copy tmp w;
     (_, w) \<leftarrow> device_clear be tmp w;
     push_refs be list is (res @ [m]) w }"

text \<open>\<open>reserve\<close> of the vector: whether the memory is there. No memory is needed for no elements.\<close>

definition vector_reserve :: "int \<Rightarrow> ('c, 'd, 'h, 't, 'k) world \<Rightarrow> bool \<times> ('c, 'd, 'h, 't, 'k) world" where
  "vector_reserve n w = (if n = 0 then (True, w) else case malloc (nat (8 * n)) w of (p, w) \<Rightarrow> (p \<noteq> 0, w))"

text \<open>The guard frees the list with its references on the way out, by \<open>return\<close> or by an exception.\<close>

definition context_get_device_list :: "('c, 'd, 'h, 't, 'k) backend \<Rightarrow> addr \<Rightarrow> ('c, 'd, 'h, 't, 'k) world
    \<Rightarrow> ((cpp_exception + addr list) \<times> ('c, 'd, 'h, 't, 'k) world) option" where
  "context_get_device_list be m w = do {
     (r, list, w) \<leftarrow> libusby_get_device_list be m w;
     case error_check r of Some e \<Rightarrow> Some (Inl e, w)
     | None \<Rightarrow> do {
       list \<leftarrow> list;
       let (ok, w) = vector_reserve r w;
       (res, w) \<leftarrow> (if ok then push_refs be list [0..<nat r] [] w else Some ([], w));
       w \<leftarrow> libusby_free_device_list (usbyb_finalize_device be) list True w;
       Some (if ok then Inr res else Inl Bad_alloc, w) } }"

section \<open>Objects and references\<close>

text \<open>
  The references of a program: \<open>own d\<close> kept as plain pointers, and one for each object in
  \<open>ds\<close>, the pointers of its \<open>device\<close> objects, that is not empty.
\<close>

definition obj_refs :: "(addr \<Rightarrow> nat) \<Rightarrow> addr multiset \<Rightarrow> addr \<Rightarrow> nat" where
  "obj_refs own ds d = own d + (if d = 0 then 0 else count ds d)"

lemma obj_refs_add: "obj_refs own (add_mset m ds) = (if m = 0 then obj_refs own ds else (obj_refs own ds)(m := Suc (obj_refs own ds m)))"
  by (auto simp: obj_refs_def fun_eq_iff)

lemma obj_refs_empty: "obj_refs own {#} = own"
  by (simp add: obj_refs_def fun_eq_iff)

lemma device_copy_refs:
  assumes "device_copy m w = Some (m', w')" "refs_ok (obj_refs own ds) w"
  shows "m' = m" "refs_ok (obj_refs own (add_mset m ds)) w'" "targets w' = targets w" "dlists w' = dlists w"
  using assms ref_device_counts [of m w w'] ref_device_refs_ok [OF assms(2), of m w']
  by (auto simp: device_copy_def obj_refs_add bind_Some_conv split: if_splits)

lemma device_ref_copy: "device_ref m w = Some (m', w') \<Longrightarrow> m \<noteq> 0 \<and> device_copy m w = Some (m', w')"
  by (auto simp: device_ref_def device_copy_def bind_Some_conv c_assert_Some)

text \<open>The open handles of a program are those of its \<open>device_handle\<close> objects, each of one object.\<close>

definition handles_ok :: "addr multiset \<Rightarrow> ('c, 'd, 'h, 't, 'k) world \<Rightarrow> bool" where
  "handles_ok hs w \<longleftrightarrow> (\<forall>h. h \<noteq> 0 \<longrightarrow> count hs h = (if h \<in> dom (targets w) then 1 else 0))"

lemma handles_ok_cong: "targets w' = targets w \<Longrightarrow> handles_ok hs w' = handles_ok hs w"
  by (simp add: handles_ok_def)

lemma handles_ok_insert:
  assumes "handles_ok hs w" "a \<notin> dom (targets w)" "targets w' = (targets w)(a \<mapsto> dev)"
  shows "handles_ok (add_mset a hs) w'"
  unfolding handles_ok_def
proof (intro allI impI)
  fix h :: nat
  assume "h \<noteq> 0"
  then have "count hs h = (if h \<in> dom (targets w) then 1 else 0)" using assms(1) by (simp add: handles_ok_def)
  then show "count (add_mset a hs) h = (if h \<in> dom (targets w') then 1 else 0)"
    using assms(2,3) by (cases "h = a") (simp_all add: domIff)
qed

lemma handles_ok_remove:
  assumes "handles_ok (add_mset m hs) w" "m \<noteq> 0" "targets w' = (targets w)(m := None)"
  shows "handles_ok hs w'"
  unfolding handles_ok_def
proof (intro allI impI)
  fix h :: nat
  assume "h \<noteq> 0"
  then have "count (add_mset m hs) h = (if h \<in> dom (targets w) then 1 else 0)" using assms(1) by (simp add: handles_ok_def)
  then show "count hs h = (if h \<in> dom (targets w') then 1 else 0)"
    using assms(2,3) by (cases "h = m") (auto split: if_splits)
qed

lemma vector_reserve_keeps: "vector_reserve n w = (b, w') \<Longrightarrow> keeps_refs w w'"
  using malloc_keeps_refs [of w "nat (8 * n)"] by (auto simp: vector_reserve_def split: if_splits prod.splits)

section \<open>Programs\<close>

text \<open>
  A state is the references kept as plain pointers, the pointers of the \<open>device\<close> and of
  the \<open>device_handle\<close> objects, and the world. A destroyed object is cleared and gone; an
  object whose constructor throws is never there. Copying of handles is left out: see below.
\<close>

type_synonym ('c, 'd, 'h, 't, 'k) program =
  "(addr \<Rightarrow> nat) \<times> addr multiset \<times> addr multiset \<times> ('c, 'd, 'h, 't, 'k) world"

inductive wrapper_step :: "('c, 'd, 'h, 't, 'k) backend \<Rightarrow> ('c, 'd, 'h, 't, 'k) program
    \<Rightarrow> ('c, 'd, 'h, 't, 'k) program \<Rightarrow> bool"
  for be where
  new_device: "wrapper_step be (own, ds, hs, w) (own, add_mset 0 ds, hs, w)"
| copy_device: "wrapper_step be (own, ds, hs, w) (own, add_mset m' ds, hs, w')"
    if "m \<in># ds" "device_copy m w = Some (m', w')"
| assign_device: "wrapper_step be (own, add_mset m ds, hs, w) (own, add_mset m' ds, hs, w')"
    if "rhs \<in># add_mset m ds" "device_assign be m rhs w = Some (m', w')"
| swap_devices: "wrapper_step be (own, add_mset a (add_mset b ds), hs, w) (own, add_mset a' (add_mset b' ds), hs, w)"
    if "device_swap a b = (a', b')"
| clear_device: "wrapper_step be (own, add_mset m ds, hs, w) (own, add_mset m' ds, hs, w')"
    if "device_clear be m w = Some (m', w')"
| destroy_device: "wrapper_step be (own, add_mset m ds, hs, w) (own, ds, hs, w')"
    if "device_clear be m w = Some (m', w')"
| ref_pointer: "wrapper_step be (own, ds, hs, w) (own, add_mset m ds, hs, w')"
    if "device_ref p w = Some (m, w')"
| take_pointer: "wrapper_step be (own, ds, hs, w) (own(p := own p - 1), add_mset m ds, hs, w)"
    if "0 < own p" "device_take_ownership p = Some m"
| list_devices: "wrapper_step be (own, ds, hs, w) (own, (case res of Inl e \<Rightarrow> {#} | Inr xs \<Rightarrow> mset xs) + ds, hs, w')"
    if "context_get_device_list be c w = Some (res, w')"
| new_handle: "wrapper_step be (own, ds, hs, w) (own, ds, add_mset 0 hs, w)"
| construct_handle: "wrapper_step be (own, ds, hs, w) (own, ds, (if e = None then {#m#} else {#}) + hs, w')"
    if "handle_open be 0 dev w = Some (e, m, w')"
| open_handle: "wrapper_step be (own, ds, add_mset m hs, w) (own, ds, add_mset m' hs, w')"
    if "handle_open be m dev w = Some (e, m', w')"
| clear_handle: "wrapper_step be (own, ds, add_mset m hs, w) (own, ds, add_mset m' hs, w')"
    if "handle_clear be m w = Some (m', w')"
| destroy_handle: "wrapper_step be (own, ds, add_mset m hs, w) (own, ds, hs, w')"
    if "handle_clear be m w = Some (m', w')"
| read_string: "wrapper_step be (own, ds, hs, w) (own, ds, hs, w')"
    if "m \<in># hs" "handle_get_string_desc_utf8 be m ix lang w = Some (s, w')"

definition wrapper_run :: "('c, 'd, 'h, 't, 'k) backend \<Rightarrow> ('c, 'd, 'h, 't, 'k) program
    \<Rightarrow> ('c, 'd, 'h, 't, 'k) program \<Rightarrow> bool" where
  "wrapper_run be = (wrapper_step be)\<^sup>*\<^sup>*"

text \<open>References and handles are exactly those of the objects.\<close>

definition program_ok :: "('c, 'd, 'h, 't, 'k) program \<Rightarrow> bool" where
  "program_ok s = (case s of (own, ds, hs, w) \<Rightarrow> refs_ok (obj_refs own ds) w \<and> handles_ok hs w)"

context os_contract
begin

lemma device_clear_refs:
  assumes "device_clear be m w = Some (m', w')" "refs_ok (obj_refs own (add_mset m ds)) w"
  shows "m' = 0" "refs_ok (obj_refs own ds) w'" "targets w' = targets w" "dlists w' = dlists w"
proof -
  let ?own = "obj_refs own (add_mset m ds)"
  have "refs_ok (obj_refs own ds) w' \<and> targets w' = targets w \<and> dlists w' = dlists w \<and> m' = 0"
  proof (cases "m = 0")
    case True
    then show ?thesis using assms by (simp add: device_clear_def obj_refs_add)
  next
    case False
    then have un: "libusby_unref_device (usbyb_finalize_device be) m w = Some w'" and m': "m' = 0"
      using assms(1) by (auto simp: device_clear_def bind_Some_conv)
    have "?own(m := ?own m - 1) = obj_refs own ds" using False by (auto simp: obj_refs_def fun_eq_iff)
    moreover have "0 < ?own m" using False by (simp add: obj_refs_def)
    ultimately have "refs_ok (obj_refs own ds) w'" using fin.client_unref_refs_ok [OF assms(2) _ un] by simp
    then show ?thesis using fin.unref_counts [OF un refs_ok_null(2) [OF assms(2)]] m' by auto
  qed
  then show "m' = 0" "refs_ok (obj_refs own ds) w'" "targets w' = targets w" "dlists w' = dlists w" by auto
qed

lemma push_refs_outcome:
  assumes "push_refs be l is res w = Some (res', w')" "refs_ok (obj_refs own (mset res + ds)) w"
    "dlists w l = Some (map Some xs @ rest)" "set is \<subseteq> {..<length xs}" "0 \<notin> set xs"
  shows "res' = res @ map ((!) xs) is \<and> refs_ok (obj_refs own (mset res' + ds)) w' \<and> targets w' = targets w \<and>
    dlists w' = dlists w"
  using assms
proof (induction "is" arbitrary: res w)
  case Nil
  then show ?case by simp
next
  case (Cons i js)
  let ?x = "xs ! i"
  have i: "rd (map Some xs @ rest) i = Some (Some ?x)" using Cons.prems(4) by (simp add: rd_def nth_append)
  have x0: "?x \<noteq> 0" using Cons.prems(4,5) by (metis insert_subset lessThan_iff list.simps(15) nth_mem)
  obtain t w1 where t: "device_ref ?x w = Some (t, w1)"
    using Cons.prems(1,3) i by (auto simp: bind_Some_conv)
  obtain m w2 where m: "device_copy t w1 = Some (m, w2)"
    using Cons.prems(1,3) i t by (auto simp: bind_Some_conv)
  obtain z w3 where z: "device_clear be t w2 = Some (z, w3)"
    and rest: "push_refs be l js (res @ [m]) w3 = Some (res', w')"
    using Cons.prems(1,3) i t m by (auto simp: bind_Some_conv)
  note c1 = device_copy_refs [OF conjunct2 [OF device_ref_copy [OF t]] Cons.prems(2)]
  note c2 = device_copy_refs [OF m [unfolded c1(1)] c1(2)]
  note c3 = device_clear_refs [OF z [unfolded c1(1)] c2(2)]
  have ok3: "refs_ok (obj_refs own (mset (res @ [m]) + ds)) w3" using c3(2) c2(1) c1(1) by simp
  have ih: "res' = (res @ [m]) @ map ((!) xs) js \<and> refs_ok (obj_refs own (mset res' + ds)) w' \<and> targets w' = targets w3 \<and>
    dlists w' = dlists w3"
    by (rule Cons.IH [OF rest ok3]) (use Cons.prems(3-5) c1(4) c2(4) c3(4) in simp_all)
  have "res' = res @ map ((!) xs) (i # js)" using conjunct1 [OF ih] c1(1) c2(1) by simp
  moreover have "targets w' = targets w \<and> dlists w' = dlists w" using conjunct2 [OF ih] c1(3,4) c2(3,4) c3(3,4) by simp
  ultimately show ?case using ih by blast
qed

text \<open>What \<open>get_device_list\<close> leaves: one object for each device, or nothing.\<close>

lemma context_list_refs:
  assumes run: "context_get_device_list be m w = Some (res, w')" and ok: "refs_ok (obj_refs own ds) w"
  shows "targets w' = targets w \<and> (case res of Inl e \<Rightarrow> refs_ok (obj_refs own ds) w'
    | Inr xs \<Rightarrow> 0 \<notin> set xs \<and> refs_ok (obj_refs own (mset xs + ds)) w')"
proof -
  obtain r l w1 where l: "libusby_get_device_list be m w = Some (r, l, w1)"
    using run by (auto simp: context_get_device_list_def bind_Some_conv)
  note out = list_refs [OF l [unfolded libusby_get_device_list_def] ok]
  show ?thesis
  proof (cases "r < 0")
    case True
    then show ?thesis using run l out by (auto simp: context_get_device_list_def error_check_def)
  next
    case False
    then obtain xs p where xs: "l = Some p" "list_at w1 p xs" "0 \<notin> set xs" "length xs = nat r"
      and ok1: "refs_ok (\<lambda>d. obj_refs own ds d + count_list xs d) w1" and t1: "targets w1 = targets w"
      using out by auto
    obtain ok2 w2 where w2: "vector_reserve r w1 = (ok2, w2)" by force
    obtain ys w3 where w3: "(if ok2 then push_refs be p [0..<nat r] [] w2 else Some ([], w2)) = Some (ys, w3)"
      and w4: "libusby_free_device_list (usbyb_finalize_device be) p True w3 = Some w'"
      and res: "res = (if ok2 then Inr ys else Inl Bad_alloc)"
      using run l False xs(1) w2 by (auto simp: context_get_device_list_def error_check_def bind_Some_conv)
    define own2 where "own2 = (\<lambda>d. own d + count_list xs d)"
    have split: "obj_refs own2 es = (\<lambda>d. obj_refs own es d + count_list xs d)" for es
      by (simp add: obj_refs_def own2_def fun_eq_iff)
    have k2: "keeps_refs w1 w2" using vector_reserve_keeps [OF w2] .
    then have ok2': "refs_ok (obj_refs own2 ({#} + ds)) w2" and d2: "dlists w2 = dlists w1" and t2: "targets w2 = targets w"
      using refs_ok_keeps [OF k2 ok1] t1 by (simp_all add: split keeps_refs_def)
    have pushed: "refs_ok (obj_refs own2 (mset ys + ds)) w3 \<and> targets w3 = targets w \<and> dlists w3 = dlists w1 \<and> (ok2 \<longrightarrow> ys = xs)"
    proof (cases "ok2 \<and> xs \<noteq> []")
      case True
      then obtain rest where l2: "dlists w2 p = Some (map Some xs @ rest)" using xs(2) d2 by (auto simp: list_at_def)
      have "push_refs be p [0..<length xs] [] w2 = Some (ys, w3)" using True w3 xs(4) by simp
      from push_refs_outcome [OF this _ l2, of own2 ds] show ?thesis
        using ok2' t2 d2 xs(3) by (auto simp: map_nth lessThan_atLeast0)
    next
      case False
      then show ?thesis using w3 ok2' t2 d2 xs(4) by (auto split: if_splits)
    qed
    have "list_at w3 p xs" using xs(2) pushed by (simp add: list_at_def)
    then have "refs_ok (obj_refs own (mset ys + ds)) w' \<and> targets w' = targets w3"
      using fin.free_device_list_outcome [OF _ xs(3) _ w4, of "obj_refs own (mset ys + ds)"] pushed
      by (simp add: split list_at_def)
    moreover have "\<not> ok2 \<Longrightarrow> ys = []" using w3 by simp
    ultimately show ?thesis using pushed xs(3) by (auto simp: res)
  qed
qed

lemma device_assign_refs:
  assumes "device_assign be m rhs w = Some (m', w')" "refs_ok (obj_refs own (add_mset m ds)) w"
  shows "refs_ok (obj_refs own (add_mset m' ds)) w'" "targets w' = targets w"
proof -
  obtain t w1 where t: "device_copy rhs w = Some (t, w1)"
    using assms(1) by (auto simp: device_assign_def bind_Some_conv)
  obtain z where z: "device_clear be m w1 = Some (z, w')" "m' = t"
    using assms(1) t by (auto simp: device_assign_def device_swap_def bind_Some_conv)
  note c1 = device_copy_refs [OF t assms(2)]
  have "refs_ok (obj_refs own (add_mset m (add_mset rhs ds))) w1" using c1(2) by (simp add: add_mset_commute)
  note c2 = device_clear_refs [OF z(1) this]
  show "refs_ok (obj_refs own (add_mset m' ds)) w'" "targets w' = targets w"
    using c1(1,3) c2(2,3) z(2) by simp_all
qed

lemma handle_clear_refs:
  assumes "handle_clear be m w = Some (m', w')" "refs_ok own w" "handles_ok (add_mset m hs) w"
  shows "m' = 0" "refs_ok own w'" "handles_ok hs w'"
proof -
  have "m' = 0 \<and> refs_ok own w' \<and> handles_ok hs w'"
  proof (cases "m = 0")
    case True
    then show ?thesis using assms by (auto simp: handle_clear_def handles_ok_def)
  next
    case False
    then have "libusby_close be m w = Some w'" "m' = 0" using assms(1) by (auto simp: handle_clear_def bind_Some_conv)
    moreover from this(1) have "refs_ok own w'" "targets w' = (targets w)(m := None)" using close_outcome [OF assms(2)] by auto
    moreover from this(2) have "handles_ok hs w'" by (rule handles_ok_remove [OF assms(3) False])
    ultimately show ?thesis by simp
  qed
  then show "m' = 0" "refs_ok own w'" "handles_ok hs w'" by auto
qed

lemma handle_open_refs:
  assumes "handle_open be m dev w = Some (e, m', w')" "refs_ok own w" "handles_ok (add_mset m hs) w"
  shows "refs_ok own w'" "handles_ok (add_mset m' hs) w'" "e \<noteq> None \<Longrightarrow> m' = m"
proof -
  obtain r h w1 where r: "libusby_open be dev w = Some (r, h, w1)"
    using assms(1) by (auto simp: handle_open_def handle_try_open_def bind_Some_conv)
  note out = open_outcome [OF assms(2) r]
  have "refs_ok own w' \<and> handles_ok (add_mset m' hs) w' \<and> (e \<noteq> None \<longrightarrow> m' = m)"
  proof (cases "r < 0")
    case True
    then show ?thesis
      using assms(1,3) r out by (auto simp: handle_open_def handle_try_open_def handles_ok_def)
  next
    case False
    then obtain a where a: "h = Some a" "a \<noteq> 0" "a \<notin> dom (targets w)" "targets w1 = (targets w)(a \<mapsto> dev)"
      using out by auto
    obtain z where z: "handle_clear be m w1 = Some (z, w')" "m' = a" "e = None"
      using assms(1) r False a(1) by (auto simp: handle_open_def handle_try_open_def error_check_def bind_Some_conv)
    have "handles_ok (add_mset m (add_mset a hs)) w1"
      using handles_ok_insert [OF assms(3) a(3,4)] by (simp add: add_mset_commute)
    from handle_clear_refs [OF z(1) _ this] show ?thesis using out z(2,3) by auto
  qed
  then show "refs_ok own w'" "handles_ok (add_mset m' hs) w'" "e \<noteq> None \<Longrightarrow> m' = m" by auto
qed

lemma read_string_keeps:
  assumes "handle_get_string_desc_utf8 be m ix lang w = Some (s, w')"
  shows "keeps_refs w w'"
proof -
  obtain r buf w1 where g: "libusby_get_string_descriptor be m ix lang (stack_bytes 256 w) 256 w = Some (r, buf, w1)"
    and w1: "w' = w1"
    using assms by (auto simp: handle_get_string_desc_utf8_def libusby_get_string_descriptor_utf8_def bind_Some_conv
        split: if_splits option.splits)
  then obtain r1 d1 w2 where d: "usbyb_get_descriptor be m 3 ix lang (stack_bytes 256 w) 256 w = Some (r1, d1, w2)"
    and rest: "(if r1 = err LIBUSBY_ERROR_NOT_SUPPORTED
      then libusby_control_transfer be m 0x80 6 (ucast ix OR 0x300) lang d1 (word_of_int 256) 0 w2
      else Some (r1, d1, w2)) = Some (r, buf, w1)"
    by (auto simp: libusby_get_string_descriptor_def bind_Some_conv)
  note k1 = descriptor_keeps [OF d]
  show ?thesis unfolding w1 using rest k1 keeps_refs_trans [OF k1 control_transfer_keeps] by (auto split: if_splits)
qed

lemma wrapper_step_ok:
  assumes "wrapper_step be s t" "program_ok s"
  shows "program_ok t"
  using assms
proof (induction rule: wrapper_step.induct)
  case (new_device own ds hs w)
  then show ?case by (simp add: program_ok_def obj_refs_add)
next
  case (copy_device m ds w m' w' own hs)
  then show ?case
    using device_copy_refs [of m w m' w' own ds] handles_ok_cong [of w' w] by (simp add: program_ok_def)
next
  case (assign_device rhs m ds w m' w' own hs)
  then show ?case
    using device_assign_refs [of m rhs w m' w' own ds] handles_ok_cong [of w' w] by (simp add: program_ok_def)
next
  case (swap_devices a b a' b' own ds hs w)
  then show ?case by (auto simp: program_ok_def device_swap_def add_mset_commute)
next
  case (clear_device m w m' w' own ds hs)
  then show ?case
    using device_clear_refs [of m w m' w' own ds] handles_ok_cong [of w' w] by (simp add: program_ok_def obj_refs_add)
next
  case (destroy_device m w m' w' own ds hs)
  then show ?case
    using device_clear_refs [of m w m' w' own ds] handles_ok_cong [of w' w] by (simp add: program_ok_def)
next
  case (ref_pointer p w m w' own ds hs)
  then show ?case
    using device_copy_refs [of p w m w' own ds] device_ref_copy [of p w m w'] handles_ok_cong [of w' w]
    by (simp add: program_ok_def)
next
  case (take_pointer own p m ds hs w)
  then have m: "m = p" "p \<noteq> 0" by (auto simp: device_take_ownership_def c_assert_Some bind_Some_conv)
  then have "obj_refs (own(p := own p - 1)) (add_mset m ds) = obj_refs own ds"
    using take_pointer(1) by (auto simp: obj_refs_def fun_eq_iff)
  then show ?case using take_pointer(3) by (simp add: program_ok_def)
next
  case (list_devices c w res w' own ds hs)
  then show ?case
    using context_list_refs [of c w res w' own ds] handles_ok_cong [of w' w] by (auto simp: program_ok_def split: sum.splits)
next
  case (new_handle own ds hs w)
  then show ?case by (simp add: program_ok_def handles_ok_def)
next
  case (construct_handle dev w e m w' own ds hs)
  then have "handles_ok (add_mset 0 hs) w" by (simp add: program_ok_def handles_ok_def)
  moreover have "handles_ok (add_mset 0 hs) w' = handles_ok hs w'" by (simp add: handles_ok_def)
  ultimately show ?case
    using construct_handle handle_open_refs [of 0 dev w e m w' "obj_refs own ds" hs] by (auto simp: program_ok_def)
next
  case (open_handle m dev w e m' w' own ds hs)
  then show ?case using handle_open_refs [of m dev w e m' w' "obj_refs own ds" hs] by (simp add: program_ok_def)
next
  case (clear_handle m w m' w' own ds hs)
  then have "m' = 0" "refs_ok (obj_refs own ds) w'" "handles_ok hs w'"
    using handle_clear_refs [of m w m' w' "obj_refs own ds" hs] by (simp_all add: program_ok_def)
  then show ?case by (simp add: program_ok_def handles_ok_def)
next
  case (destroy_handle m w m' w' own ds hs)
  then show ?case using handle_clear_refs [of m w m' w' "obj_refs own ds" hs] by (simp add: program_ok_def)
next
  case (read_string m hs ix lang w s w' own ds)
  then have k: "keeps_refs w w'" using read_string_keeps by blast
  then show ?case
    using read_string refs_ok_keeps [OF k] handles_ok_cong [of w' w] by (simp add: program_ok_def keeps_refs_def)
qed

lemma wrapper_run_ok: "wrapper_run be s t \<Longrightarrow> program_ok s \<Longrightarrow> program_ok t"
  unfolding wrapper_run_def by (induction rule: rtranclp_induct) (auto intro: wrapper_step_ok)

end

end
