(* ===== verification/Wrapper_Props.thy ===== *)
theory Wrapper_Props
  imports Wrapper Linux_Example Win32_Example
begin

text \<open>
  The C++ classes (\<^verbatim>\<open>src/libusby.hpp\<close>) over the back ends: programs of objects keep the
  references exact, and the two classes that release a pointer twice.
\<close>

section \<open>Programs of objects\<close>

text \<open>Nothing is left when every object is gone or empty.\<close>

lemma program_finished:
  assumes "program_ok (own, ds, hs, w)" "set_mset ds \<subseteq> {0}" "set_mset hs \<subseteq> {0}"
  shows "targets w = Map.empty \<and> counts w = (\<lambda>d. if own d = 0 then None else Some (int (own d)))"
proof -
  have "obj_refs own ds = own"
    using assms(2) by (auto simp: obj_refs_def fun_eq_iff not_in_iff)
  then have ok: "refs_ok own w" "handles_ok hs w" using assms(1) by (simp_all add: program_ok_def)
  have "targets w h = None" for h
  proof (cases "h = 0")
    case True
    then show ?thesis using ok(1) by (auto simp: refs_ok_def)
  next
    case False
    then have "count hs h = 0" using assms(3) by (auto simp: not_in_iff [symmetric])
    then show ?thesis using ok(2) False by (auto simp: handles_ok_def domIff split: if_splits)
  qed
  then have t: "targets w = Map.empty" by auto
  then have "refs own w = own" by (simp add: refs_def fun_eq_iff)
  then show ?thesis using t refs_ok_counts [OF ok(1)] by (simp add: fun_eq_iff)
qed

text \<open>
  C7: Programs that use the C++ classes leak nothing and release nothing twice, on Linux: however
  \<open>device\<close> and \<open>device_handle\<close> objects are created, copied (devices only), assigned,
  swapped, cleared and destroyed, whichever constructor or call throws, every device counts
  exactly one reference for each object that points to it, each open handle and each plain
  reference of the program, and the open handles are exactly those of the \<open>device_handle\<close>
  objects. When all objects are gone, no handle is open and only the plain references are left.
\<close>

theorem linux_wrapper_accounting:
  assumes "wrapper_run (linux_backend K sz env cb) s (own, ds, hs, w)" "program_ok s"
  shows "refs_ok (obj_refs own ds) w \<and> handles_ok hs w \<and>
    (set_mset ds \<subseteq> {0} \<and> set_mset hs \<subseteq> {0} \<longrightarrow>
      targets w = Map.empty \<and> counts w = (\<lambda>d. if own d = 0 then None else Some (int (own d))))"
  using os_contract.wrapper_run_ok [OF linux.os_contract_axioms assms] program_finished [of own ds hs w] by (auto simp: program_ok_def)

text \<open>The same on Windows.\<close>

lemma win_wrapper_accounting:
  "wrapper_run (win_backend K sz env cb) s t \<Longrightarrow> program_ok s \<Longrightarrow> program_ok t"
  by (rule os_contract.wrapper_run_ok [OF win.os_contract_axioms])

lemma example_program_ok: "program_ok (\<lambda>_. 0, {#2#}, {#3#}, example_world)"
proof -
  have "obj_refs (\<lambda>_. 0) {#2#} = example_own" by (auto simp: obj_refs_def example_own_def fun_eq_iff)
  then show ?thesis using example_refs_ok by (simp add: program_ok_def handles_ok_def example_counts)
qed

lemma example_destroy:
  "map_option (\<lambda>(a, b). (a, fst b)) (do { (a, w) \<leftarrow> handle_clear example_backend 3 example_world;
     b \<leftarrow> device_clear example_backend 2 w; Some (a, b) }) = Some (0, 0)"
  by code_simp

theorem linux_wrapper_accounting_witness:
  "\<exists>w. wrapper_run example_backend (\<lambda>_. 0, {#2#}, {#3#}, example_world) (\<lambda>_. 0, {#}, {#}, w) \<and>
     targets w = Map.empty \<and> counts w = Map.empty"
proof -
  obtain w1 w2 where w: "handle_clear example_backend 3 example_world = Some (0, w1)"
    "device_clear example_backend 2 w1 = Some (0, w2)"
    using example_destroy by (auto simp: bind_Some_conv)
  have run: "wrapper_run example_backend (\<lambda>_. 0, {#2#}, {#3#}, example_world) (\<lambda>_. 0, {#}, {#}, w2)"
    unfolding wrapper_run_def
    by (rule converse_rtranclp_into_rtranclp [OF wrapper_step.destroy_handle [OF w(1)]
          r_into_rtranclp [of "wrapper_step example_backend", OF wrapper_step.destroy_device [OF w(2)]]])
  show ?thesis using linux_wrapper_accounting [OF run example_program_ok] run by auto
qed

section \<open>Copies of handles\<close>

text \<open>
  C39: A copied \<open>device_handle\<close> is closed twice: the class has a destructor that closes the
  handle but no copy constructor of its own, so that original and copy hold the same pointer. On
  Linux, once either of them has been cleared or destroyed, clearing or destroying the other is undefined.
\<close>

theorem linux_copied_handle:
  assumes "handle_clear (linux_backend K sz env cb) m w = Some (m', w')" "refs_ok own w" "m \<noteq> 0"
  shows "m' = 0 \<and> handle_clear (linux_backend K sz env cb) (handle_copy m) w' = None"
proof -
  have "libusby_close (linux_backend K sz env cb) m w = Some w'" "m' = 0"
    using assms(1,3) by (auto simp: handle_clear_def bind_Some_conv)
  then have "hnds w' m = None"
    using linux.close_outcome [OF assms(2)] by (metis fun_upd_same option.map_disc_iff targets_def)
  then show ?thesis
    using assms(3) \<open>m' = 0\<close> by (simp add: handle_clear_def handle_copy_def libusby_close_def linux_usbyb_close_def)
qed

theorem linux_copied_handle_witness:
  "\<exists>w'. handle_clear example_backend 3 example_world = Some (0, w') \<and>
     handle_clear example_backend (handle_copy 3) w' = None"
proof -
  obtain w' where run: "handle_clear example_backend 3 example_world = Some (0, w')"
    using example_destroy by (auto simp: bind_Some_conv)
  show ?thesis using linux_copied_handle [OF run example_refs_ok] run by simp
qed

section \<open>Cleared contexts\<close>

text \<open>
  C40: A cleared \<open>context\<close> is released again by its destructor: unlike the other classes,
  \<open>context::clear\<close> keeps the pointer it has given to \<open>libusby_exit\<close>. On Linux the second
  call, by \<open>clear\<close>, by \<open>create\<close> or by the destructor, is undefined.
\<close>

theorem linux_cleared_context:
  assumes "context_clear (linux_backend K sz env cb) m w = Some (m', w')" "m \<noteq> 0"
  shows "m' = m \<and> context_clear (linux_backend K sz env cb) m' w' = None"
proof -
  obtain w1 where "linux_usbyb_exit K m w = Some w1" "free_context m w1 = Some w'" and m': "m' = m"
    using assms by (auto simp: context_clear_def libusby_exit_def bind_Some_conv)
  then have "ctxs w' m = None" using assms(2) by (auto simp: free_context_def free_block_def bind_Some_conv split: if_splits)
  then show ?thesis
    using assms(2) m' by (auto simp: context_clear_def libusby_exit_def linux_usbyb_exit_def bind_eq_None_conv)
qed

lemma example_create_clear:
  "map_option (\<lambda>((e, m), b). (e, m, fst b)) (do { (e, m, w) \<leftarrow> context_create example_backend 0 example_world;
     b \<leftarrow> context_clear example_backend m w; Some ((e, m), b) }) = Some (None, 100, 100)"
  by code_simp

theorem linux_cleared_context_witness:
  "\<exists>w1 w2. context_create example_backend 0 example_world = Some (None, 100, w1) \<and>
     context_clear example_backend 100 w1 = Some (100, w2) \<and> context_clear example_backend 100 w2 = None"
proof -
  obtain w1 w2 where w: "context_create example_backend 0 example_world = Some (None, 100, w1)"
    "context_clear example_backend 100 w1 = Some (100, w2)"
    using example_create_clear by (auto simp: bind_Some_conv)
  show ?thesis using linux_cleared_context [OF w(2)] w by simp
qed

end
