(* ===== verification/Spec2Isabelle.thy ===== *)
theory Spec2Isabelle
  imports Utf8 Config_Props Linux_Client Linux_Cache Linux_Control Linux_Watch Linux_Events
    Win32_Client Win32_Handles Win32_Wait Win32_Reap Win32_Sync Wrapper_Props
begin

text \<open>
  A verification of libusby, a library for access to USB devices: the front end, its back ends for
  Linux (usbfs) and Windows (libusb0.sys), and the C++ classes around it. Paths are those under
  \<^verbatim>\<open>src/\<close> of the repository.

  \<^bold>\<open>The program.\<close> \<^verbatim>\<open>libusby.c\<close> implements the public functions of
  \<^verbatim>\<open>libusby.h\<close> on contexts, devices, handles, transfers and descriptors. It calls
  one of two back ends through the functions \<^verbatim>\<open>usbyb_*\<close> declared in
  \<^verbatim>\<open>os/os.h\<close>; a back end embeds the public structures in its own, keeps the devices
  of a context in a ring (\<^verbatim>\<open>libusbyi.h\<close>), and calls back for reference counting
  and for the growing array of a device list.

  \<^bold>\<open>How it is modelled.\<close> Every function of C is a function on a record of the whole state,
  \<open>World.world\<close>, which holds one partial map from addresses to objects per kind of object
  and the allocator. The result is an \<open>option\<close>: \<open>None\<close> is behaviour the language
  does not define (an access outside a block, a null or freed pointer, a signed overflow) or a failed
  assertion, so that \<open>Some\<close> in a conclusion is a proof of memory safety. Error codes are values
  of type \<open>int\<close>, as in the code. Every \<open>malloc\<close> may fail, by an arbitrary predicate on the
  number of the allocation. Memory that C does not initialize has an arbitrary content.
  Machine integers are words; \<open>int\<close> of C is \<open>int\<close> with a check of its range.

  The operating system is a parameter: \<open>kernel\<close> and \<open>win32\<close> are records of functions on
  an abstract state, one for each system call the sources make, with no assumption on them but
  those a theorem states. \<open>env\<close> is what other threads do while a call waits with the lock
  released, \<open>cb\<close> runs callbacks of transfers.

  \<^bold>\<open>The theories.\<close>

  \<^item> \<open>Prelude\<close>: errors as options, reads and writes in range, collections of simplification rules.
  \<open>Usb_Types\<close>: the enumerations and descriptors of \<^verbatim>\<open>libusby.h\<close>.

  \<^item> \<open>Utf8\<close>: \<^verbatim>\<open>encode_utf8\<close> and the conversion of string descriptors. Bounds, the
  exact result for the basic plane, equality with standard UTF-8 up to three code points, and the
  errors of the code on surrogate pairs.

  \<^item> \<open>Memory\<close>, \<open>Config_Desc\<close>: the allocator, the parser of configuration descriptors
  (\<^verbatim>\<open>usbyi_sanitize_config_descriptor\<close>) and the release of its result, on a heap of
  four kinds of blocks. \<open>Config_Leak\<close>: no block leaks. \<open>Config_Spec\<close>, \<open>Config_Refine\<close>:
  an abstract parser without pointers, and the refinement. \<open>Config_Props\<close>: the properties,
  with the round trip over well-formed configurations.

  \<^item> \<open>Device_Array\<close>, \<open>Linked_List\<close>, \<open>Devlist\<close>: the array of a device list and the
  ring of devices. \<open>Linked_List\<close> is the interface of a doubly linked list (a locale, with
  sequences of operations proved against lists), which is interpreted on the ring of devices and,
  in \<open>Win32_Queue\<close>, on the queue of transfers of the Windows back end.

  \<^item> \<open>World\<close>, \<open>Devices\<close>, \<open>Frontend\<close>: the objects, the interface
  \<^verbatim>\<open>os/os.h\<close> as the record \<open>backend\<close>, and all functions of
  \<^verbatim>\<open>libusby.c\<close>. \<open>Frontend_Refs\<close>: the contract of references between front
  end and back end (locale \<open>os_contract\<close>, above \<open>finalizer\<close> of \<open>Devices\<close>) and what
  follows for the public functions; \<open>Enum_Refs\<close>: what an enumeration of devices does to references
  and to the arrays of the heap;
  \<open>Client\<close>: programs that use the library (their transfers are control transfers), as a step relation that keeps the accounting;
  \<open>Transfer_Steps\<close>: the steps of synchronous transfers.

  \<^item> \<open>Linux_Base\<close>, \<open>Linux_Transfer\<close>, \<open>Linux_Loop\<close>, \<open>Linux_Enum\<close>: the four
  parts of \<^verbatim>\<open>os/linux_usbfs.c\<close>; \<open>Linux_Backend\<close>: their record, and the
  interpretation of the contract on it; \<open>Linux_Example\<close>: a concrete state for the witnesses.
  \<open>Linux_Client\<close>: references, listing, searching. \<open>Linux_Cache\<close>: the cache of
  descriptors. \<open>Linux_Sync\<close>, \<open>Linux_Control\<close>: synchronous transfers. \<open>Linux_Watch\<close>:
  the table of watched descriptors. \<open>Linux_Events\<close>: stopping, completion, contexts,
  configurations, known devices.

  \<^item> \<open>Win32_Base\<close>, \<open>Win32_Transfer\<close>, \<open>Win32_Loop\<close>, \<open>Win32_Enum\<close>,
  \<open>Win32_Backend\<close>, \<open>Win32_Example\<close>: the same for \<^verbatim>\<open>os/libusb0_win32.c\<close>
  and the requests of \<^verbatim>\<open>os/libusb0_win32_intf.h\<close>. \<open>Win32_Request\<close>: one request to the driver
  as a function of the state of the system, the specification of what the waiting functions do. \<open>Win32_Client\<close>: references.
  \<open>Win32_Handles\<close>: requests that wait make one request, and the handles of the system are given back. \<open>Win32_Queue\<close>,
  \<open>Win32_Reap\<close>: the queue of transfers and their completion, with whatever their callbacks do. \<open>Win32_Wait\<close>: the array of
  handles of the event loop, and its two missing error paths. \<open>Win32_Sync\<close>: synchronous transfers.

  \<^item> \<open>Wrapper\<close>, \<open>Wrapper_Props\<close>: the classes of \<^verbatim>\<open>libusby.hpp\<close>,
  programs of their objects as a step relation, and the two classes that release a pointer twice.

  \<^bold>\<open>Loops.\<close> Loops over arrays and descriptors are structural or have a measure. The walks along
  a ring of pointers and the event loops, which need not end, are partial functions with the result
  \<open>None\<close> when they do not; that the walk ends on a ring is a theorem, and so is the return of
  the event loop after a stop. No fuel is used, and nothing is bounded but by the width of the integers.

  \<^bold>\<open>Not modelled.\<close> \<^verbatim>\<open>libusbyi_fwd.h\<close> declares types only and
  \<^verbatim>\<open>libusb.h\<close> renames functions and constants. Of the C++ classes the getters, comparisons
  and conversions are the pointer itself; of their exceptions, only which is thrown is kept. The eight
  functions that \<^verbatim>\<open>libusby.h\<close> declares and no source defines have no model. Threads
  are not interleaved statement by statement: another thread acts where a lock is released to wait.
  Addresses are never used twice, so that a use of freed memory is always seen. The system calls,
  the drivers and the formatting of their error numbers belong to the operating system.
\<close>

end
